(* ===== verification/Prelude.thy ===== *)
theory Prelude
  imports Main "HOL-Library.Word" "HOL-Library.List_Lexorder" "HOL-Library.Char_ord"
begin

text \<open>
  The shared vocabulary of the development: Rust's machine integers and checked arithmetic,
  \<open>Result\<close> as a sum, byte strings, and a state-and-error monad for the
  \<open>&mut self\<close> methods of the reducers, with its Hoare-style rules.

  A Rust \<open>String\<close> is its UTF-8 byte sequence, one HOL character per byte: \<open>len\<close> is
  the length of the list, \<open>bytes\<close> the list itself.  A method \<open>fn f(&mut self)
  -> Result<T, E>\<close> is a function from the state to a result and the new state, on the error
  path too: what the method has already written when it returns \<open>Err\<close> stays written.
\<close>

named_theorems hoare_intros \<open>introduction rules for the triples of the state-and-error monad\<close>
named_theorems frame_simps \<open>fields that a reducer operation leaves alone\<close>

section \<open>Machine integers\<close>

type_synonym u8 = "8 word"
type_synonym u16 = "16 word"
type_synonym u32 = "32 word"
type_synonym u64 = "64 word"
type_synonym u128 = "128 word"

text \<open>A path is an operating-system string: bytes, compared exactly.\<close>

type_synonym path = string

definition checked_add :: "'a::len word \<Rightarrow> 'a word \<Rightarrow> 'a word option" where
  "checked_add a b = (if unat a + unat b < 2 ^ LENGTH('a) then Some (a + b) else None)"

definition checked_sub :: "'a::len word \<Rightarrow> 'a word \<Rightarrow> 'a word option" where
  "checked_sub a b = (if b \<le> a then Some (a - b) else None)"

lemma checked_add_SomeD:
  "checked_add a b = Some c \<Longrightarrow> c = a + b \<and> unat c = unat a + unat b"
  by (auto simp: checked_add_def unat_word_ariths split: if_splits)

lemma checked_add_unat:
  "checked_add a b = Some c \<longleftrightarrow> unat a + unat b < 2 ^ LENGTH('a) \<and> c = a + b"
  for a b c :: "'a::len word"
  by (auto simp: checked_add_def)

lemma checked_add_None:
  "checked_add a b = None \<longleftrightarrow> 2 ^ LENGTH('a) \<le> unat a + unat b"
  for a b :: "'a::len word"
  by (auto simp: checked_add_def)

lemma checked_sub_SomeD:
  "checked_sub a b = Some c \<Longrightarrow> b \<le> a \<and> unat c = unat a - unat b"
  by (auto simp: checked_sub_def unat_sub split: if_splits)

text \<open>Incrementing an identifier never wraps to zero.\<close>

lemma checked_add_one_nonzero:
  assumes "checked_add a (1 :: 'a::len word) = Some c"
  shows "c \<noteq> 0" "a < c" "unat c = Suc (unat a)"
proof -
  have u: "unat c = unat a + unat (1 :: 'a word)"
    using checked_add_SomeD [OF assms] by blast
  then show *: "unat c = Suc (unat a)" by simp
  show "c \<noteq> 0" using * by auto
  show "a < c" using * by (simp add: word_less_nat_alt)
qed

lemma unat_bound: "unat (w :: 'a::len word) < 2 ^ LENGTH('a)"
  by (rule unsigned_less)

section \<open>Results\<close>

text \<open>\<open>Result<T, E>\<close> is \<open>'e + 'a\<close>; \<open>rbind\<close> is the question-mark operator.\<close>

primrec rbind :: "'e + 'a \<Rightarrow> ('a \<Rightarrow> 'e + 'b) \<Rightarrow> 'e + 'b" where
  "rbind (Inl e) f = Inl e"
| "rbind (Inr a) f = f a"

primrec map_err :: "('e \<Rightarrow> 'f) \<Rightarrow> 'e + 'a \<Rightarrow> 'f + 'a" where
  "map_err g (Inl e) = Inl (g e)"
| "map_err g (Inr a) = Inr a"

definition ok_or :: "'a option \<Rightarrow> 'e \<Rightarrow> 'e + 'a" where
  "ok_or m e = (case m of None \<Rightarrow> Inl e | Some a \<Rightarrow> Inr a)"

text \<open>\<open>guard c e\<close> is the early return \<open>if !c { return Err(e); }\<close>.\<close>

definition guard :: "bool \<Rightarrow> 'e \<Rightarrow> 'e + unit" where
  "guard c e = (if c then Inr () else Inl e)"

definition is_ok :: "'e + 'a \<Rightarrow> bool" where
  "is_ok r = (case r of Inl _ \<Rightarrow> False | Inr _ \<Rightarrow> True)"

text \<open>A loop that returns at its first error.\<close>

fun try_each :: "('a \<Rightarrow> 'e + unit) \<Rightarrow> 'a list \<Rightarrow> 'e + unit" where
  "try_each f [] = Inr ()"
| "try_each f (x # xs) = rbind (f x) (\<lambda>_. try_each f xs)"

lemma rbind_Inr_iff [simp]: "rbind m f = Inr b \<longleftrightarrow> (\<exists>a. m = Inr a \<and> f a = Inr b)"
  by (cases m) auto

lemma rbind_Inl_iff: "rbind m f = Inl e \<longleftrightarrow> m = Inl e \<or> (\<exists>a. m = Inr a \<and> f a = Inl e)"
  by (cases m) auto

lemma map_err_Inr_iff [simp]: "map_err g m = Inr a \<longleftrightarrow> m = Inr a"
  by (cases m) auto

lemma map_err_Inl_iff: "map_err g m = Inl f \<longleftrightarrow> (\<exists>e. m = Inl e \<and> f = g e)"
  by (cases m) auto

lemma ok_or_Inr_iff [simp]: "ok_or m e = Inr a \<longleftrightarrow> m = Some a"
  by (cases m) (auto simp: ok_or_def)

lemma ok_or_simps [simp]: "ok_or None e = Inl e" "ok_or (Some a) e = Inr a"
  by (auto simp: ok_or_def)

lemma guard_Inr_iff [simp]: "guard c e = Inr u \<longleftrightarrow> c"
  by (auto simp: guard_def)

lemma guard_simps [simp]: "guard True e = Inr ()" "guard False e = Inl e"
  by (auto simp: guard_def)

lemma guard_Inl_iff [simp]: "guard c e = Inl f \<longleftrightarrow> \<not> c \<and> f = e"
  by (auto simp: guard_def)

lemma is_ok_simps [simp]: "is_ok (Inl e) = False" "is_ok (Inr a) = True"
  by (simp_all add: is_ok_def)

lemma is_ok_iff: "is_ok r \<longleftrightarrow> (\<exists>a. r = Inr a)"
  by (cases r) simp_all

lemma try_each_Inr_iff: "try_each f xs = Inr u \<longleftrightarrow> (\<forall>x \<in> set xs. f x = Inr ())"
  by (induction xs) auto

lemma try_each_InlD: "try_each f xs = Inl e \<Longrightarrow> \<exists>x \<in> set xs. f x = Inl e"
  by (induction xs) (auto simp: rbind_Inl_iff)

section \<open>Byte strings\<close>

definition is_ascii_alnum :: "char \<Rightarrow> bool" where
  "is_ascii_alnum c = (let n = (of_char c :: nat) in
     48 \<le> n \<and> n \<le> 57 \<or> 65 \<le> n \<and> n \<le> 90 \<or> 97 \<le> n \<and> n \<le> 122)"

definition is_lower_hex :: "char \<Rightarrow> bool" where
  "is_lower_hex c = (let n = (of_char c :: nat) in 48 \<le> n \<and> n \<le> 57 \<or> 97 \<le> n \<and> n \<le> 102)"

definition to_ascii_lower :: "char \<Rightarrow> char" where
  "to_ascii_lower c = (let n = (of_char c :: nat) in if 65 \<le> n \<and> n \<le> 90 then char_of (n + 32) else c)"

text \<open>
  \<open>chars().any(char::is_control)\<close>: the control characters are U+0000 to U+001F, U+007F and
  U+0080 to U+009F.  In UTF-8 the first two groups are single bytes and the third is the byte
  0xC2 followed by a byte from 0x80 to 0x9F; 0xC2 is never a continuation byte.
\<close>

fun has_control :: "string \<Rightarrow> bool" where
  "has_control [] = False"
| "has_control (c # cs) = (let n = (of_char c :: nat) in
     n < 32 \<or> n = 127
     \<or> (n = 194 \<and> (case cs of [] \<Rightarrow> False
          | d # _ \<Rightarrow> 128 \<le> (of_char d :: nat) \<and> (of_char d :: nat) \<le> 159))
     \<or> has_control cs)"

text \<open>
  \<open>trim().is_empty()\<close>: every character has the Unicode property White\_Space.  The
  multi-byte ones are U+0085, U+00A0, U+1680, U+2000 to U+200A, U+2028, U+2029, U+202F, U+205F
  and U+3000.
\<close>

fun all_white_bytes :: "nat list \<Rightarrow> bool" where
  "all_white_bytes [] = True"
| "all_white_bytes (a # b # c # ns) =
     (if 9 \<le> a \<and> a \<le> 13 \<or> a = 32 then all_white_bytes (b # c # ns)
      else if a = 194 \<and> (b = 133 \<or> b = 160) then all_white_bytes (c # ns)
      else if a = 225 \<and> b = 154 \<and> c = 128
        \<or> a = 226 \<and> b = 128 \<and> (128 \<le> c \<and> c \<le> 138 \<or> c = 168 \<or> c = 169 \<or> c = 175)
        \<or> a = 226 \<and> b = 129 \<and> c = 159
        \<or> a = 227 \<and> b = 128 \<and> c = 128 then all_white_bytes ns
      else False)"
| "all_white_bytes (a # ns) =
     (if 9 \<le> a \<and> a \<le> 13 \<or> a = 32 then all_white_bytes ns
      else a = 194 \<and> (ns = [133] \<or> ns = [160]))"

definition trim_is_empty :: "string \<Rightarrow> bool" where
  "trim_is_empty s = all_white_bytes (map of_char s)"

section \<open>Fixed-width byte encodings\<close>

text \<open>The first \<open>n\<close> little-endian bytes of a number; big-endian is the reverse.\<close>

fun le_bytes :: "nat \<Rightarrow> nat \<Rightarrow> string" where
  "le_bytes 0 x = []"
| "le_bytes (Suc n) x = char_of x # le_bytes n (x div 256)"

definition be_bytes :: "nat \<Rightarrow> nat \<Rightarrow> string" where
  "be_bytes n x = rev (le_bytes n x)"

lemma length_le_bytes [simp]: "length (le_bytes n x) = n"
  by (induction n arbitrary: x) auto

lemma length_be_bytes [simp]: "length (be_bytes n x) = n"
  by (simp add: be_bytes_def)

lemma le_bytes_inj:
  "le_bytes n x = le_bytes n y \<Longrightarrow> x < 256 ^ n \<Longrightarrow> y < 256 ^ n \<Longrightarrow> x = y"
proof (induction n arbitrary: x y)
  case 0
  then show ?case by simp
next
  case (Suc n)
  have lt: "x div 256 < 256 ^ n" "y div 256 < 256 ^ n"
    using Suc.prems(2,3) by (auto simp: less_mult_imp_div_less)
  have "of_char (char_of x :: char) = (of_char (char_of y :: char) :: nat)"
    using Suc.prems(1) by simp
  then have "x mod 256 = y mod 256" by simp
  moreover have "x div 256 = y div 256"
    using Suc.IH [OF _ lt] Suc.prems(1) by simp
  ultimately show ?case by (metis div_mult_mod_eq)
qed

lemma be_bytes_inj:
  "be_bytes n x = be_bytes n y \<Longrightarrow> x < 256 ^ n \<Longrightarrow> y < 256 ^ n \<Longrightarrow> x = y"
  by (simp add: be_bytes_def le_bytes_inj)

text \<open>Lowercase hexadecimal, high nibble first.\<close>

definition hex_digit :: "nat \<Rightarrow> char" where
  "hex_digit n = ''0123456789abcdef'' ! n"

definition hex_encode :: "string \<Rightarrow> string" where
  "hex_encode bs = concat (map (\<lambda>c. [hex_digit (of_char c div 16), hex_digit (of_char c mod 16)]) bs)"

lemma is_lower_hex_digit: "n < 16 \<Longrightarrow> is_lower_hex (hex_digit n)"
proof -
  assume "n < 16"
  then have "n \<in> {0,1,2,3,4,5,6,7,8,9,10,11,12,13,14,15}" by (simp; presburger)
  then show ?thesis by (auto simp: hex_digit_def is_lower_hex_def)
qed

lemma length_hex_encode [simp]: "length (hex_encode bs) = 2 * length bs"
  by (induction bs) (auto simp: hex_encode_def)

lemma of_char_lt_256 [simp]: "(of_char c :: nat) < 256"
  using nat_of_char_less_256 .

lemma hex_encode_lower: "list_all is_lower_hex (hex_encode bs)"
  unfolding hex_encode_def
  by (induction bs) (auto intro!: is_lower_hex_digit simp: less_mult_imp_div_less)

lemma hex_digit_inj:
  assumes "m < 16" "n < 16" "hex_digit m = hex_digit n"
  shows "m = n"
proof -
  have "distinct ''0123456789abcdef''" by simp
  then show ?thesis
    using assms unfolding hex_digit_def by (simp add: nth_eq_iff_index_eq)
qed

lemma hex_encode_inj: "hex_encode xs = hex_encode ys \<Longrightarrow> xs = ys"
proof (induction xs arbitrary: ys)
  case Nil
  then show ?case using length_hex_encode [of ys] by (simp add: hex_encode_def)
next
  case (Cons x xs)
  then have "length ys = Suc (length xs)"
    using length_hex_encode [of "x # xs"] length_hex_encode [of ys] by simp
  then obtain y zs where ys: "ys = y # zs" by (cases ys) auto
  have d: "hex_digit (of_char x div 16) = hex_digit (of_char y div 16)"
    "hex_digit (of_char x mod 16) = hex_digit (of_char y mod 16)"
    and rest: "hex_encode xs = hex_encode zs"
    using Cons.prems unfolding ys hex_encode_def by simp_all
  have lt: "(of_char c :: nat) div 16 < 16" for c :: char
    using of_char_lt_256 [of c] by (simp add: less_mult_imp_div_less)
  have "(of_char x :: nat) div 16 = of_char y div 16" "(of_char x :: nat) mod 16 = of_char y mod 16"
    using hex_digit_inj [OF lt lt d(1)] hex_digit_inj [OF _ _ d(2)] by simp_all
  then have "(of_char x :: nat) = of_char y" by (metis div_mult_mod_eq)
  then show ?case using Cons.IH [OF rest] ys by simp
qed

section \<open>The state-and-error monad\<close>

type_synonym ('s, 'e, 'a) sm = "'s \<Rightarrow> ('e + 'a) \<times> 's"

definition ok :: "'a \<Rightarrow> ('s, 'e, 'a) sm" where
  "ok a s = (Inr a, s)"

definition fail :: "'e \<Rightarrow> ('s, 'e, 'a) sm" where
  "fail e s = (Inl e, s)"

definition and_then :: "('s, 'e, 'a) sm \<Rightarrow> ('a \<Rightarrow> ('s, 'e, 'b) sm) \<Rightarrow> ('s, 'e, 'b) sm" where
  "and_then m f s = (case m s of (Inl e, s') \<Rightarrow> (Inl e, s') | (Inr a, s') \<Rightarrow> f a s')"

text \<open>Read the state, write it, and run a pure check on it.\<close>

definition gets :: "('s \<Rightarrow> 'a) \<Rightarrow> ('s, 'e, 'a) sm" where
  "gets f s = (Inr (f s), s)"

definition modify :: "('s \<Rightarrow> 's) \<Rightarrow> ('s, 'e, unit) sm" where
  "modify f s = (Inr (), f s)"

definition lift_result :: "('s \<Rightarrow> 'e + 'a) \<Rightarrow> ('s, 'e, 'a) sm" where
  "lift_result f s = (f s, s)"

lemmas sm_defs = ok_def fail_def gets_def modify_def lift_result_def

lemma and_then_Inr_iff:
  "and_then m f s = (Inr b, t) \<longleftrightarrow> (\<exists>a u. m s = (Inr a, u) \<and> f a u = (Inr b, t))"
  by (auto simp: and_then_def split: prod.splits sum.splits)

lemma and_then_Inl_iff:
  "and_then m f s = (Inl e, t) \<longleftrightarrow>
     m s = (Inl e, t) \<or> (\<exists>a u. m s = (Inr a, u) \<and> f a u = (Inl e, t))"
  by (auto simp: and_then_def split: prod.splits sum.splits)

subsection \<open>Triples\<close>

text \<open>
  \<open>triple P m Q R\<close>: from a state in \<open>P\<close>, a successful run ends in \<open>Q a\<close> for its
  value \<open>a\<close> and a failing one in \<open>R e\<close> for its error \<open>e\<close>.
\<close>

definition triple ::
    "('s \<Rightarrow> bool) \<Rightarrow> ('s, 'e, 'a) sm \<Rightarrow> ('a \<Rightarrow> 's \<Rightarrow> bool) \<Rightarrow> ('e \<Rightarrow> 's \<Rightarrow> bool) \<Rightarrow> bool" where
  "triple P m Q R = (\<forall>s. P s \<longrightarrow> (case m s of (Inl e, t) \<Rightarrow> R e t | (Inr a, t) \<Rightarrow> Q a t))"

lemma tripleI:
  assumes "\<And>s a t. P s \<Longrightarrow> m s = (Inr a, t) \<Longrightarrow> Q a t"
    and "\<And>s e t. P s \<Longrightarrow> m s = (Inl e, t) \<Longrightarrow> R e t"
  shows "triple P m Q R"
  using assms by (auto simp: triple_def split: prod.splits sum.splits)

lemma triple_okD: "triple P m Q R \<Longrightarrow> P s \<Longrightarrow> m s = (Inr a, t) \<Longrightarrow> Q a t"
  by (fastforce simp: triple_def split: prod.splits sum.splits)

lemma triple_errD: "triple P m Q R \<Longrightarrow> P s \<Longrightarrow> m s = (Inl e, t) \<Longrightarrow> R e t"
  by (fastforce simp: triple_def split: prod.splits sum.splits)

lemma triple_and_then [hoare_intros]:
  assumes "triple P m Q R" and "\<And>a. triple (Q a) (f a) Q' R"
  shows "triple P (and_then m f) Q' R"
proof (rule tripleI)
  fix s b t
  assume "P s" "and_then m f s = (Inr b, t)"
  then show "Q' b t"
    using assms by (auto simp: and_then_Inr_iff dest: triple_okD)
next
  fix s e t
  assume "P s" "and_then m f s = (Inl e, t)"
  then show "R e t"
    using assms by (auto simp: and_then_Inl_iff dest: triple_okD triple_errD)
qed

lemma triple_weaken:
  assumes "triple P m Q R" and "\<And>s. P' s \<Longrightarrow> P s"
    and "\<And>a s. Q a s \<Longrightarrow> Q' a s" and "\<And>e s. R e s \<Longrightarrow> R' e s"
  shows "triple P' m Q' R'"
proof (rule tripleI)
  fix s a t
  assume "P' s" "m s = (Inr a, t)"
  then show "Q' a t" using triple_okD [OF assms(1)] assms(2,3) by blast
next
  fix s e t
  assume "P' s" "m s = (Inl e, t)"
  then show "R' e t" using triple_errD [OF assms(1)] assms(2,4) by blast
qed

text \<open>An operation keeps a property of the state on both paths.\<close>

definition keeps :: "('s \<Rightarrow> bool) \<Rightarrow> ('s, 'e, 'a) sm \<Rightarrow> bool" where
  "keeps I m = triple I m (\<lambda>_. I) (\<lambda>_. I)"

lemma keepsI: "(\<And>s r t. I s \<Longrightarrow> m s = (r, t) \<Longrightarrow> I t) \<Longrightarrow> keeps I m"
  by (auto simp: keeps_def intro!: tripleI)

lemma keepsD: "keeps I m \<Longrightarrow> I s \<Longrightarrow> m s = (r, t) \<Longrightarrow> I t"
  by (cases r) (auto simp: keeps_def dest: triple_okD triple_errD)

lemma keeps_and_then [hoare_intros]:
  "keeps I m \<Longrightarrow> (\<And>a. keeps I (f a)) \<Longrightarrow> keeps I (and_then m f)"
  unfolding keeps_def by (rule triple_and_then)

lemma keeps_simple [hoare_intros]:
  "keeps I (ok a)" "keeps I (fail e)" "keeps I (gets f)" "keeps I (lift_result g)"
  by (auto intro!: keepsI simp: sm_defs)

lemma keeps_modify [hoare_intros]: "(\<And>s. I s \<Longrightarrow> I (f s)) \<Longrightarrow> keeps I (modify f)"
  by (auto intro!: keepsI simp: sm_defs)

section \<open>Reducers\<close>

text \<open>The states a reducer can reach from its initial ones.\<close>

inductive reachable :: "('s \<Rightarrow> bool) \<Rightarrow> ('s \<Rightarrow> 's \<Rightarrow> bool) \<Rightarrow> 's \<Rightarrow> bool"
  for initial :: "'s \<Rightarrow> bool" and step :: "'s \<Rightarrow> 's \<Rightarrow> bool" where
  start: "initial s \<Longrightarrow> reachable initial step s"
| next_state: "reachable initial step s \<Longrightarrow> step s t \<Longrightarrow> reachable initial step t"

text \<open>The contract of a reducer with an invariant, and what its clients get from it.\<close>

locale reducer =
  fixes initial :: "'s \<Rightarrow> bool" and step :: "'s \<Rightarrow> 's \<Rightarrow> bool" and inv :: "'s \<Rightarrow> bool"
  assumes initial_inv: "initial s \<Longrightarrow> inv s"
    and step_inv: "inv s \<Longrightarrow> step s t \<Longrightarrow> inv t"
begin

lemma reachable_inv: "reachable initial step s \<Longrightarrow> inv s"
  by (induction rule: reachable.induct) (auto intro: initial_inv step_inv)

lemma run_inv: "step\<^sup>*\<^sup>* s t \<Longrightarrow> inv s \<Longrightarrow> inv t"
  by (induction rule: rtranclp_induct) (auto intro: step_inv)

end

text \<open>A quantity that no step of a reducer lowers, and a class of states it never leaves.\<close>

locale watermark = reducer initial step inv
  for initial :: "'s \<Rightarrow> bool" and step :: "'s \<Rightarrow> 's \<Rightarrow> bool" and inv :: "'s \<Rightarrow> bool" +
  fixes mark :: "'s \<Rightarrow> 'o::order"
  assumes step_mark: "inv s \<Longrightarrow> step s t \<Longrightarrow> mark s \<le> mark t"
begin

lemma run_mark: "step\<^sup>*\<^sup>* s t \<Longrightarrow> inv s \<Longrightarrow> mark s \<le> mark t"
proof (induction rule: rtranclp_induct)
  case (step t u)
  then show ?case using step_mark [OF run_inv] by (blast intro: order.trans)
qed simp

end

locale trap = reducer initial step inv
  for initial :: "'s \<Rightarrow> bool" and step :: "'s \<Rightarrow> 's \<Rightarrow> bool" and inv :: "'s \<Rightarrow> bool" +
  fixes stuck :: "'s \<Rightarrow> bool"
  assumes step_stuck: "inv s \<Longrightarrow> stuck s \<Longrightarrow> step s t \<Longrightarrow> stuck t"
begin

lemma run_stuck: "step\<^sup>*\<^sup>* s t \<Longrightarrow> inv s \<Longrightarrow> stuck s \<Longrightarrow> stuck t"
proof (induction rule: rtranclp_induct)
  case (step t u)
  then show ?case using step_stuck [OF run_inv] by blast
qed simp

end

end
