(* ===== verification/Ordered_Map.thy ===== *)
theory Ordered_Map
  imports Prelude
begin

text \<open>
  The standard library's \<open>BTreeMap\<close> as far as the reducers use it: a key-sorted
  association list, so that equality of maps is equality of lists, with lookup, insertion,
  length, and the \<open>get_mut(k).and_then(Option::take)\<close> idiom that spends a registered
  value.  The interface is stated as two locales; the one-use law of the second is what the
  authorization registry of the session reducer rests on.
\<close>

section \<open>Interfaces\<close>

locale ordered_map =
  fixes empty :: 'm
    and lookup :: "'m \<Rightarrow> 'k \<Rightarrow> 'v option"
    and put :: "'k \<Rightarrow> 'v \<Rightarrow> 'm \<Rightarrow> 'm"
    and size_of :: "'m \<Rightarrow> nat"
    and invar :: "'m \<Rightarrow> bool"
  assumes lookup_empty: "lookup empty k = None"
    and lookup_put: "invar m \<Longrightarrow> lookup (put k v m) = (lookup m)(k \<mapsto> v)"
    and size_lookup: "invar m \<Longrightarrow> size_of m = card (dom (lookup m))"
    and finite_lookup: "finite (dom (lookup m))"
    and ext: "invar m \<Longrightarrow> invar n \<Longrightarrow> lookup m = lookup n \<Longrightarrow> m = n"
    and invar_empty: "invar empty"
    and invar_put: "invar m \<Longrightarrow> invar (put k v m)"
begin

lemma size_empty: "size_of empty = 0"
  using size_lookup [OF invar_empty] by (simp add: lookup_empty dom_def)

lemma size_put_fresh:
  assumes "invar m" "lookup m k = None"
  shows "size_of (put k v m) = Suc (size_of m)"
  using assms finite_lookup [of m]
  by (simp add: size_lookup invar_put lookup_put domIff card_insert_if)

lemma size_put_present:
  assumes "invar m" "lookup m k = Some w"
  shows "size_of (put k v m) = size_of m"
proof -
  have "insert k (dom (lookup m)) = dom (lookup m)"
    using assms(2) by auto
  then show ?thesis
    using assms by (simp add: size_lookup invar_put lookup_put)
qed

lemma put_same:
  assumes "invar m" "lookup m k = Some v"
  shows "put k v m = m"
  using assms by (intro ext) (auto simp: invar_put lookup_put fun_upd_idem)

end

text \<open>
  A registry whose values are spent: an entry \<open>Some v\<close> is live, an entry \<open>None\<close> is
  spent, and \<open>spend k\<close> hands out the live value of \<open>k\<close> and marks it spent.
\<close>

locale one_use_registry = ordered_map empty lookup put size_of invar
  for empty :: 'm and lookup :: "'m \<Rightarrow> 'k \<Rightarrow> 'v option option"
    and put :: "'k \<Rightarrow> 'v option \<Rightarrow> 'm \<Rightarrow> 'm" and size_of :: "'m \<Rightarrow> nat"
    and invar :: "'m \<Rightarrow> bool" +
  fixes spend :: "'k \<Rightarrow> 'm \<Rightarrow> 'v option \<times> 'm"
  assumes spend_live: "lookup m k = Some (Some v) \<Longrightarrow> spend k m = (Some v, put k None m)"
    and spend_dead: "(\<And>v. lookup m k \<noteq> Some (Some v)) \<Longrightarrow> spend k m = (None, m)"
begin

lemma invar_spend: "invar m \<Longrightarrow> spend k m = (r, n) \<Longrightarrow> invar n"
  using spend_live [of m k] spend_dead [of m k] invar_put
  by (cases "\<exists>v. lookup m k = Some (Some v)") auto

lemma spend_value: "spend k m = (Some v, n) \<Longrightarrow> lookup m k = Some (Some v)"
  using spend_live [of m k] spend_dead [of m k]
  by (cases "\<exists>v. lookup m k = Some (Some v)") auto

lemma spend_other:
  "invar m \<Longrightarrow> spend k m = (r, n) \<Longrightarrow> j \<noteq> k \<Longrightarrow> lookup n j = lookup m j"
  using spend_live [of m k] spend_dead [of m k]
  by (cases "\<exists>v. lookup m k = Some (Some v)") (auto simp: lookup_put)

lemma size_spend: "invar m \<Longrightarrow> spend k m = (r, n) \<Longrightarrow> size_of n = size_of m"
  using spend_live [of m k] spend_dead [of m k]
  by (cases "\<exists>v. lookup m k = Some (Some v)") (auto simp: size_put_present)

lemma spend_not_live:
  assumes "invar m" "spend k m = (r, n)"
  shows "lookup n k \<noteq> Some (Some v)"
proof (cases "\<exists>v. lookup m k = Some (Some v)")
  case True
  then show ?thesis using assms spend_live by (auto simp: lookup_put)
next
  case False
  then have "n = m" using assms(2) spend_dead [of m k] by auto
  then show ?thesis using False by blast
qed

lemma spend_twice:
  assumes "invar m" "spend k m = (r, n)"
  shows "spend k n = (None, n)"
  using spend_not_live [OF assms] by (intro spend_dead)

end

section \<open>The sorted association list\<close>

type_synonym ('k, 'v) btree_map = "('k \<times> 'v) list"

fun bt_put :: "'k::linorder \<Rightarrow> 'v \<Rightarrow> ('k, 'v) btree_map \<Rightarrow> ('k, 'v) btree_map" where
  "bt_put k v [] = [(k, v)]"
| "bt_put k v ((j, w) # m) =
     (if k < j then (k, v) # (j, w) # m
      else if k = j then (k, v) # m
      else (j, w) # bt_put k v m)"

definition bt_lookup :: "('k, 'v) btree_map \<Rightarrow> 'k \<Rightarrow> 'v option" where
  "bt_lookup m = map_of m"

definition bt_contains :: "('k, 'v) btree_map \<Rightarrow> 'k \<Rightarrow> bool" where
  "bt_contains m k = (bt_lookup m k \<noteq> None)"

definition bt_spend :: "'k::linorder \<Rightarrow> ('k, 'v option) btree_map \<Rightarrow> 'v option \<times> ('k, 'v option) btree_map" where
  "bt_spend k m = (case bt_lookup m k of
     Some (Some v) \<Rightarrow> (Some v, bt_put k None m)
   | _ \<Rightarrow> (None, m))"

definition bt_sorted :: "('k::linorder, 'v) btree_map \<Rightarrow> bool" where
  "bt_sorted m = sorted_wrt (<) (map fst m)"

lemma bt_sorted_Cons:
  "bt_sorted ((j, w) # m) \<longleftrightarrow> (\<forall>k \<in> fst ` set m. j < k) \<and> bt_sorted m"
  by (auto simp: bt_sorted_def)

lemma bt_sorted_Nil [simp]: "bt_sorted []"
  by (simp add: bt_sorted_def)

lemma bt_sorted_distinct: "bt_sorted m \<Longrightarrow> distinct (map fst m)"
  by (simp add: bt_sorted_def strict_sorted_iff)

lemma keys_bt_put: "fst ` set (bt_put k v m) = insert k (fst ` set m)"
  by (induction k v m rule: bt_put.induct) auto

lemma bt_sorted_put: "bt_sorted m \<Longrightarrow> bt_sorted (bt_put k v m)"
  by (induction k v m rule: bt_put.induct) (auto simp: bt_sorted_Cons keys_bt_put)

lemma map_of_bt_put:
  "bt_sorted m \<Longrightarrow> map_of (bt_put k v m) = (map_of m)(k \<mapsto> v)"
proof (induction k v m rule: bt_put.induct)
  case (2 k v j w m)
  then show ?case by (auto simp: bt_sorted_Cons fun_upd_twist)
qed simp

lemma bt_sorted_ext:
  assumes "bt_sorted m" "bt_sorted n" "map_of m = map_of n"
  shows "m = n"
proof -
  have d: "distinct (map fst m)" "distinct (map fst n)"
    using assms(1,2) by (simp_all add: bt_sorted_distinct)
  have eq: "set m = set n"
    using assms(3) map_of_inject_set [OF d] by simp
  have "inj_on fst (set m \<union> set n)"
    using d(1) eq by (simp add: distinct_map)
  moreover have "sorted (map fst m)" "sorted (map fst n)"
    using assms(1,2) by (simp_all add: bt_sorted_def strict_sorted_iff)
  ultimately show ?thesis
    using d eq by (intro map_sorted_distinct_set_unique)
qed

lemma length_bt_sorted: "bt_sorted m \<Longrightarrow> length m = card (dom (bt_lookup m))"
  using distinct_card [OF bt_sorted_distinct, of m]
  by (simp add: bt_lookup_def dom_map_of_conv_image_fst)

interpretation bt: one_use_registry "[]" bt_lookup bt_put length bt_sorted bt_spend
  apply unfold_locales
  subgoal by (simp add: bt_lookup_def)
  subgoal by (simp add: bt_lookup_def map_of_bt_put)
  subgoal by (rule length_bt_sorted)
  subgoal by (simp add: bt_lookup_def finite_dom_map_of)
  subgoal by (simp add: bt_lookup_def bt_sorted_ext)
  subgoal by simp
  subgoal by (rule bt_sorted_put)
  subgoal by (simp add: bt_spend_def)
  subgoal by (auto simp: bt_spend_def split: option.splits)
  done

end
