(* ===== verification/Identity.thy ===== *)
theory Identity
  imports Ordered_Map
begin

text \<open>
  Identities shared by the protocol, the sandbox contracts and the session reducer
  (\<open>resymbol-debugger/src/identity.rs\<close>, \<open>BinaryId\<close> of
  \<open>resymbol-core/src/symbols.rs\<close>, and the two value types of \<open>protocol.rs\<close> that the
  sandbox contracts also use).  A newtype over an integer or a string is its carrier; its
  \<open>new\<close> is the only way the code builds a value and returns the carrier unchanged or an
  error.
\<close>

section \<open>Session identifiers and security nonces\<close>

type_synonym session_id = u64
type_synonym host_risk_lease_id = string
type_synonym sandbox_ownership_lease_id = string
type_synonym provisioning_epoch = string

datatype session_id_error = SessionIdError

definition session_id_new :: "u64 \<Rightarrow> session_id_error + session_id" where
  "session_id_new value = (if value = 0 then Inl SessionIdError else Inr value)"

definition SECURITY_NONCE_HEX_BYTES :: nat where
  "SECURITY_NONCE_HEX_BYTES = 64"

text \<open>One constructor per expansion of the \<open>security_nonce!\<close> macro.\<close>

datatype nonce_error = HostRiskLeaseIdError | SandboxOwnershipLeaseIdError | ProvisioningEpochError

definition security_nonce_new :: "nonce_error \<Rightarrow> string \<Rightarrow> nonce_error + string" where
  "security_nonce_new err value =
     (if length value \<noteq> SECURITY_NONCE_HEX_BYTES \<or> \<not> list_all is_lower_hex value
      then Inl err else Inr value)"

lemma security_nonce_new_Inr:
  "security_nonce_new err v = Inr w \<longleftrightarrow> w = v \<and> length v = 64 \<and> list_all is_lower_hex v"
  by (auto simp: security_nonce_new_def SECURITY_NONCE_HEX_BYTES_def)

lemma security_nonce_of_digest:
  "length d = 32 \<Longrightarrow> security_nonce_new err (hex_encode d) = Inr (hex_encode d)"
  by (simp add: security_nonce_new_Inr hex_encode_lower)

section \<open>Binary and process identities\<close>

type_synonym binary_id = string

definition is_ascii_hexdigit :: "char \<Rightarrow> bool" where
  "is_ascii_hexdigit c = (let n = (of_char c :: nat) in
     48 \<le> n \<and> n \<le> 57 \<or> 65 \<le> n \<and> n \<le> 70 \<or> 97 \<le> n \<and> n \<le> 102)"

datatype binary_id_error = InvalidBinaryId string

definition binary_id_from_sha256 :: "string \<Rightarrow> binary_id_error + binary_id" where
  "binary_id_from_sha256 value =
     (if length value \<noteq> 64 \<or> \<not> list_all is_ascii_hexdigit value
      then Inl (InvalidBinaryId value)
      else Inr (map to_ascii_lower value))"

definition binary_id_from_digest_bytes :: "string \<Rightarrow> binary_id" where
  "binary_id_from_digest_bytes digest = hex_encode digest"

lemma to_ascii_lower_hexdigit:
  assumes "is_ascii_hexdigit c"
  shows "is_lower_hex (to_ascii_lower c)"
proof (cases "65 \<le> (of_char c :: nat) \<and> (of_char c :: nat) \<le> 90")
  case True
  then show ?thesis
    using assms by (auto simp: is_ascii_hexdigit_def is_lower_hex_def to_ascii_lower_def Let_def)
next
  case False
  then show ?thesis
    using assms by (auto simp: is_ascii_hexdigit_def is_lower_hex_def to_ascii_lower_def Let_def)
qed

lemma lower_hex_fixed:
  assumes "is_lower_hex c"
  shows "is_ascii_hexdigit c" "to_ascii_lower c = c"
  using assms by (auto simp: is_ascii_hexdigit_def is_lower_hex_def to_ascii_lower_def Let_def)

record process_identity =
  pi_process_id :: u32
  pi_start_key :: u64
  pi_binary_id :: binary_id

datatype attach_mode = AmDebug | AmObserveReadOnly | AmSnapshot

text \<open>
  A binary identity in normal form is 64 lowercase hexadecimal characters; the constructor
  yields only those and leaves them unchanged.
\<close>

lemma binary_id_normal_form:
  "binary_id_from_sha256 v = Inr b \<Longrightarrow> length b = 64 \<and> list_all is_lower_hex b"
  by (auto simp: binary_id_from_sha256_def list_all_iff to_ascii_lower_hexdigit split: if_splits)

lemma binary_id_fixed:
  "length b = 64 \<Longrightarrow> list_all is_lower_hex b \<Longrightarrow> binary_id_from_sha256 b = Inr b"
  by (auto simp: binary_id_from_sha256_def list_all_iff lower_hex_fixed intro: map_idI)

end
