(* ===== verification/Sandbox_Policy.thy ===== *)
theory Sandbox_Policy
  imports Identity
begin

text \<open>
  The sandbox policy half of \<open>resymbol-debugger/src/sandbox.rs\<close>: bounded values, provider
  descriptors, resource limits, the fail-closed policy validation, the canonical v1 byte
  encoding whose SHA-256 binds a policy to a binary, and the expected attestation derived from
  it with its exact comparison.  SHA-256 is not part of the repository: the definitions that
  hash take the hash function as their first argument \<open>sha\<close>.
\<close>

section \<open>Bounded values\<close>

definition MAX_PROVIDER_ID_BYTES :: nat where "MAX_PROVIDER_ID_BYTES = 96"

definition MAX_ACK_ID_BYTES :: nat where "MAX_ACK_ID_BYTES = 128"

definition MAX_BUILD_ID_BYTES :: nat where "MAX_BUILD_ID_BYTES = 128"

definition MAX_RECEIPT_ID_BYTES :: nat where "MAX_RECEIPT_ID_BYTES = 128"

definition MAX_VM_ID_BYTES :: nat where "MAX_VM_ID_BYTES = 128"

definition MAX_DIAGNOSTIC_BYTES :: nat where "MAX_DIAGNOSTIC_BYTES = 512"

lemmas bound_defs = MAX_PROVIDER_ID_BYTES_def MAX_ACK_ID_BYTES_def MAX_BUILD_ID_BYTES_def
  MAX_RECEIPT_ID_BYTES_def MAX_VM_ID_BYTES_def MAX_DIAGNOSTIC_BYTES_def

datatype bounded_value_error =
    BvEmpty string
  | BvTooLong string nat
  | BvInvalidCharacter string

definition validate_identifier :: "string \<Rightarrow> string \<Rightarrow> nat \<Rightarrow> bounded_value_error + unit" where
  "validate_identifier value field maximum =
     rbind (guard (value \<noteq> []) (BvEmpty field)) (\<lambda>_.
     rbind (guard (length value \<le> maximum) (BvTooLong field maximum)) (\<lambda>_.
     guard (list_all (\<lambda>b. is_ascii_alnum b \<or> b \<in> set ''-_.:+'') value)
       (BvInvalidCharacter field)))"

text \<open>The \<open>bounded_identifier!\<close> macro, and its six expansions.\<close>

definition bounded_identifier_new :: "string \<Rightarrow> nat \<Rightarrow> string \<Rightarrow> bounded_value_error + string" where
  "bounded_identifier_new field maximum value =
     rbind (validate_identifier value field maximum) (\<lambda>_. Inr value)"

definition provider_id_new :: "string \<Rightarrow> bounded_value_error + string" where
  "provider_id_new = bounded_identifier_new ''provider id'' MAX_PROVIDER_ID_BYTES"

definition approval_nonce_new :: "string \<Rightarrow> bounded_value_error + string" where
  "approval_nonce_new = bounded_identifier_new ''sandbox policy approval id'' MAX_ACK_ID_BYTES"

definition helper_build_id_new :: "string \<Rightarrow> bounded_value_error + string" where
  "helper_build_id_new = bounded_identifier_new ''helper build id'' MAX_BUILD_ID_BYTES"

definition cleanup_receipt_id_new :: "string \<Rightarrow> bounded_value_error + string" where
  "cleanup_receipt_id_new = bounded_identifier_new ''cleanup receipt id'' MAX_RECEIPT_ID_BYTES"

definition sealed_image_id_new :: "string \<Rightarrow> bounded_value_error + string" where
  "sealed_image_id_new = bounded_identifier_new ''sealed image id'' MAX_VM_ID_BYTES"

definition differencing_disk_id_new :: "string \<Rightarrow> bounded_value_error + string" where
  "differencing_disk_id_new = bounded_identifier_new ''differencing disk id'' MAX_VM_ID_BYTES"

lemmas identifier_new_defs = provider_id_new_def approval_nonce_new_def helper_build_id_new_def
  cleanup_receipt_id_new_def sealed_image_id_new_def differencing_disk_id_new_def

lemma bounded_identifier_length:
  "bounded_identifier_new field maximum v = Inr w \<Longrightarrow> w = v \<and> v \<noteq> [] \<and> length v \<le> maximum"
  by (auto simp: bounded_identifier_new_def validate_identifier_def)

record policy_approval =
  ap_session_id :: session_id
  ap_nonce :: string

definition sandbox_policy_approval_id_new ::
    "session_id \<Rightarrow> string \<Rightarrow> bounded_value_error + policy_approval" where
  "sandbox_policy_approval_id_new session_id nonce =
     rbind (approval_nonce_new nonce) (\<lambda>n. Inr \<lparr>ap_session_id = session_id, ap_nonce = n\<rparr>)"

type_synonym policy_digest = string

datatype hex_value_error =
  PolicyDigestError | SealedImageDigestError | AuthenticatedChannelNonceError

definition policy_digest_new :: "string \<Rightarrow> hex_value_error + policy_digest" where
  "policy_digest_new value =
     (if length value \<noteq> 64 \<or> \<not> list_all is_lower_hex value
      then Inl PolicyDigestError else Inr value)"

text \<open>The \<open>lowercase_hex_value!\<close> macro: the sealed image digest and the channel nonce.\<close>

definition lowercase_hex_value_new :: "hex_value_error \<Rightarrow> string \<Rightarrow> hex_value_error + string" where
  "lowercase_hex_value_new err value =
     (if length value \<noteq> 64 \<or> \<not> list_all is_lower_hex value then Inl err else Inr value)"

definition diagnostic_text_new :: "string \<Rightarrow> bounded_value_error + string" where
  "diagnostic_text_new value =
     rbind (guard (value \<noteq> []) (BvEmpty ''diagnostic'')) (\<lambda>_.
     rbind (guard (length value \<le> MAX_DIAGNOSTIC_BYTES)
        (BvTooLong ''diagnostic'' MAX_DIAGNOSTIC_BYTES)) (\<lambda>_.
     rbind (guard (\<not> has_control value) (BvInvalidCharacter ''diagnostic'')) (\<lambda>_.
     Inr value)))"

section \<open>Policy data\<close>

datatype isolation_boundary = UserMode | Hypervisor

datatype sandbox_guarantee =
    FileSystemRedirection
  | RegistryRedirection
  | DisposableFileSystem
  | DisposableRegistry
  | RollbackOnClose
  | NetworkDisabled
  | IsolatedNetworkSimulation
  | ResourceLimits
  | ChildProcessControl
  | ProcessMitigations
  | JobAssignmentAtCreation
  | HypervisorBoundary

text \<open>
  The one-byte tag of a guarantee in the canonical encoding.  It increases in the order of the
  declaration, which is also the derived \<open>Ord\<close> of the enum, so it defines that order.
\<close>

primrec guarantee_tag :: "sandbox_guarantee \<Rightarrow> nat" where
  "guarantee_tag FileSystemRedirection = 1"
| "guarantee_tag RegistryRedirection = 2"
| "guarantee_tag DisposableFileSystem = 3"
| "guarantee_tag DisposableRegistry = 4"
| "guarantee_tag RollbackOnClose = 5"
| "guarantee_tag NetworkDisabled = 6"
| "guarantee_tag IsolatedNetworkSimulation = 7"
| "guarantee_tag ResourceLimits = 8"
| "guarantee_tag ChildProcessControl = 9"
| "guarantee_tag ProcessMitigations = 10"
| "guarantee_tag JobAssignmentAtCreation = 11"
| "guarantee_tag HypervisorBoundary = 12"

lemma guarantee_tag_inj: "guarantee_tag g = guarantee_tag h \<longleftrightarrow> g = h"
  by (cases g; cases h) auto

lemma guarantee_tag_bounds: "0 < guarantee_tag g \<and> guarantee_tag g \<le> 12"
  by (cases g) auto

instantiation sandbox_guarantee :: linorder
begin

definition less_eq_sandbox_guarantee :: "sandbox_guarantee \<Rightarrow> sandbox_guarantee \<Rightarrow> bool" where
  "less_eq_sandbox_guarantee g h = (guarantee_tag g \<le> guarantee_tag h)"

definition less_sandbox_guarantee :: "sandbox_guarantee \<Rightarrow> sandbox_guarantee \<Rightarrow> bool" where
  "less_sandbox_guarantee g h = (guarantee_tag g < guarantee_tag h)"

instance
  by standard
    (auto simp: less_eq_sandbox_guarantee_def less_sandbox_guarantee_def guarantee_tag_inj)

end

instantiation sandbox_guarantee :: finite
begin

instance
proof
  have "inj guarantee_tag" by (simp add: inj_def guarantee_tag_inj)
  moreover have "range guarantee_tag \<subseteq> {0..12}" using guarantee_tag_bounds by fastforce
  then have "finite (range guarantee_tag)" by (rule finite_subset) simp
  ultimately show "finite (UNIV :: sandbox_guarantee set)" by (rule finite_imageD [rotated])
qed

end

record provider_descriptor =
  pd_id :: string
  pd_boundary :: isolation_boundary
  pd_guarantees :: "sandbox_guarantee set"
  pd_build_identity :: string

datatype sandbox_provider =
    LocalAppContainer
  | WindowsSandbox
  | HyperV
  | Registered provider_descriptor

datatype network_mode = NmDisabled | NmIsolatedSimulation

datatype mitigation_profile = StrictV1 | CompatibilityV1

datatype child_process_profile = CpDeny | CpSameSandboxOnly

datatype dynamic_code_profile = DcProhibit | DcMicrosoftSignedOnly | DcAllow

datatype win32k_profile = WkDisable | WkAllow

record vm_isolation_identity =
  vm_sealed_image_id :: string
  vm_sealed_image_digest :: string
  vm_differencing_disk_id :: string
  vm_channel_nonce :: string
  vm_channel_protocol_version :: u16
  vm_guest_agent_build :: string

record resource_limits =
  rl_memory_bytes :: u64
  rl_disk_bytes :: u64
  rl_active_process_limit :: u32
  rl_cpu_rate_basis_points :: u16
  rl_wall_clock_millis :: u64

record sandbox_policy =
  sp_session_id :: session_id
  sp_policy_approval :: policy_approval
  sp_provider :: sandbox_provider
  sp_required_boundary :: isolation_boundary
  sp_required_guarantees :: "sandbox_guarantee set"
  sp_network :: network_mode
  sp_resources :: resource_limits
  sp_process_mitigations :: mitigation_profile
  sp_child_processes :: child_process_profile
  sp_dynamic_code :: dynamic_code_profile
  sp_win32k :: win32k_profile
  sp_rollback_on_close :: bool
  sp_vm_identity :: "vm_isolation_identity option"

section \<open>Policy validation\<close>

datatype resource_limit_error = RleMemory | RleDisk | RleProcessCount | RleCpuRate | RleWallClock

text \<open>
  \<open>PvePanic\<close> is the panic of the \<open>expect\<close> calls of the canonical digest; every other
  constructor is a variant of the source.
\<close>

datatype policy_validation_error =
    PveResource resource_limit_error
  | PveRollbackRequired
  | PveApprovalSessionMismatch
  | PveProviderBoundaryMismatch
  | PveLocalSimulationUnsupported
  | PveStrictProfileConflict
  | PveMissingGuarantee sandbox_guarantee
  | PveConflictingNetworkGuarantees
  | PveImpossibleBoundaryGuarantee
  | PveReservedProviderId
  | PveEmptyProviderGuarantees
  | PveMissingVmIdentity
  | PveUnexpectedVmIdentity
  | PveInvalidVmChannelVersion
  | PveUnsupportedGuarantee sandbox_guarantee
  | PvePanic

definition resource_limits_validate :: "resource_limits \<Rightarrow> resource_limit_error + unit" where
  "resource_limits_validate r =
     (let mib = 1024 * 1024; gib = 1024 * mib in
     rbind (guard (32 * mib \<le> rl_memory_bytes r \<and> rl_memory_bytes r \<le> 128 * gib) RleMemory) (\<lambda>_.
     rbind (guard (16 * mib \<le> rl_disk_bytes r \<and> rl_disk_bytes r \<le> 512 * gib) RleDisk) (\<lambda>_.
     rbind (guard (1 \<le> rl_active_process_limit r \<and> rl_active_process_limit r \<le> 128)
        RleProcessCount) (\<lambda>_.
     rbind (guard (1 \<le> rl_cpu_rate_basis_points r \<and> rl_cpu_rate_basis_points r \<le> 10000)
        RleCpuRate) (\<lambda>_.
     guard (1000 \<le> rl_wall_clock_millis r \<and> rl_wall_clock_millis r \<le> 86400000) RleWallClock)))))"

definition is_reserved_provider_id :: "string \<Rightarrow> bool" where
  "is_reserved_provider_id i =
     (map to_ascii_lower i \<in> {''local-appcontainer'', ''windows-sandbox'', ''hyper-v''})"

definition descriptor_validate :: "provider_descriptor \<Rightarrow> policy_validation_error + unit" where
  "descriptor_validate d =
     rbind (guard (pd_guarantees d \<noteq> {}) PveEmptyProviderGuarantees) (\<lambda>_.
     guard (\<not> is_reserved_provider_id (pd_id d)) PveReservedProviderId)"

definition vm_identity_validate :: "vm_isolation_identity \<Rightarrow> policy_validation_error + unit" where
  "vm_identity_validate v = guard (vm_channel_protocol_version v \<noteq> 0) PveInvalidVmChannelVersion"

definition require_guarantee ::
    "sandbox_guarantee set \<Rightarrow> sandbox_guarantee \<Rightarrow> policy_validation_error + unit" where
  "require_guarantee guarantees required = guard (required \<in> guarantees) (PveMissingGuarantee required)"

primrec provider_boundary :: "sandbox_provider \<Rightarrow> isolation_boundary" where
  "provider_boundary LocalAppContainer = UserMode"
| "provider_boundary WindowsSandbox = Hypervisor"
| "provider_boundary HyperV = Hypervisor"
| "provider_boundary (Registered d) = pd_boundary d"

definition provider_supports :: "sandbox_provider \<Rightarrow> sandbox_guarantee \<Rightarrow> bool" where
  "provider_supports p g = (case p of
     LocalAppContainer \<Rightarrow> g \<in> {FileSystemRedirection, RegistryRedirection, RollbackOnClose,
       NetworkDisabled, ResourceLimits, ChildProcessControl, ProcessMitigations,
       JobAssignmentAtCreation}
   | WindowsSandbox \<Rightarrow> g \<notin> {FileSystemRedirection, RegistryRedirection}
   | HyperV \<Rightarrow> g \<notin> {FileSystemRedirection, RegistryRedirection}
   | Registered d \<Rightarrow> g \<in> pd_guarantees d)"

definition sandbox_policy_validate :: "sandbox_policy \<Rightarrow> policy_validation_error + unit" where
  "sandbox_policy_validate p =
     rbind (map_err PveResource (resource_limits_validate (sp_resources p))) (\<lambda>_.
     rbind (guard (sp_rollback_on_close p) PveRollbackRequired) (\<lambda>_.
     rbind (guard (ap_session_id (sp_policy_approval p) = sp_session_id p)
        PveApprovalSessionMismatch) (\<lambda>_.
     rbind (case sp_provider p of Registered d \<Rightarrow> descriptor_validate d | _ \<Rightarrow> Inr ()) (\<lambda>_.
     rbind (guard (provider_boundary (sp_provider p) = sp_required_boundary p)
        PveProviderBoundaryMismatch) (\<lambda>_.
     rbind (guard (\<not> (sp_provider p = LocalAppContainer \<and> sp_network p = NmIsolatedSimulation))
        PveLocalSimulationUnsupported) (\<lambda>_.
     rbind (guard (\<not> (sp_process_mitigations p = StrictV1
           \<and> (sp_dynamic_code p \<noteq> DcProhibit \<or> sp_win32k p \<noteq> WkDisable)))
        PveStrictProfileConflict) (\<lambda>_.
     rbind (try_each (require_guarantee (sp_required_guarantees p))
        [RollbackOnClose, ResourceLimits, ChildProcessControl, ProcessMitigations,
         JobAssignmentAtCreation]) (\<lambda>_.
     rbind (require_guarantee (sp_required_guarantees p)
        (case sp_network p of NmDisabled \<Rightarrow> NetworkDisabled
         | NmIsolatedSimulation \<Rightarrow> IsolatedNetworkSimulation)) (\<lambda>_.
     rbind (guard ((case sp_network p of NmDisabled \<Rightarrow> IsolatedNetworkSimulation
           | NmIsolatedSimulation \<Rightarrow> NetworkDisabled) \<notin> sp_required_guarantees p)
        PveConflictingNetworkGuarantees) (\<lambda>_.
     rbind (case sp_required_boundary p of
          UserMode \<Rightarrow>
            rbind (require_guarantee (sp_required_guarantees p) FileSystemRedirection) (\<lambda>_.
            rbind (require_guarantee (sp_required_guarantees p) RegistryRedirection) (\<lambda>_.
            guard (HypervisorBoundary \<notin> sp_required_guarantees p) PveImpossibleBoundaryGuarantee))
        | Hypervisor \<Rightarrow> try_each (require_guarantee (sp_required_guarantees p))
            [DisposableFileSystem, DisposableRegistry, HypervisorBoundary]) (\<lambda>_.
     rbind (case (sp_required_boundary p, sp_vm_identity p) of
          (UserMode, None) \<Rightarrow> Inr ()
        | (UserMode, Some _) \<Rightarrow> Inl PveUnexpectedVmIdentity
        | (Hypervisor, Some identity) \<Rightarrow> vm_identity_validate identity
        | (Hypervisor, None) \<Rightarrow> Inl PveMissingVmIdentity) (\<lambda>_.
     try_each (\<lambda>g. guard (provider_supports (sp_provider p) g) (PveUnsupportedGuarantee g))
       (sorted_list_of_set (sp_required_guarantees p))))))))))))))"

section \<open>The canonical encoding\<close>

definition SANDBOX_POLICY_DIGEST_VERSION :: u16 where "SANDBOX_POLICY_DIGEST_VERSION = 1"

text \<open>
  The hasher only ever appends, so its input is the concatenation of the fields.  A field whose
  length does not fit \<open>u32\<close> panics.
\<close>

definition canon_u8 :: "nat \<Rightarrow> string" where "canon_u8 n = le_bytes 1 n"

definition canon_u16 :: "u16 \<Rightarrow> string" where "canon_u16 v = le_bytes 2 (unat v)"

definition canon_u32 :: "u32 \<Rightarrow> string" where "canon_u32 v = le_bytes 4 (unat v)"

definition canon_u64 :: "u64 \<Rightarrow> string" where "canon_u64 v = le_bytes 8 (unat v)"

definition canon_bool :: "bool \<Rightarrow> string" where "canon_bool b = canon_u8 (if b then 1 else 0)"

definition canon_text :: "string \<Rightarrow> policy_validation_error + string" where
  "canon_text value =
     (if length value < 2 ^ 32 then Inr (le_bytes 4 (length value) @ value) else Inl PvePanic)"

definition canon_boundary :: "isolation_boundary \<Rightarrow> string" where
  "canon_boundary b = canon_u8 (case b of UserMode \<Rightarrow> 1 | Hypervisor \<Rightarrow> 2)"

definition canon_network :: "network_mode \<Rightarrow> string" where
  "canon_network n = canon_u8 (case n of NmDisabled \<Rightarrow> 1 | NmIsolatedSimulation \<Rightarrow> 2)"

definition canon_mitigations :: "mitigation_profile \<Rightarrow> string" where
  "canon_mitigations m = canon_u8 (case m of StrictV1 \<Rightarrow> 1 | CompatibilityV1 \<Rightarrow> 2)"

definition canon_children :: "child_process_profile \<Rightarrow> string" where
  "canon_children c = canon_u8 (case c of CpDeny \<Rightarrow> 1 | CpSameSandboxOnly \<Rightarrow> 2)"

definition canon_dynamic_code :: "dynamic_code_profile \<Rightarrow> string" where
  "canon_dynamic_code d =
     canon_u8 (case d of DcProhibit \<Rightarrow> 1 | DcMicrosoftSignedOnly \<Rightarrow> 2 | DcAllow \<Rightarrow> 3)"

definition canon_win32k :: "win32k_profile \<Rightarrow> string" where
  "canon_win32k w = canon_u8 (case w of WkDisable \<Rightarrow> 1 | WkAllow \<Rightarrow> 2)"

definition canon_guarantees :: "sandbox_guarantee set \<Rightarrow> string" where
  "canon_guarantees gs = (let xs = sorted_list_of_set gs in
     le_bytes 4 (length xs) @ concat (map (\<lambda>g. canon_u8 (guarantee_tag g)) xs))"

text \<open>The fields one after another; the first panic wins.\<close>

fun canon_seq :: "(policy_validation_error + string) list \<Rightarrow> policy_validation_error + string" where
  "canon_seq [] = Inr []"
| "canon_seq (f # fs) = rbind f (\<lambda>b. rbind (canon_seq fs) (\<lambda>bs. Inr (b @ bs)))"

definition canon_provider :: "sandbox_provider \<Rightarrow> policy_validation_error + string" where
  "canon_provider p = (case p of
     LocalAppContainer \<Rightarrow> Inr (canon_u8 1)
   | WindowsSandbox \<Rightarrow> Inr (canon_u8 2)
   | HyperV \<Rightarrow> Inr (canon_u8 3)
   | Registered d \<Rightarrow> canon_seq [Inr (canon_u8 4), canon_text (pd_id d),
       Inr (canon_boundary (pd_boundary d)), Inr (canon_guarantees (pd_guarantees d)),
       canon_text (pd_build_identity d)])"

definition canon_vm :: "vm_isolation_identity option \<Rightarrow> policy_validation_error + string" where
  "canon_vm v = (case v of
     Some i \<Rightarrow> canon_seq [Inr (canon_bool True), canon_text (vm_sealed_image_id i),
       canon_text (vm_sealed_image_digest i), canon_text (vm_differencing_disk_id i),
       canon_text (vm_channel_nonce i), Inr (canon_u16 (vm_channel_protocol_version i)),
       canon_text (vm_guest_agent_build i)]
   | None \<Rightarrow> Inr (canon_bool False))"

definition canonical_policy :: "binary_id \<Rightarrow> sandbox_policy \<Rightarrow> policy_validation_error + string" where
  "canonical_policy bid p = canon_seq
     [canon_text ''resymbol-sandbox-policy'',
      Inr (canon_u16 SANDBOX_POLICY_DIGEST_VERSION),
      canon_text bid,
      Inr (canon_u64 (sp_session_id p)),
      canon_text (ap_nonce (sp_policy_approval p)),
      canon_provider (sp_provider p),
      Inr (canon_boundary (sp_required_boundary p)),
      Inr (canon_guarantees (sp_required_guarantees p)),
      Inr (canon_network (sp_network p)),
      Inr (canon_u64 (rl_memory_bytes (sp_resources p))),
      Inr (canon_u64 (rl_disk_bytes (sp_resources p))),
      Inr (canon_u32 (rl_active_process_limit (sp_resources p))),
      Inr (canon_u16 (rl_cpu_rate_basis_points (sp_resources p))),
      Inr (canon_u64 (rl_wall_clock_millis (sp_resources p))),
      Inr (canon_mitigations (sp_process_mitigations p)),
      Inr (canon_children (sp_child_processes p)),
      Inr (canon_dynamic_code (sp_dynamic_code p)),
      Inr (canon_win32k (sp_win32k p)),
      Inr (canon_bool (sp_rollback_on_close p)),
      canon_vm (sp_vm_identity p)]"

definition canon_finish :: "(string \<Rightarrow> string) \<Rightarrow> string \<Rightarrow> policy_validation_error + policy_digest" where
  "canon_finish sha bytes = map_err (\<lambda>_. PvePanic) (policy_digest_new (hex_encode (sha bytes)))"

definition policy_digest ::
    "(string \<Rightarrow> string) \<Rightarrow> sandbox_policy \<Rightarrow> binary_id \<Rightarrow> policy_validation_error + policy_digest" where
  "policy_digest sha p bid =
     rbind (sandbox_policy_validate p) (\<lambda>_.
     rbind (canonical_policy bid p) (canon_finish sha))"

section \<open>The expected attestation\<close>

record expected_attestation =
  ea_binary_id :: binary_id
  ea_session_id :: session_id
  ea_provisioning_epoch :: provisioning_epoch
  ea_policy_digest :: policy_digest
  ea_provider :: sandbox_provider
  ea_boundary :: isolation_boundary
  ea_guarantees :: "sandbox_guarantee set"
  ea_job_assigned_at_creation :: bool
  ea_helper_build :: string
  ea_vm_identity :: "vm_isolation_identity option"

record sandbox_attestation =
  sa_binary_id :: binary_id
  sa_process :: process_identity
  sa_session_id :: session_id
  sa_provisioning_epoch :: provisioning_epoch
  sa_policy_digest :: policy_digest
  sa_provider :: sandbox_provider
  sa_boundary :: isolation_boundary
  sa_guarantees :: "sandbox_guarantee set"
  sa_job_assigned_at_creation :: bool
  sa_helper_build :: string
  sa_vm_identity :: "vm_isolation_identity option"

datatype attestation_mismatch =
    AmBinaryIdentity
  | AmProcessIdentity
  | AmSession
  | AmProvisioningEpoch
  | AmPolicyDigest
  | AmProvider
  | AmBoundary
  | AmGuarantees
  | AmJobAssignment
  | AmHelperBuild
  | AmVmIdentity

definition expected_from_policy ::
    "(string \<Rightarrow> string) \<Rightarrow> binary_id \<Rightarrow> sandbox_policy \<Rightarrow> string \<Rightarrow> provisioning_epoch
     \<Rightarrow> policy_validation_error + expected_attestation" where
  "expected_from_policy sha bid p helper epoch =
     rbind (policy_digest sha p bid) (\<lambda>d. Inr
       \<lparr>ea_binary_id = bid, ea_session_id = sp_session_id p, ea_provisioning_epoch = epoch,
        ea_policy_digest = d, ea_provider = sp_provider p,
        ea_boundary = sp_required_boundary p, ea_guarantees = sp_required_guarantees p,
        ea_job_assigned_at_creation = True, ea_helper_build = helper,
        ea_vm_identity = sp_vm_identity p\<rparr>)"

definition validate_exact ::
    "expected_attestation \<Rightarrow> sandbox_attestation \<Rightarrow> process_identity \<Rightarrow> attestation_mismatch + unit" where
  "validate_exact e a created =
     rbind (guard (ea_binary_id e = sa_binary_id a) AmBinaryIdentity) (\<lambda>_.
     rbind (guard (sa_process a = created \<and> pi_binary_id (sa_process a) = sa_binary_id a)
        AmProcessIdentity) (\<lambda>_.
     rbind (guard (ea_session_id e = sa_session_id a) AmSession) (\<lambda>_.
     rbind (guard (ea_provisioning_epoch e = sa_provisioning_epoch a) AmProvisioningEpoch) (\<lambda>_.
     rbind (guard (ea_policy_digest e = sa_policy_digest a) AmPolicyDigest) (\<lambda>_.
     rbind (guard (ea_provider e = sa_provider a) AmProvider) (\<lambda>_.
     rbind (guard (ea_boundary e = sa_boundary a) AmBoundary) (\<lambda>_.
     rbind (guard (ea_guarantees e = sa_guarantees a) AmGuarantees) (\<lambda>_.
     rbind (guard (ea_job_assigned_at_creation e = sa_job_assigned_at_creation a)
        AmJobAssignment) (\<lambda>_.
     rbind (guard (ea_helper_build e = sa_helper_build a) AmHelperBuild) (\<lambda>_.
     guard (ea_vm_identity e = sa_vm_identity a) AmVmIdentity))))))))))"


section \<open>What validation establishes\<close>

text \<open>
  The policies the documentation describes, as one predicate: resources in range, rollback on
  close, an approval of the same session, a provider that has the required boundary, the
  mandatory guarantees, and no required guarantee the provider does not supply.
\<close>

definition mandatory_guarantees :: "sandbox_policy \<Rightarrow> sandbox_guarantee set" where
  "mandatory_guarantees p =
     {RollbackOnClose, ResourceLimits, ChildProcessControl, ProcessMitigations,
      JobAssignmentAtCreation}
     \<union> (if sp_network p = NmDisabled then {NetworkDisabled} else {IsolatedNetworkSimulation})
     \<union> (if sp_required_boundary p = UserMode then {FileSystemRedirection, RegistryRedirection}
        else {DisposableFileSystem, DisposableRegistry, HypervisorBoundary})"

definition forbidden_guarantees :: "sandbox_policy \<Rightarrow> sandbox_guarantee set" where
  "forbidden_guarantees p =
     (if sp_network p = NmDisabled then {IsolatedNetworkSimulation} else {NetworkDisabled})
     \<union> (if sp_required_boundary p = UserMode then {HypervisorBoundary} else {})"

definition provider_well_formed :: "sandbox_provider \<Rightarrow> bool" where
  "provider_well_formed p = (case p of
     Registered d \<Rightarrow> pd_guarantees d \<noteq> {} \<and> \<not> is_reserved_provider_id (pd_id d) | _ \<Rightarrow> True)"

definition vm_shape :: "isolation_boundary \<Rightarrow> vm_isolation_identity option \<Rightarrow> bool" where
  "vm_shape b v = (case v of
     None \<Rightarrow> b = UserMode | Some i \<Rightarrow> b = Hypervisor \<and> vm_channel_protocol_version i \<noteq> 0)"

definition policy_admissible :: "sandbox_policy \<Rightarrow> bool" where
  "policy_admissible p \<longleftrightarrow>
     is_ok (resource_limits_validate (sp_resources p))
     \<and> sp_rollback_on_close p
     \<and> ap_session_id (sp_policy_approval p) = sp_session_id p
     \<and> provider_well_formed (sp_provider p)
     \<and> provider_boundary (sp_provider p) = sp_required_boundary p
     \<and> \<not> (sp_provider p = LocalAppContainer \<and> sp_network p = NmIsolatedSimulation)
     \<and> (sp_process_mitigations p = StrictV1 \<longrightarrow>
          sp_dynamic_code p = DcProhibit \<and> sp_win32k p = WkDisable)
     \<and> mandatory_guarantees p \<subseteq> sp_required_guarantees p
     \<and> sp_required_guarantees p \<inter> forbidden_guarantees p = {}
     \<and> sp_required_guarantees p \<subseteq> Collect (provider_supports (sp_provider p))
     \<and> vm_shape (sp_required_boundary p) (sp_vm_identity p)"

lemma descriptor_validate_iff:
  "descriptor_validate d = Inr u \<longleftrightarrow> provider_well_formed (Registered d)"
  by (auto simp: descriptor_validate_def provider_well_formed_def)

lemma provider_case_iff:
  "(case q of Registered d \<Rightarrow> descriptor_validate d | _ \<Rightarrow> Inr ()) = Inr u
    \<longleftrightarrow> provider_well_formed q"
  by (cases q) (simp_all add: descriptor_validate_iff, simp_all add: provider_well_formed_def)

lemma vm_case_iff:
  "(case (b, v) of (UserMode, None) \<Rightarrow> Inr () | (UserMode, Some _) \<Rightarrow> Inl PveUnexpectedVmIdentity
    | (Hypervisor, Some i) \<Rightarrow> vm_identity_validate i
    | (Hypervisor, None) \<Rightarrow> Inl PveMissingVmIdentity) = Inr u \<longleftrightarrow> vm_shape b v"
  by (cases b; cases v) (simp_all add: vm_shape_def vm_identity_validate_def)

lemma require_guarantee_iff [simp]: "require_guarantee gs g = Inr u \<longleftrightarrow> g \<in> gs"
  by (simp add: require_guarantee_def)

lemma try_require_iff: "try_each (require_guarantee gs) xs = Inr u \<longleftrightarrow> set xs \<subseteq> gs"
  by (auto simp: try_each_Inr_iff)

lemma try_supports_iff:
  "try_each (\<lambda>g. guard (P g) (E g)) (sorted_list_of_set gs) = Inr u \<longleftrightarrow> gs \<subseteq> Collect P"
  for gs :: "sandbox_guarantee set"
  by (auto simp: try_each_Inr_iff)

lemma boundary_case_iff:
  "(case b of
      UserMode \<Rightarrow>
        rbind (require_guarantee gs FileSystemRedirection) (\<lambda>_.
        rbind (require_guarantee gs RegistryRedirection) (\<lambda>_.
        guard (HypervisorBoundary \<notin> gs) PveImpossibleBoundaryGuarantee))
    | Hypervisor \<Rightarrow> try_each (require_guarantee gs)
        [DisposableFileSystem, DisposableRegistry, HypervisorBoundary]) = Inr u
   \<longleftrightarrow> (if b = UserMode then {FileSystemRedirection, RegistryRedirection} \<subseteq> gs
            \<and> HypervisorBoundary \<notin> gs
        else {DisposableFileSystem, DisposableRegistry, HypervisorBoundary} \<subseteq> gs)"
  by (cases b) (simp_all add: try_require_iff)

lemma sandbox_policy_validate_iff: "sandbox_policy_validate p = Inr u \<longleftrightarrow> policy_admissible p"
proof -
  have "sandbox_policy_validate p = Inr u \<longleftrightarrow>
     is_ok (resource_limits_validate (sp_resources p))
     \<and> sp_rollback_on_close p
     \<and> ap_session_id (sp_policy_approval p) = sp_session_id p
     \<and> provider_well_formed (sp_provider p)
     \<and> provider_boundary (sp_provider p) = sp_required_boundary p
     \<and> \<not> (sp_provider p = LocalAppContainer \<and> sp_network p = NmIsolatedSimulation)
     \<and> \<not> (sp_process_mitigations p = StrictV1
           \<and> (sp_dynamic_code p \<noteq> DcProhibit \<or> sp_win32k p \<noteq> WkDisable))
     \<and> {RollbackOnClose, ResourceLimits, ChildProcessControl, ProcessMitigations,
         JobAssignmentAtCreation} \<subseteq> sp_required_guarantees p
     \<and> (case sp_network p of NmDisabled \<Rightarrow> NetworkDisabled
         | NmIsolatedSimulation \<Rightarrow> IsolatedNetworkSimulation) \<in> sp_required_guarantees p
     \<and> (case sp_network p of NmDisabled \<Rightarrow> IsolatedNetworkSimulation
           | NmIsolatedSimulation \<Rightarrow> NetworkDisabled) \<notin> sp_required_guarantees p
     \<and> (if sp_required_boundary p = UserMode
        then {FileSystemRedirection, RegistryRedirection} \<subseteq> sp_required_guarantees p
            \<and> HypervisorBoundary \<notin> sp_required_guarantees p
        else {DisposableFileSystem, DisposableRegistry, HypervisorBoundary}
            \<subseteq> sp_required_guarantees p)
     \<and> vm_shape (sp_required_boundary p) (sp_vm_identity p)
     \<and> sp_required_guarantees p \<subseteq> Collect (provider_supports (sp_provider p))"
    unfolding sandbox_policy_validate_def
    by (simp only: rbind_Inr_iff guard_Inr_iff map_err_Inr_iff provider_case_iff vm_case_iff
        boundary_case_iff try_require_iff try_supports_iff require_guarantee_iff is_ok_iff
        list.set simp_thms ex_simps)
  also have "\<dots> \<longleftrightarrow> policy_admissible p"
    unfolding policy_admissible_def mandatory_guarantees_def forbidden_guarantees_def
    by (cases "sp_network p"; cases "sp_required_boundary p") auto
  finally show ?thesis .
qed

text \<open>An accepted attestation is determined by the expectation and the created process.\<close>

definition attestation_of :: "expected_attestation \<Rightarrow> process_identity \<Rightarrow> sandbox_attestation" where
  "attestation_of e created =
     \<lparr>sa_binary_id = ea_binary_id e, sa_process = created, sa_session_id = ea_session_id e,
      sa_provisioning_epoch = ea_provisioning_epoch e, sa_policy_digest = ea_policy_digest e,
      sa_provider = ea_provider e, sa_boundary = ea_boundary e, sa_guarantees = ea_guarantees e,
      sa_job_assigned_at_creation = ea_job_assigned_at_creation e,
      sa_helper_build = ea_helper_build e, sa_vm_identity = ea_vm_identity e\<rparr>"

lemma validate_exact_iff:
  "validate_exact e a created = Inr u \<longleftrightarrow>
     a = attestation_of e created \<and> pi_binary_id created = ea_binary_id e"
  unfolding validate_exact_def attestation_of_def
  by (cases a) (auto simp: guard_Inr_iff)

end
