(* ===== verification/Policy_Digest.thy ===== *)
theory Policy_Digest
  imports Sandbox_Policy
begin

text \<open>
  The canonical encoding of a policy (\<open>CanonicalPolicyDigest\<close> of
  \<open>resymbol-debugger/src/sandbox.rs\<close>) is uniquely decodable: the bytes fed to the hash
  determine the binary identity and every field of the policy.  The digest computation itself
  never reaches one of its \<open>expect\<close> panics on values the Rust types can hold.
\<close>

named_theorems decode_rules \<open>unique decoding of one field of the canonical encoding\<close>

text \<open>
  \<open>decodes f g P\<close>: two field encodings followed by anything agree only if \<open>P\<close> holds, and
  then what follows agrees too.
\<close>

definition decodes :: "'e + string \<Rightarrow> 'e + string \<Rightarrow> bool \<Rightarrow> bool" where
  "decodes f g P \<longleftrightarrow>
     (\<forall>a b r r'. f = Inr a \<longrightarrow> g = Inr b \<longrightarrow> a @ r = b @ r' \<longrightarrow> P \<and> r = r')"

lemma decodesI:
  "(\<And>a b r r'. f = Inr a \<Longrightarrow> g = Inr b \<Longrightarrow> a @ r = b @ r' \<Longrightarrow> P \<and> r = r') \<Longrightarrow> decodes f g P"
  unfolding decodes_def by blast

lemma decodesD:
  "decodes f g P \<Longrightarrow> f = Inr a \<Longrightarrow> g = Inr b \<Longrightarrow> a @ r = b @ r' \<Longrightarrow> P \<and> r = r'"
  unfolding decodes_def by blast

lemma decodes_same: "decodes f g P \<Longrightarrow> f = Inr a \<Longrightarrow> g = Inr a \<Longrightarrow> P"
  using decodesD [of f g P a a "[]" "[]"] by simp

lemma decodes_weaken: "decodes f g P \<Longrightarrow> (P \<Longrightarrow> Q) \<Longrightarrow> decodes f g Q"
  unfolding decodes_def by blast

lemma decodes_Nil [decode_rules]: "decodes (canon_seq []) (canon_seq []) True"
  by (rule decodesI) auto

lemma decodes_Cons [decode_rules]:
  assumes "decodes f g P" "decodes (canon_seq fs) (canon_seq gs) Q"
  shows "decodes (canon_seq (f # fs)) (canon_seq (g # gs)) (P \<and> Q)"
proof (rule decodesI)
  fix a b r r'
  assume "canon_seq (f # fs) = Inr a" "canon_seq (g # gs) = Inr b" "a @ r = b @ r'"
  then obtain a1 a2 b1 b2 where
    f: "f = Inr a1" "canon_seq fs = Inr a2" and g: "g = Inr b1" "canon_seq gs = Inr b2"
    and eq: "a1 @ (a2 @ r) = b1 @ (b2 @ r')"
    by auto
  from decodesD [OF assms(1) f(1) g(1) eq] have P: P and "a2 @ r = b2 @ r'" by auto
  with decodesD [OF assms(2) f(2) g(2)] show "(P \<and> Q) \<and> r = r'" by blast
qed

lemma decodes_fixed:
  assumes "length a = length b" "a = b \<Longrightarrow> P"
  shows "decodes (Inr a :: 'e + string) (Inr b) P"
proof (rule decodesI)
  fix a' b' r r'
  assume "Inr a = (Inr a' :: 'e + string)" "Inr b = (Inr b' :: 'e + string)" "a' @ r = b' @ r'"
  then have "a = b \<and> r = r'" using assms(1) by simp
  then show "P \<and> r = r'" using assms(2) by blast
qed

lemma decodes_tag [decode_rules]: "decodes (Inr (canon_u8 n)) (Inr (canon_u8 n)) True"
  by (rule decodes_fixed) simp_all

lemma decodes_u8:
  "m < 256 \<Longrightarrow> n < 256 \<Longrightarrow> decodes (Inr (canon_u8 m)) (Inr (canon_u8 n)) (m = n)"
  by (rule decodes_fixed) (auto simp: canon_u8_def dest!: le_bytes_inj)

lemma decodes_u16 [decode_rules]: "decodes (Inr (canon_u16 v)) (Inr (canon_u16 w)) (v = w)"
proof (rule decodes_fixed)
  assume "canon_u16 v = canon_u16 w"
  then have "unat v = unat w"
    unfolding canon_u16_def using unat_bound [of v] unat_bound [of w] by (intro le_bytes_inj) auto
  then show "v = w" by (simp add: word_unat_eq_iff)
qed (simp add: canon_u16_def)

lemma decodes_u32 [decode_rules]: "decodes (Inr (canon_u32 v)) (Inr (canon_u32 w)) (v = w)"
proof (rule decodes_fixed)
  assume "canon_u32 v = canon_u32 w"
  then have "unat v = unat w"
    unfolding canon_u32_def using unat_bound [of v] unat_bound [of w] by (intro le_bytes_inj) auto
  then show "v = w" by (simp add: word_unat_eq_iff)
qed (simp add: canon_u32_def)

lemma decodes_u64 [decode_rules]: "decodes (Inr (canon_u64 v)) (Inr (canon_u64 w)) (v = w)"
proof (rule decodes_fixed)
  assume "canon_u64 v = canon_u64 w"
  then have "unat v = unat w"
    unfolding canon_u64_def using unat_bound [of v] unat_bound [of w] by (intro le_bytes_inj) auto
  then show "v = w" by (simp add: word_unat_eq_iff)
qed (simp add: canon_u64_def)

lemma decodes_text [decode_rules]: "decodes (canon_text s) (canon_text t) (s = t)"
proof (rule decodesI)
  fix a b r r'
  assume "canon_text s = Inr a" "canon_text t = Inr b" and eq: "a @ r = b @ r'"
  then have a: "a = le_bytes 4 (length s) @ s" "length s < 2 ^ 32"
    and b: "b = le_bytes 4 (length t) @ t" "length t < 2 ^ 32"
    by (auto simp: canon_text_def split: if_splits)
  have h: "le_bytes 4 (length s) = le_bytes 4 (length t)" "s @ r = t @ r'"
    using eq a b by auto
  have "length s = length t" using le_bytes_inj [OF h(1)] a b by auto
  then show "s = t \<and> r = r'" using h(2) by auto
qed

lemma decodes_bool [decode_rules]: "decodes (Inr (canon_bool x)) (Inr (canon_bool y)) (x = y)"
  unfolding canon_bool_def
  by (rule decodes_weaken [OF decodes_u8]) (auto split: if_splits)

lemma decodes_boundary [decode_rules]:
  "decodes (Inr (canon_boundary x)) (Inr (canon_boundary y)) (x = y)"
  unfolding canon_boundary_def
  by (rule decodes_weaken [OF decodes_u8]) (cases x; cases y; simp)+

lemma decodes_network [decode_rules]:
  "decodes (Inr (canon_network x)) (Inr (canon_network y)) (x = y)"
  unfolding canon_network_def
  by (rule decodes_weaken [OF decodes_u8]) (cases x; cases y; simp)+

lemma decodes_mitigations [decode_rules]:
  "decodes (Inr (canon_mitigations x)) (Inr (canon_mitigations y)) (x = y)"
  unfolding canon_mitigations_def
  by (rule decodes_weaken [OF decodes_u8]) (cases x; cases y; simp)+

lemma decodes_children [decode_rules]:
  "decodes (Inr (canon_children x)) (Inr (canon_children y)) (x = y)"
  unfolding canon_children_def
  by (rule decodes_weaken [OF decodes_u8]) (cases x; cases y; simp)+

lemma decodes_dynamic_code [decode_rules]:
  "decodes (Inr (canon_dynamic_code x)) (Inr (canon_dynamic_code y)) (x = y)"
  unfolding canon_dynamic_code_def
  by (rule decodes_weaken [OF decodes_u8]) (cases x; cases y; simp)+

lemma decodes_win32k [decode_rules]:
  "decodes (Inr (canon_win32k x)) (Inr (canon_win32k y)) (x = y)"
  unfolding canon_win32k_def
  by (rule decodes_weaken [OF decodes_u8]) (cases x; cases y; simp)+

text \<open>A guarantee set: a count, then one tag per element in increasing order.\<close>

definition tag_bytes :: "sandbox_guarantee list \<Rightarrow> string" where
  "tag_bytes xs = concat (map (\<lambda>g. canon_u8 (guarantee_tag g)) xs)"

lemma tag_bytes_inj:
  "length xs = length ys \<Longrightarrow> tag_bytes xs @ r = tag_bytes ys @ r' \<Longrightarrow> xs = ys \<and> r = r'"
proof (induction xs ys rule: list_induct2)
  case Nil
  then show ?case by (simp add: tag_bytes_def)
next
  case (Cons x xs y ys)
  have lt: "guarantee_tag g < 256" for g using guarantee_tag_bounds [of g] by simp
  have "canon_u8 (guarantee_tag x) @ (tag_bytes xs @ r) = canon_u8 (guarantee_tag y) @ (tag_bytes ys @ r')"
    using Cons.prems by (simp add: tag_bytes_def)
  from decodesD [OF decodes_u8 [OF lt lt] refl refl this]
  have "x = y" "tag_bytes xs @ r = tag_bytes ys @ r'" by (simp_all add: guarantee_tag_inj)
  with Cons.IH show ?case by simp
qed

lemma length_guarantees_bound:
  "length (sorted_list_of_set gs) \<le> 12" for gs :: "sandbox_guarantee set"
proof -
  have "card gs = card (guarantee_tag ` gs)"
    by (rule card_image [symmetric]) (simp add: inj_on_def guarantee_tag_inj)
  also have "guarantee_tag ` gs \<subseteq> {1..12}"
    using guarantee_tag_bounds by (auto simp: Suc_le_eq)
  then have "card (guarantee_tag ` gs) \<le> card {1..12::nat}" by (intro card_mono) simp_all
  finally show ?thesis by simp
qed

lemma decodes_guarantees [decode_rules]:
  "decodes (Inr (canon_guarantees gs)) (Inr (canon_guarantees hs)) (gs = hs)"
proof (rule decodesI)
  fix a b r r'
  let ?xs = "sorted_list_of_set gs" and ?ys = "sorted_list_of_set hs"
  assume "Inr (canon_guarantees gs) = Inr a" "Inr (canon_guarantees hs) = Inr b" and eq: "a @ r = b @ r'"
  then have ab: "a = canon_guarantees gs" "b = canon_guarantees hs" by simp_all
  from eq have "le_bytes 4 (length ?xs) @ tag_bytes ?xs @ r = le_bytes 4 (length ?ys) @ tag_bytes ?ys @ r'"
    unfolding ab canon_guarantees_def Let_def tag_bytes_def [symmetric] append_assoc .
  then have h: "le_bytes 4 (length ?xs) = le_bytes 4 (length ?ys)" "tag_bytes ?xs @ r = tag_bytes ?ys @ r'"
    by (simp_all add: append_eq_append_conv)
  have "length ?xs < 256 ^ 4" "length ?ys < 256 ^ 4"
    using length_guarantees_bound [of gs] length_guarantees_bound [of hs] by simp_all
  with le_bytes_inj [OF h(1)] have "length ?xs = length ?ys" by simp
  from tag_bytes_inj [OF this h(2)] have "set ?xs = set ?ys \<and> r = r'" by simp
  then show "gs = hs \<and> r = r'" by simp
qed

text \<open>Encodings that start with different tags never agree.\<close>

lemma decodes_tag_diff:
  assumes "m < 256" "n < 256" "m \<noteq> n"
  shows "decodes (canon_seq (Inr (canon_u8 m) # fs)) (canon_seq (Inr (canon_u8 n) # gs)) P"
proof -
  have "canon_u8 m @ r \<noteq> canon_u8 n @ r'" for r r'
    using assms(3) decodesD [OF decodes_u8 [OF assms(1,2)] refl refl, of r r'] by blast
  then show ?thesis by (auto intro!: decodesI)
qed

primrec provider_tag :: "sandbox_provider \<Rightarrow> nat" where
  "provider_tag LocalAppContainer = 1"
| "provider_tag WindowsSandbox = 2"
| "provider_tag HyperV = 3"
| "provider_tag (Registered d) = 4"

lemma canon_provider_tagged:
  "\<exists>fs. canon_provider p = canon_seq (Inr (canon_u8 (provider_tag p)) # fs)"
proof (cases p)
  case (Registered d)
  show ?thesis unfolding Registered canon_provider_def sandbox_provider.case provider_tag.simps
    by (rule exI, rule refl)
qed (auto simp: canon_provider_def intro: exI [of _ "[]"])

lemma decodes_registered:
  "decodes (canon_provider (Registered d)) (canon_provider (Registered e)) (d = e)"
  unfolding canon_provider_def sandbox_provider.case
  by (rule decodes_weaken, (rule decode_rules)+) simp_all

lemma decodes_provider [decode_rules]:
  "decodes (canon_provider p) (canon_provider q) (p = q)"
proof (cases "provider_tag p = provider_tag q")
  case True
  then consider (registered) d e where "p = Registered d" "q = Registered e"
    | (builtin) "p = q" "\<And>d. p \<noteq> Registered d"
    by (cases p; cases q) auto
  then show ?thesis
  proof cases
    case registered
    then show ?thesis by (auto intro: decodes_weaken [OF decodes_registered])
  next
    case builtin
    then show ?thesis by (cases p) (auto simp: canon_provider_def intro!: decodes_fixed)
  qed
next
  case False
  have "provider_tag x < 256" for x by (cases x) simp_all
  moreover obtain fs gs where
    "canon_provider p = canon_seq (Inr (canon_u8 (provider_tag p)) # fs)"
    "canon_provider q = canon_seq (Inr (canon_u8 (provider_tag q)) # gs)"
    using canon_provider_tagged by blast
  ultimately show ?thesis by (simp only: decodes_tag_diff [OF _ _ False])
qed

lemma canon_vm_tagged:
  "\<exists>fs. canon_vm v = canon_seq (Inr (canon_u8 (if v = None then 0 else 1)) # fs)"
proof (cases v)
  case None
  then show ?thesis by (auto simp: canon_vm_def canon_bool_def intro: exI [of _ "[]"])
next
  case (Some i)
  have one: "(if v = None then 0 else 1) = (1 :: nat)" using Some by simp
  show ?thesis unfolding one unfolding Some canon_vm_def option.case canon_bool_def if_True
    by (rule exI, rule refl)
qed

lemma decodes_vm [decode_rules]: "decodes (canon_vm v) (canon_vm w) (v = w)"
proof (cases "v = None \<longleftrightarrow> w = None")
  case True
  show ?thesis
  proof (cases v)
    case None
    with True show ?thesis by (auto simp: canon_vm_def intro!: decodes_fixed)
  next
    case (Some i)
    with True obtain j where w: "w = Some j" by auto
    show ?thesis
      unfolding Some w canon_vm_def option.case
      by (rule decodes_weaken, (rule decode_rules)+) simp_all
  qed
next
  case False
  then have ne: "(if v = None then 0 else 1 :: nat) \<noteq> (if w = None then 0 else 1)" by auto
  obtain fs gs where
    "canon_vm v = canon_seq (Inr (canon_u8 (if v = None then 0 else 1)) # fs)"
    "canon_vm w = canon_seq (Inr (canon_u8 (if w = None then 0 else 1)) # gs)"
    using canon_vm_tagged by blast
  then show ?thesis by (simp only:) (rule decodes_tag_diff [OF _ _ ne], simp_all)
qed

lemma decodes_policy:
  "decodes (canonical_policy b p) (canonical_policy c q)
     (b = c \<and> p = q\<lparr>sp_policy_approval := sp_policy_approval p\<rparr>
      \<and> ap_nonce (sp_policy_approval p) = ap_nonce (sp_policy_approval q))"
  unfolding canonical_policy_def
  by (rule decodes_weaken, (rule decode_rules)+)
    (auto intro!: sandbox_policy.equality resource_limits.equality)


section \<open>Properties of the digest\<close>

lemma canonical_policy_determines:
  assumes "sandbox_policy_validate p = Inr ()" "sandbox_policy_validate q = Inr ()"
    and "canonical_policy b p = Inr s" "canonical_policy c q = Inr s"
  shows "b = c \<and> p = q"
proof -
  have fields: "b = c" "p = q\<lparr>sp_policy_approval := sp_policy_approval p\<rparr>"
    "ap_nonce (sp_policy_approval p) = ap_nonce (sp_policy_approval q)"
    using decodes_same [OF decodes_policy assms(3,4)] by blast+
  have "sp_session_id p = sp_session_id q"
    using arg_cong [OF fields(2), of sp_session_id] by simp
  then have "ap_session_id (sp_policy_approval p) = ap_session_id (sp_policy_approval q)"
    using assms(1,2) by (simp add: sandbox_policy_validate_iff policy_admissible_def)
  then have "sp_policy_approval p = sp_policy_approval q"
    using fields(3) by (intro policy_approval.equality) simp_all
  then show ?thesis using fields(1,2) by simp
qed

text \<open>
  C35. The canonical encoding binds everything it digests: if two valid policies for two
  binaries have the same canonical bytes, the binaries and the policies are equal.
\<close>

theorem canonical_policy_injective:
  assumes "sandbox_policy_validate p = Inr ()" "sandbox_policy_validate q = Inr ()"
    and "canonical_policy b p = Inr s" "canonical_policy c q = Inr s"
  shows "b = c \<and> p = q"
  using assms by (rule canonical_policy_determines)

text \<open>The values the Rust types can hold: identifiers have passed their constructors.\<close>

definition vm_typed :: "vm_isolation_identity \<Rightarrow> bool" where
  "vm_typed v \<longleftrightarrow>
     sealed_image_id_new (vm_sealed_image_id v) = Inr (vm_sealed_image_id v)
     \<and> lowercase_hex_value_new SealedImageDigestError (vm_sealed_image_digest v)
         = Inr (vm_sealed_image_digest v)
     \<and> differencing_disk_id_new (vm_differencing_disk_id v) = Inr (vm_differencing_disk_id v)
     \<and> lowercase_hex_value_new AuthenticatedChannelNonceError (vm_channel_nonce v)
         = Inr (vm_channel_nonce v)
     \<and> helper_build_id_new (vm_guest_agent_build v) = Inr (vm_guest_agent_build v)"

definition provider_typed :: "sandbox_provider \<Rightarrow> bool" where
  "provider_typed p = (case p of
     Registered d \<Rightarrow> provider_id_new (pd_id d) = Inr (pd_id d)
       \<and> helper_build_id_new (pd_build_identity d) = Inr (pd_build_identity d)
   | _ \<Rightarrow> True)"

definition policy_typed :: "sandbox_policy \<Rightarrow> bool" where
  "policy_typed p \<longleftrightarrow>
     approval_nonce_new (ap_nonce (sp_policy_approval p)) = Inr (ap_nonce (sp_policy_approval p))
     \<and> provider_typed (sp_provider p)
     \<and> (\<forall>v. sp_vm_identity p = Some v \<longrightarrow> vm_typed v)"

lemma canon_text_ok: "length s \<le> 128 \<Longrightarrow> \<exists>b. canon_text s = Inr b"
  by (simp add: canon_text_def)

lemma identifier_canon_ok:
  assumes "bounded_identifier_new f n s = Inr s" "n \<le> 128"
  shows "\<exists>b. canon_text s = Inr b"
  using bounded_identifier_length [OF assms(1)] assms(2) by (intro canon_text_ok) simp

lemmas identifier_canon_oks =
  identifier_canon_ok [where n = 96, simplified] identifier_canon_ok [where n = 128, simplified]

lemma hex_value_canon_ok: "lowercase_hex_value_new e s = Inr s \<Longrightarrow> \<exists>b. canon_text s = Inr b"
  by (rule canon_text_ok) (auto simp: lowercase_hex_value_new_def split: if_splits)

lemma canon_seq_ok: "(\<forall>f \<in> set fs. \<exists>b. f = Inr b) \<Longrightarrow> \<exists>b. canon_seq fs = Inr b"
  by (induction fs) auto

lemma canon_vm_ok: "(\<And>v. vm = Some v \<Longrightarrow> vm_typed v) \<Longrightarrow> \<exists>b. canon_vm vm = Inr b"
  unfolding canon_vm_def
  by (cases vm)
    (auto simp: vm_typed_def identifier_new_defs bound_defs simp del: canon_seq.simps
      intro!: canon_seq_ok intro: identifier_canon_oks hex_value_canon_ok)

lemma canon_provider_ok: "provider_typed p \<Longrightarrow> \<exists>b. canon_provider p = Inr b"
  unfolding canon_provider_def
  by (cases p)
    (auto simp: provider_typed_def identifier_new_defs bound_defs simp del: canon_seq.simps
      intro!: canon_seq_ok intro: identifier_canon_oks)

lemma canonical_policy_ok:
  assumes "policy_typed p" "length b = 64"
  shows "\<exists>s. canonical_policy b p = Inr s"
proof -
  have "\<exists>s. canon_text b = Inr s" "\<exists>s. canon_text ''resymbol-sandbox-policy'' = Inr s"
    using assms(2) by (intro canon_text_ok; simp)+
  moreover have "\<exists>s. canon_text (ap_nonce (sp_policy_approval p)) = Inr s"
    using assms(1) unfolding policy_typed_def approval_nonce_new_def
    by (intro identifier_canon_ok) (auto simp: bound_defs)
  moreover have "\<exists>s. canon_provider (sp_provider p) = Inr s" "\<exists>s. canon_vm (sp_vm_identity p) = Inr s"
    using assms(1) by (auto simp: policy_typed_def intro: canon_provider_ok canon_vm_ok)
  ultimately show ?thesis
    unfolding canonical_policy_def by (intro canon_seq_ok) auto
qed

lemma validate_never_panics: "sandbox_policy_validate p \<noteq> Inl PvePanic"
  unfolding sandbox_policy_validate_def
  by (auto simp: rbind_Inl_iff map_err_Inl_iff require_guarantee_def descriptor_validate_def
      vm_identity_validate_def dest!: try_each_InlD
      split: sandbox_provider.splits isolation_boundary.splits option.splits network_mode.splits)

text \<open>
  With a 32-byte hash and a policy built through the checked constructors, the digest
  computation never panics, and for an admissible policy it returns the lowercase hexadecimal
  hash of the canonical bytes.
\<close>

theorem policy_digest_total:
  assumes sha: "\<And>x. length (sha x) = 32" and typed: "policy_typed p" "length b = 64"
  shows "policy_digest sha p b \<noteq> Inl PvePanic
    \<and> (policy_admissible p \<longrightarrow>
        (\<exists>s. canonical_policy b p = Inr s \<and> policy_digest sha p b = Inr (hex_encode (sha s))))"
proof -
  obtain s where s: "canonical_policy b p = Inr s" using canonical_policy_ok [OF typed] by blast
  have finish: "canon_finish sha s = Inr (hex_encode (sha s))"
    using sha by (simp add: canon_finish_def policy_digest_new_def hex_encode_lower)
  show ?thesis
  proof (cases "sandbox_policy_validate p")
    case (Inl e)
    then have "e \<noteq> PvePanic" using validate_never_panics [of p] by auto
    moreover have "\<not> policy_admissible p" using Inl sandbox_policy_validate_iff [of p "()"] by simp
    ultimately show ?thesis using Inl by (simp add: policy_digest_def)
  next
    case (Inr u)
    then show ?thesis using s finish by (simp add: policy_digest_def)
  qed
qed

text \<open>
  C36. Two (binary, policy) pairs with the same digest are the same pair, unless the hash
  function collides on two different canonical encodings.
\<close>

theorem policy_digest_binding:
  assumes "policy_digest sha p b = Inr d" "policy_digest sha q c = Inr d"
  shows "b = c \<and> p = q
    \<or> (\<exists>s t. canonical_policy b p = Inr s \<and> canonical_policy c q = Inr t \<and> s \<noteq> t \<and> sha s = sha t)"
proof -
  obtain s t where s: "canonical_policy b p = Inr s" "canon_finish sha s = Inr d"
    and t: "canonical_policy c q = Inr t" "canon_finish sha t = Inr d"
    and v: "sandbox_policy_validate p = Inr ()" "sandbox_policy_validate q = Inr ()"
    using assms by (auto simp: policy_digest_def)
  have "hex_encode (sha s) = hex_encode (sha t)"
    using s(2) t(2) by (auto simp: canon_finish_def policy_digest_new_def split: if_splits)
  then have "sha s = sha t" by (rule hex_encode_inj)
  show ?thesis
  proof (cases "s = t")
    case True
    then show ?thesis using canonical_policy_determines [OF v s(1)] t(1) by simp
  next
    case False
    then show ?thesis using s(1) t(1) \<open>sha s = sha t\<close> by blast
  qed
qed

end
