(* ===== verification/Sandbox_Machine.thy ===== *)
theory Sandbox_Machine
  imports Policy_Digest
begin

text \<open>
  The lifecycle half of \<open>resymbol-debugger/src/sandbox.rs\<close>: failure evidence, cleanup
  receipts, and \<open>SandboxMachine\<close>, the value-only reducer of one sandbox, with its
  invariant.
\<close>

section \<open>Failure evidence\<close>

datatype failure_stage =
  FsPolicy | FsDiscovery | FsProvisioning | FsAttestation | FsLaunch | FsRuntime | FsCleanup

datatype failure_kind =
    FkInvalidPolicy
  | FkProviderUnavailable
  | FkAttestationRejected
  | FkLaunchDenied
  | FkResourceLimitReached
  | FkHelperFailure
  | FkCleanupIncomplete
  | FkProtocolViolation

datatype target_creation = NotCreated | Created process_identity

primrec target_creation_process :: "target_creation \<Rightarrow> process_identity option" where
  "target_creation_process NotCreated = None"
| "target_creation_process (Created p) = Some p"

datatype failure_context =
    FcLaunch binary_id string target_creation
  | FcInheritedAttach process_identity attach_mode

record sandbox_failure =
  sf_session_id :: session_id
  sf_provisioning_epoch :: provisioning_epoch
  sf_policy_digest :: policy_digest
  sf_provider :: sandbox_provider
  sf_context :: failure_context
  sf_stage :: failure_stage
  sf_kind :: failure_kind
  sf_retryable :: bool
  sf_detail :: string

datatype failure_validation_error =
    FveStageKind failure_stage failure_kind
  | FveSession
  | FveProvisioningEpoch
  | FvePolicyDigest
  | FveProvider
  | FveContextKind
  | FveBinaryIdentity
  | FveHelperBuild
  | FveTargetCreationOutcome
  | FveProcessIdentity
  | FveAttachMode

definition stage_kind_compatible :: "failure_stage \<Rightarrow> failure_kind \<Rightarrow> bool" where
  "stage_kind_compatible stage kind = (case stage of
     FsPolicy \<Rightarrow> kind \<in> {FkInvalidPolicy, FkProtocolViolation}
   | FsDiscovery \<Rightarrow> kind \<in> {FkProviderUnavailable, FkHelperFailure, FkProtocolViolation}
   | FsProvisioning \<Rightarrow> kind \<in> {FkProviderUnavailable, FkResourceLimitReached, FkHelperFailure,
       FkProtocolViolation}
   | FsAttestation \<Rightarrow> kind \<in> {FkAttestationRejected, FkHelperFailure, FkProtocolViolation}
   | FsLaunch \<Rightarrow> kind \<in> {FkLaunchDenied, FkResourceLimitReached, FkHelperFailure,
       FkProtocolViolation}
   | FsRuntime \<Rightarrow> kind \<in> {FkResourceLimitReached, FkHelperFailure, FkProtocolViolation}
   | FsCleanup \<Rightarrow> kind = FkCleanupIncomplete)"

definition validate_stage_kind :: "sandbox_failure \<Rightarrow> failure_validation_error + unit" where
  "validate_stage_kind f = guard (stage_kind_compatible (sf_stage f) (sf_kind f))
     (FveStageKind (sf_stage f) (sf_kind f))"

definition validate_against_expected ::
    "sandbox_failure \<Rightarrow> expected_attestation \<Rightarrow> target_creation option
     \<Rightarrow> failure_validation_error + unit" where
  "validate_against_expected f e retained =
     rbind (validate_stage_kind f) (\<lambda>_.
     rbind (guard (sf_session_id f = ea_session_id e) FveSession) (\<lambda>_.
     rbind (guard (sf_provisioning_epoch f = ea_provisioning_epoch e) FveProvisioningEpoch) (\<lambda>_.
     rbind (guard (sf_policy_digest f = ea_policy_digest e) FvePolicyDigest) (\<lambda>_.
     rbind (guard (sf_provider f = ea_provider e) FveProvider) (\<lambda>_.
     case sf_context f of
       FcLaunch bid helper creation \<Rightarrow>
         if bid = ea_binary_id e \<and> helper = ea_helper_build e
         then guard (retained = Some creation) FveTargetCreationOutcome
         else if bid \<noteq> ea_binary_id e then Inl FveBinaryIdentity
         else Inl FveHelperBuild
     | FcInheritedAttach _ _ \<Rightarrow> Inl FveContextKind)))))"

definition validate_against_inherited ::
    "sandbox_failure \<Rightarrow> session_id \<Rightarrow> provisioning_epoch \<Rightarrow> policy_digest \<Rightarrow> sandbox_provider
     \<Rightarrow> process_identity \<Rightarrow> attach_mode \<Rightarrow> failure_validation_error + unit" where
  "validate_against_inherited f sid epoch digest provider process mode =
     rbind (validate_stage_kind f) (\<lambda>_.
     rbind (guard (sf_session_id f = sid) FveSession) (\<lambda>_.
     rbind (guard (sf_provisioning_epoch f = epoch) FveProvisioningEpoch) (\<lambda>_.
     rbind (guard (sf_policy_digest f = digest) FvePolicyDigest) (\<lambda>_.
     rbind (guard (sf_provider f = provider) FveProvider) (\<lambda>_.
     case sf_context f of
       FcInheritedAttach actual actual_mode \<Rightarrow>
         if actual = process \<and> actual_mode = mode then Inr ()
         else if actual \<noteq> process then Inl FveProcessIdentity
         else Inl FveAttachMode
     | FcLaunch _ _ _ \<Rightarrow> Inl FveContextKind)))))"

section \<open>Cleanup receipts\<close>

datatype cleanup_outcome = CoComplete | CoIncomplete

datatype cleanup_residual_kind =
    RkProcess
  | RkFileSystem
  | RkRegistry
  | RkNetwork
  | RkHandles
  | RkAppContainerProfile
  | RkDifferencingDisk
  | RkControlChannel
  | RkProvider

record cleanup_residual =
  res_kind :: cleanup_residual_kind
  res_detail :: string

definition MAX_CLEANUP_RESIDUALS :: nat where "MAX_CLEANUP_RESIDUALS = 32"

record cleanup_receipt =
  cr_receipt_id :: string
  cr_session_id :: session_id
  cr_provisioning_epoch :: provisioning_epoch
  cr_provider :: sandbox_provider
  cr_policy_digest :: policy_digest
  cr_process :: "process_identity option"
  cr_outcome :: cleanup_outcome
  cr_process_tree_terminated_and_reaped :: bool
  cr_handles_closed :: bool
  cr_file_system_rolled_back :: bool
  cr_registry_rolled_back :: bool
  cr_network_torn_down :: bool
  cr_owned_paths_deleted :: bool
  cr_appcontainer_profile_deleted :: "bool option"
  cr_differencing_disk_discarded :: "bool option"
  cr_control_channel_closed :: "bool option"
  cr_terminated_processes :: u32
  cr_residuals :: "cleanup_residual list"

datatype cleanup_receipt_error =
  CreBindingMismatch | CreTooManyResiduals | CreFalseComplete | CreMissingResidual

definition receipt_all_clean :: "isolation_boundary \<Rightarrow> cleanup_receipt \<Rightarrow> bool" where
  "receipt_all_clean boundary r \<longleftrightarrow>
     (cr_process_tree_terminated_and_reaped r \<and> cr_handles_closed r
      \<and> cr_file_system_rolled_back r \<and> cr_registry_rolled_back r
      \<and> cr_network_torn_down r \<and> cr_owned_paths_deleted r)
     \<and> (case boundary of
          UserMode \<Rightarrow> cr_appcontainer_profile_deleted r = Some True
            \<and> cr_differencing_disk_discarded r = None \<and> cr_control_channel_closed r = None
        | Hypervisor \<Rightarrow> cr_appcontainer_profile_deleted r = None
            \<and> cr_differencing_disk_discarded r = Some True
            \<and> cr_control_channel_closed r = Some True)"

definition validate_for_boundary ::
    "cleanup_receipt \<Rightarrow> isolation_boundary \<Rightarrow> cleanup_receipt_error + unit" where
  "validate_for_boundary r boundary =
     rbind (guard (length (cr_residuals r) \<le> MAX_CLEANUP_RESIDUALS) CreTooManyResiduals) (\<lambda>_.
     case cr_outcome r of
       CoComplete \<Rightarrow> guard (\<not> (\<not> receipt_all_clean boundary r \<or> cr_residuals r \<noteq> [])) CreFalseComplete
     | CoIncomplete \<Rightarrow> guard (cr_residuals r \<noteq> []) CreMissingResidual)"

definition receipt_validate_against ::
    "cleanup_receipt \<Rightarrow> expected_attestation \<Rightarrow> process_identity option
     \<Rightarrow> cleanup_receipt_error + unit" where
  "receipt_validate_against r e created =
     rbind (guard (\<not> (cr_session_id r \<noteq> ea_session_id e
          \<or> cr_provisioning_epoch r \<noteq> ea_provisioning_epoch e
          \<or> cr_provider r \<noteq> ea_provider e
          \<or> cr_policy_digest r \<noteq> ea_policy_digest e
          \<or> cr_process r \<noteq> created)) CreBindingMismatch) (\<lambda>_.
     validate_for_boundary r (ea_boundary e))"

record cleanup_attempt_failure =
  ca_failure :: sandbox_failure
  ca_receipt :: cleanup_receipt

datatype cleanup_attempt_error =
    CaeWrongStage
  | CaeWrongKind
  | CaeFailureReceiptMismatch
  | CaeReceiptNotIncomplete
  | CaeReceipt cleanup_receipt_error

definition cleanup_attempt_validate :: "cleanup_attempt_failure \<Rightarrow> cleanup_attempt_error + unit" where
  "cleanup_attempt_validate a = (let f = ca_failure a; r = ca_receipt a in
     rbind (guard (sf_stage f = FsCleanup) CaeWrongStage) (\<lambda>_.
     rbind (guard (sf_kind f = FkCleanupIncomplete) CaeWrongKind) (\<lambda>_.
     rbind (guard (\<not> (sf_session_id f \<noteq> cr_session_id r
          \<or> sf_provisioning_epoch f \<noteq> cr_provisioning_epoch r
          \<or> sf_policy_digest f \<noteq> cr_policy_digest r
          \<or> sf_provider f \<noteq> cr_provider r)) CaeFailureReceiptMismatch) (\<lambda>_.
     rbind (guard (case (sf_context f, cr_process r) of
          (FcLaunch _ _ NotCreated, None) \<Rightarrow> True
        | (FcLaunch bid _ (Created process), Some rp) \<Rightarrow> process = rp \<and> pi_binary_id process = bid
        | (FcInheritedAttach process _, Some rp) \<Rightarrow> process = rp
        | _ \<Rightarrow> False) CaeFailureReceiptMismatch) (\<lambda>_.
     rbind (guard (cr_outcome r = CoIncomplete) CaeReceiptNotIncomplete) (\<lambda>_.
     map_err CaeReceipt (validate_for_boundary r (provider_boundary (cr_provider r)))))))))"

section \<open>The lifecycle reducer\<close>

datatype lifecycle_state =
    LsRequested
  | LsProvisioning
  | LsTargetCreatedSuspended
  | LsAttestationAccepted
  | LsRunning
  | LsCleanup
  | LsClosed
  | LsFailed

datatype provider_unavailable_reason =
    PurNotInstalled
  | PurFeatureDisabled
  | PurAdministrativePolicy
  | PurUnsupportedPolicy
  | PurResourceUnavailable
  | PurVersionMismatch
  | PurBackendOffline

record provider_unavailable =
  pu_session_id :: session_id
  pu_provider :: sandbox_provider
  pu_reason :: provider_unavailable_reason
  pu_retryable :: bool
  pu_detail :: string

datatype sandbox_lifecycle_event =
    SleState session_id lifecycle_state
  | SleAttested sandbox_attestation
  | SleProviderUnavailable provider_unavailable
  | SleFailed sandbox_failure
  | SleCleanupAttemptFailed cleanup_attempt_failure
  | SleClosed cleanup_receipt

record sandbox_machine =
  sx_expected :: expected_attestation
  sx_state :: lifecycle_state
  sx_target_creation :: "target_creation option"
  sx_accepted_attestation :: "sandbox_attestation option"

datatype sandbox_machine_error =
    SxeInvalidExpectedAttestation
  | SxeCreatedProcessIdentityMismatch
  | SxeCreatedProcessIdentityMissing
  | SxeTargetCreationOutcomeMissing
  | SxeTargetCreationOutcomeMismatch
  | SxeAttestationNotAccepted
  | SxeInvalidTransition lifecycle_state string
  | SxeAttestation attestation_mismatch
  | SxeCleanup cleanup_receipt_error
  | SxeCleanupIncomplete

type_synonym 'a sandbox_op = "(sandbox_machine, sandbox_machine_error, 'a) sm"

definition sandbox_machine_new :: "expected_attestation \<Rightarrow> sandbox_machine_error + sandbox_machine" where
  "sandbox_machine_new e =
     (let vm_shape_valid = (case ea_boundary e of
            UserMode \<Rightarrow> ea_vm_identity e = None
          | Hypervisor \<Rightarrow> (case ea_vm_identity e of None \<Rightarrow> False
              | Some i \<Rightarrow> is_ok (vm_identity_validate i)));
          provider_valid =
            (case ea_provider e of Registered d \<Rightarrow> is_ok (descriptor_validate d) | _ \<Rightarrow> True)
            \<and> (\<forall>g \<in> ea_guarantees e. provider_supports (ea_provider e) g)
      in if \<not> ea_job_assigned_at_creation e
            \<or> JobAssignmentAtCreation \<notin> ea_guarantees e
            \<or> provider_boundary (ea_provider e) \<noteq> ea_boundary e
            \<or> \<not> provider_valid
            \<or> \<not> vm_shape_valid
         then Inl SxeInvalidExpectedAttestation
         else Inr \<lparr>sx_expected = e, sx_state = LsRequested, sx_target_creation = None,
                   sx_accepted_attestation = None\<rparr>)"

definition sx_attestation_accepted :: "sandbox_machine \<Rightarrow> bool" where
  "sx_attestation_accepted x = (sx_accepted_attestation x \<noteq> None)"

definition sx_created_process :: "sandbox_machine \<Rightarrow> process_identity option" where
  "sx_created_process x = (case sx_target_creation x of
     Some (Created p) \<Rightarrow> Some p | Some NotCreated \<Rightarrow> None | None \<Rightarrow> None)"

definition sx_failure_target_creation :: "sandbox_machine \<Rightarrow> sandbox_machine_error + target_creation" where
  "sx_failure_target_creation x = ok_or (sx_target_creation x) SxeTargetCreationOutcomeMissing"

definition sx_require_state :: "string \<Rightarrow> lifecycle_state list \<Rightarrow> unit sandbox_op" where
  "sx_require_state action allowed = lift_result (\<lambda>x.
     guard (sx_state x \<in> set allowed) (SxeInvalidTransition (sx_state x) action))"

definition sx_transition ::
    "string \<Rightarrow> lifecycle_state list \<Rightarrow> lifecycle_state \<Rightarrow> lifecycle_state sandbox_op" where
  "sx_transition action allowed next =
     and_then (sx_require_state action allowed) (\<lambda>_.
     and_then (modify (\<lambda>x. x\<lparr>sx_state := next\<rparr>)) (\<lambda>_.
     gets sx_state))"

definition sx_retain_failure_target_creation :: "target_creation \<Rightarrow> unit sandbox_op" where
  "sx_retain_failure_target_creation outcome x =
     (case (sx_target_creation x, outcome) of
        (None, NotCreated) \<Rightarrow> modify (\<lambda>x. x\<lparr>sx_target_creation := Some NotCreated\<rparr>) x
      | (Some retained, claimed) \<Rightarrow>
          if retained = claimed then ok () x else fail SxeTargetCreationOutcomeMismatch x
      | _ \<Rightarrow> fail SxeTargetCreationOutcomeMismatch x)"

definition sx_record_target_not_created :: "unit sandbox_op" where
  "sx_record_target_not_created =
     and_then (sx_require_state ''record target not created'' [LsProvisioning]) (\<lambda>_.
     sx_retain_failure_target_creation NotCreated)"

definition sx_begin_provisioning :: "lifecycle_state sandbox_op" where
  "sx_begin_provisioning = sx_transition ''begin provisioning'' [LsRequested] LsProvisioning"

definition sx_target_created_suspended :: "process_identity \<Rightarrow> lifecycle_state sandbox_op" where
  "sx_target_created_suspended process =
     and_then (lift_result (\<lambda>x. guard (sx_target_creation x = None)
        SxeTargetCreationOutcomeMismatch)) (\<lambda>_.
     and_then (lift_result (\<lambda>x. guard (pi_binary_id process = ea_binary_id (sx_expected x))
        SxeCreatedProcessIdentityMismatch)) (\<lambda>_.
     and_then (sx_transition ''record suspended target'' [LsProvisioning]
        LsTargetCreatedSuspended) (\<lambda>state.
     and_then (modify (\<lambda>x. x\<lparr>sx_target_creation := Some (Created process)\<rparr>)) (\<lambda>_.
     ok state))))"

definition sx_accept_attestation :: "sandbox_attestation \<Rightarrow> lifecycle_state sandbox_op" where
  "sx_accept_attestation actual =
     and_then (sx_require_state ''accept attestation'' [LsTargetCreatedSuspended]) (\<lambda>_.
     and_then (lift_result (\<lambda>x. ok_or (sx_created_process x)
        SxeCreatedProcessIdentityMissing)) (\<lambda>created.
     and_then (lift_result (\<lambda>x. map_err SxeAttestation
        (validate_exact (sx_expected x) actual created))) (\<lambda>_.
     and_then (modify (\<lambda>x. x\<lparr>sx_accepted_attestation := Some actual\<rparr>)) (\<lambda>_.
     and_then (modify (\<lambda>x. x\<lparr>sx_state := LsAttestationAccepted\<rparr>)) (\<lambda>_.
     gets sx_state)))))"

definition sx_mark_running :: "lifecycle_state sandbox_op" where
  "sx_mark_running =
     and_then (lift_result (\<lambda>x. guard (sx_accepted_attestation x \<noteq> None)
        SxeAttestationNotAccepted)) (\<lambda>_.
     sx_transition ''mark target running'' [LsAttestationAccepted, LsRunning] LsRunning)"

definition sx_mark_failed :: "lifecycle_state sandbox_op" where
  "sx_mark_failed =
     and_then (lift_result (\<lambda>x. guard (sx_state x \<noteq> LsClosed)
        (SxeInvalidTransition (sx_state x) ''mark failed''))) (\<lambda>_.
     and_then (lift_result (\<lambda>x. guard (sx_target_creation x \<noteq> None)
        SxeTargetCreationOutcomeMissing)) (\<lambda>_.
     and_then (modify (\<lambda>x. x\<lparr>sx_state := LsFailed\<rparr>)) (\<lambda>_.
     gets sx_state)))"

definition sx_begin_cleanup :: "lifecycle_state sandbox_op" where
  "sx_begin_cleanup x =
     (if sx_state x = LsCleanup then ok (sx_state x) x
      else and_then (lift_result (\<lambda>x. guard (sx_state x \<noteq> LsClosed)
             (SxeInvalidTransition (sx_state x) ''begin cleanup''))) (\<lambda>_.
           and_then (modify (\<lambda>x. x\<lparr>sx_state := LsCleanup\<rparr>)) (\<lambda>_.
           gets sx_state)) x)"

definition sx_validate_cleanup_receipt ::
    "sandbox_machine \<Rightarrow> cleanup_receipt \<Rightarrow> sandbox_machine_error + unit" where
  "sx_validate_cleanup_receipt x receipt =
     rbind (ok_or (sx_target_creation x) SxeTargetCreationOutcomeMissing) (\<lambda>creation.
     map_err SxeCleanup
       (receipt_validate_against receipt (sx_expected x) (target_creation_process creation)))"

definition sx_close :: "cleanup_receipt \<Rightarrow> lifecycle_state sandbox_op" where
  "sx_close receipt =
     and_then (sx_require_state ''close'' [LsCleanup]) (\<lambda>_.
     and_then (lift_result (\<lambda>x. sx_validate_cleanup_receipt x receipt)) (\<lambda>_.
     and_then (lift_result (\<lambda>x. guard (cr_outcome receipt = CoComplete) SxeCleanupIncomplete)) (\<lambda>_.
     and_then (modify (\<lambda>x. x\<lparr>sx_state := LsClosed\<rparr>)) (\<lambda>_.
     gets sx_state))))"

section \<open>Steps and invariant\<close>

definition expected_well_formed :: "expected_attestation \<Rightarrow> bool" where
  "expected_well_formed e \<longleftrightarrow>
     ea_job_assigned_at_creation e \<and> JobAssignmentAtCreation \<in> ea_guarantees e
     \<and> provider_boundary (ea_provider e) = ea_boundary e
     \<and> provider_well_formed (ea_provider e)
     \<and> ea_guarantees e \<subseteq> Collect (provider_supports (ea_provider e))
     \<and> vm_shape (ea_boundary e) (ea_vm_identity e)"

lemma sandbox_machine_new_Inr_iff:
  "sandbox_machine_new e = Inr x \<longleftrightarrow> expected_well_formed e
     \<and> x = \<lparr>sx_expected = e, sx_state = LsRequested, sx_target_creation = None,
            sx_accepted_attestation = None\<rparr>"
proof -
  have vm: "(case ea_boundary e of UserMode \<Rightarrow> ea_vm_identity e = None
      | Hypervisor \<Rightarrow> (case ea_vm_identity e of None \<Rightarrow> False
          | Some i \<Rightarrow> is_ok (vm_identity_validate i))) \<longleftrightarrow> vm_shape (ea_boundary e) (ea_vm_identity e)"
    by (auto simp: vm_shape_def vm_identity_validate_def is_ok_iff
        split: isolation_boundary.splits option.splits)
  have pr: "(case ea_provider e of Registered d \<Rightarrow> is_ok (descriptor_validate d) | _ \<Rightarrow> True)
      \<longleftrightarrow> provider_well_formed (ea_provider e)"
    by (cases "ea_provider e")
      (auto simp: is_ok_iff descriptor_validate_iff, auto simp: provider_well_formed_def)
  show ?thesis
    unfolding sandbox_machine_new_def Let_def vm pr expected_well_formed_def by auto
qed

text \<open>Each operation as one conditional: an error never changes the machine.\<close>

lemma guard_step:
  "and_then (lift_result (\<lambda>x. guard (c x) (e x))) f x = (if c x then f () x else (Inl (e x), x))"
  by (simp add: and_then_def lift_result_def)

lemma sx_require_state_step:
  "and_then (sx_require_state act allowed) f x =
     (if sx_state x \<in> set allowed then f () x else (Inl (SxeInvalidTransition (sx_state x) act), x))"
  by (simp add: sx_require_state_def guard_step)

lemma sx_transition_eq:
  "sx_transition act allowed next x =
     (if sx_state x \<in> set allowed then (Inr next, x\<lparr>sx_state := next\<rparr>)
      else (Inl (SxeInvalidTransition (sx_state x) act), x))"
  unfolding sx_transition_def sx_require_state_step by (simp add: and_then_def sm_defs)

lemma sx_retain_eq:
  "sx_retain_failure_target_creation c x =
     (if sx_target_creation x = None \<and> c = NotCreated
      then (Inr (), x\<lparr>sx_target_creation := Some NotCreated\<rparr>)
      else if sx_target_creation x = Some c then (Inr (), x)
      else (Inl SxeTargetCreationOutcomeMismatch, x))"
  by (auto simp: sx_retain_failure_target_creation_def sm_defs
      split: option.splits target_creation.splits)

lemma sx_record_not_created_eq:
  "sx_record_target_not_created x =
     (if sx_state x = LsProvisioning then sx_retain_failure_target_creation NotCreated x
      else (Inl (SxeInvalidTransition (sx_state x) ''record target not created''), x))"
  by (simp add: sx_record_target_not_created_def sx_require_state_step)

lemma sx_created_suspended_eq:
  "sx_target_created_suspended p x =
     (if sx_target_creation x \<noteq> None then (Inl SxeTargetCreationOutcomeMismatch, x)
      else if pi_binary_id p \<noteq> ea_binary_id (sx_expected x)
      then (Inl SxeCreatedProcessIdentityMismatch, x)
      else if sx_state x \<noteq> LsProvisioning
      then (Inl (SxeInvalidTransition (sx_state x) ''record suspended target''), x)
      else (Inr LsTargetCreatedSuspended,
            x\<lparr>sx_state := LsTargetCreatedSuspended, sx_target_creation := Some (Created p)\<rparr>))"
  unfolding sx_target_created_suspended_def guard_step
  by (simp add: and_then_def sm_defs sx_transition_eq)

lemma sx_accept_eq:
  "sx_accept_attestation a x =
     (if sx_state x \<noteq> LsTargetCreatedSuspended
      then (Inl (SxeInvalidTransition (sx_state x) ''accept attestation''), x)
      else case sx_created_process x of
        None \<Rightarrow> (Inl SxeCreatedProcessIdentityMissing, x)
      | Some p \<Rightarrow> (case validate_exact (sx_expected x) a p of
          Inl m \<Rightarrow> (Inl (SxeAttestation m), x)
        | Inr _ \<Rightarrow> (Inr LsAttestationAccepted,
            x\<lparr>sx_accepted_attestation := Some a, sx_state := LsAttestationAccepted\<rparr>)))"
  unfolding sx_accept_attestation_def sx_require_state_step
  by (auto simp: and_then_def sm_defs split: option.splits sum.splits)

lemma sx_mark_running_eq:
  "sx_mark_running x =
     (if sx_accepted_attestation x = None then (Inl SxeAttestationNotAccepted, x)
      else if sx_state x \<in> {LsAttestationAccepted, LsRunning}
      then (Inr LsRunning, x\<lparr>sx_state := LsRunning\<rparr>)
      else (Inl (SxeInvalidTransition (sx_state x) ''mark target running''), x))"
  unfolding sx_mark_running_def guard_step by (simp add: sx_transition_eq)

lemma sx_mark_failed_eq:
  "sx_mark_failed x =
     (if sx_state x = LsClosed then (Inl (SxeInvalidTransition LsClosed ''mark failed''), x)
      else if sx_target_creation x = None then (Inl SxeTargetCreationOutcomeMissing, x)
      else (Inr LsFailed, x\<lparr>sx_state := LsFailed\<rparr>))"
  unfolding sx_mark_failed_def guard_step by (simp add: and_then_def sm_defs)

lemma sx_begin_cleanup_eq:
  "sx_begin_cleanup x =
     (if sx_state x = LsClosed then (Inl (SxeInvalidTransition LsClosed ''begin cleanup''), x)
      else (Inr LsCleanup, x\<lparr>sx_state := LsCleanup\<rparr>))"
  unfolding sx_begin_cleanup_def guard_step by (cases x) (simp add: and_then_def sm_defs)

definition receipt_closes :: "sandbox_machine \<Rightarrow> cleanup_receipt \<Rightarrow> bool" where
  "receipt_closes x r \<longleftrightarrow>
     sx_validate_cleanup_receipt x r = Inr () \<and> cr_outcome r = CoComplete"

lemma sx_close_Inr_iff:
  "sx_close r x = (Inr q, y) \<longleftrightarrow>
     sx_state x = LsCleanup \<and> receipt_closes x r \<and> q = LsClosed \<and> y = x\<lparr>sx_state := LsClosed\<rparr>"
  unfolding sx_close_def sx_require_state_step receipt_closes_def
  by (auto simp: and_then_Inr_iff sm_defs)

lemma sx_close_Inl: "sx_close r x = (Inl e, y) \<Longrightarrow> y = x"
  unfolding sx_close_def sx_require_state_step
  by (auto simp: and_then_Inl_iff sm_defs split: if_splits)

lemmas sx_eqs = sx_record_not_created_eq sx_retain_eq sx_begin_provisioning_def sx_transition_eq
  sx_created_suspended_eq sx_accept_eq sx_mark_running_eq sx_mark_failed_eq sx_begin_cleanup_eq

text \<open>Every public operation, whether it succeeds or fails.\<close>

inductive sx_step :: "sandbox_machine \<Rightarrow> sandbox_machine \<Rightarrow> bool" where
  record_not_created: "sx_record_target_not_created x = (r, y) \<Longrightarrow> sx_step x y"
| retain_creation: "sx_retain_failure_target_creation c x = (r, y) \<Longrightarrow> sx_step x y"
| begin_provisioning: "sx_begin_provisioning x = (q, y) \<Longrightarrow> sx_step x y"
| created_suspended: "sx_target_created_suspended p x = (q, y) \<Longrightarrow> sx_step x y"
| accept_attestation: "sx_accept_attestation a x = (q, y) \<Longrightarrow> sx_step x y"
| mark_running: "sx_mark_running x = (q, y) \<Longrightarrow> sx_step x y"
| mark_failed: "sx_mark_failed x = (q, y) \<Longrightarrow> sx_step x y"
| begin_cleanup: "sx_begin_cleanup x = (q, y) \<Longrightarrow> sx_step x y"
| close: "sx_close receipt x = (q, y) \<Longrightarrow> sx_step x y"

definition sx_initial :: "sandbox_machine \<Rightarrow> bool" where
  "sx_initial x \<longleftrightarrow> sandbox_machine_new (sx_expected x) = Inr x"

definition sx_inv :: "sandbox_machine \<Rightarrow> bool" where
  "sx_inv x \<longleftrightarrow>
     is_ok (sandbox_machine_new (sx_expected x))
     \<and> (\<forall>p. sx_target_creation x = Some (Created p) \<longrightarrow> pi_binary_id p = ea_binary_id (sx_expected x))
     \<and> (\<forall>a. sx_accepted_attestation x = Some a \<longrightarrow>
          (\<exists>p. sx_target_creation x = Some (Created p) \<and> a = attestation_of (sx_expected x) p))
     \<and> (sx_state x \<in> {LsRequested, LsProvisioning} \<longrightarrow>
          (\<forall>p. sx_target_creation x \<noteq> Some (Created p)))
     \<and> (sx_state x = LsTargetCreatedSuspended \<longrightarrow>
          (\<exists>p. sx_target_creation x = Some (Created p)) \<and> sx_accepted_attestation x = None)
     \<and> (sx_state x \<in> {LsAttestationAccepted, LsRunning} \<longrightarrow> sx_accepted_attestation x \<noteq> None)
     \<and> (sx_state x \<in> {LsClosed, LsFailed} \<longrightarrow> sx_target_creation x \<noteq> None)"

lemma sx_inv_initial: "sx_initial x \<Longrightarrow> sx_inv x"
  unfolding sx_initial_def sandbox_machine_new_Inr_iff
  by (erule conjE) (erule ssubst, simp add: sx_inv_def is_ok_iff sandbox_machine_new_Inr_iff)

lemma sx_inv_state:
  assumes "sx_inv x" "st \<in> {LsCleanup, LsFailed, LsClosed}"
    and "st \<noteq> LsCleanup \<Longrightarrow> sx_target_creation x \<noteq> None"
  shows "sx_inv (x\<lparr>sx_state := st\<rparr>)"
  using assms unfolding sx_inv_def by (elim insertE emptyE) simp_all

text \<open>The other updates the operations make.\<close>

lemma sx_inv_no_attestation:
  assumes "sx_inv x" "\<And>p. sx_target_creation x \<noteq> Some (Created p)"
  shows "sx_accepted_attestation x = None"
  using assms unfolding sx_inv_def by (cases "sx_accepted_attestation x") auto

lemma sx_inv_not_created:
  assumes "sx_inv x" "sx_target_creation x = None"
  shows "sx_inv (x\<lparr>sx_target_creation := Some NotCreated\<rparr>)"
  using assms sx_inv_no_attestation [OF assms(1)] unfolding sx_inv_def by auto

lemma sx_inv_provisioning:
  assumes "sx_inv x" "sx_state x = LsRequested"
  shows "sx_inv (x\<lparr>sx_state := LsProvisioning\<rparr>)"
  using assms unfolding sx_inv_def by (elim conjE) simp

lemma sx_inv_created:
  assumes "sx_inv x" "sx_target_creation x = None" "pi_binary_id p = ea_binary_id (sx_expected x)"
  shows "sx_inv (x\<lparr>sx_state := LsTargetCreatedSuspended, sx_target_creation := Some (Created p)\<rparr>)"
proof -
  have "sx_accepted_attestation x = None"
    using assms(2) by (intro sx_inv_no_attestation [OF assms(1)]) simp
  then show ?thesis using assms unfolding sx_inv_def by simp
qed

lemma sx_inv_accepted:
  assumes "sx_inv x" "sx_target_creation x = Some (Created p)" "a = attestation_of (sx_expected x) p"
  shows "sx_inv (x\<lparr>sx_accepted_attestation := Some a, sx_state := LsAttestationAccepted\<rparr>)"
  using assms unfolding sx_inv_def by simp

lemma sx_inv_running:
  assumes "sx_inv x" "sx_accepted_attestation x \<noteq> None"
  shows "sx_inv (x\<lparr>sx_state := LsRunning\<rparr>)"
  using assms unfolding sx_inv_def by simp

lemmas sx_inv_intros = sx_inv_state sx_inv_not_created sx_inv_provisioning sx_inv_created
  sx_inv_accepted sx_inv_running

lemma sx_close_inv:
  assumes "sx_inv x" "sx_close r x = (q, y)"
  shows "sx_inv y"
proof (cases q)
  case (Inl e)
  then show ?thesis using assms sx_close_Inl by blast
next
  case (Inr a)
  then have y: "y = x\<lparr>sx_state := LsClosed\<rparr>" "receipt_closes x r"
    using assms(2) by (simp_all add: sx_close_Inr_iff)
  then have "sx_target_creation x \<noteq> None"
    by (auto simp: receipt_closes_def sx_validate_cleanup_receipt_def)
  then show ?thesis using y sx_inv_state [OF assms(1), of LsClosed] by simp
qed

lemma sx_created_process_Some:
  "sx_created_process x = Some p \<longleftrightarrow> sx_target_creation x = Some (Created p)"
  by (auto simp: sx_created_process_def split: option.splits target_creation.splits)

lemma sx_accept_inv:
  assumes "sx_inv x" "sx_accept_attestation a x = (q, y)"
  shows "sx_inv y"
proof (cases "y = x")
  case True
  then show ?thesis using assms(1) by simp
next
  case False
  then obtain p where "sx_created_process x = Some p" "validate_exact (sx_expected x) a p = Inr ()"
    and y: "y = x\<lparr>sx_accepted_attestation := Some a, sx_state := LsAttestationAccepted\<rparr>"
    using assms(2) unfolding sx_accept_eq by (auto split: if_splits option.splits sum.splits)
  then show ?thesis
    using assms(1) by (simp only: validate_exact_iff sx_created_process_Some y) (blast intro: sx_inv_accepted)
qed

lemma sx_op_inv:
  assumes "sx_inv x"
  shows "sx_retain_failure_target_creation c x = (r, y) \<Longrightarrow> sx_inv y"
    and "sx_record_target_not_created x = (r, y) \<Longrightarrow> sx_inv y"
    and "sx_begin_provisioning x = (q, y) \<Longrightarrow> sx_inv y"
    and "sx_target_created_suspended p x = (q, y) \<Longrightarrow> sx_inv y"
    and "sx_mark_running x = (q, y) \<Longrightarrow> sx_inv y"
    and "sx_mark_failed x = (q, y) \<Longrightarrow> sx_inv y"
    and "sx_begin_cleanup x = (q, y) \<Longrightarrow> sx_inv y"
  using assms
  by (auto simp only: sx_eqs prod.inject split: if_splits intro!: sx_inv_intros)
    (simp_all)

lemma sx_inv_step:
  assumes "sx_inv x" "sx_step x y"
  shows "sx_inv y"
  using assms(2) by cases (use assms(1) in \<open>blast intro: sx_op_inv sx_accept_inv sx_close_inv\<close>)+

interpretation sandbox: reducer sx_initial sx_step sx_inv
  by unfold_locales (auto intro: sx_inv_initial sx_inv_step)

lemma sx_expected_step: "sx_step x y \<Longrightarrow> sx_expected y = sx_expected x"
proof (erule sx_step.cases)
  fix receipt q x' y' assume "x = x'" "y = y'" "sx_close receipt x' = (q, y')"
  then show "sx_expected y = sx_expected x"
    by (cases q) (auto simp: sx_close_Inr_iff dest: sx_close_Inl)
qed (auto simp: sx_eqs split: if_splits option.splits sum.splits)

section \<open>Properties of the sandbox contracts\<close>

text \<open>
  A policy whose expectation can be derived always starts a sandbox machine: the two
  independent validations agree.
\<close>

theorem expected_from_policy_starts:
  assumes "expected_from_policy sha bid p helper epoch = Inr e"
  shows "\<exists>x. sandbox_machine_new e = Inr x \<and> sx_state x = LsRequested \<and> sx_expected x = e"
proof -
  have "policy_admissible p"
    using assms by (auto simp: expected_from_policy_def policy_digest_def sandbox_policy_validate_iff)
  then have "expected_well_formed e"
    using assms unfolding policy_admissible_def expected_well_formed_def
    by (auto simp: expected_from_policy_def mandatory_guarantees_def)
  then show ?thesis by (simp add: sandbox_machine_new_Inr_iff)
qed

text \<open>
  C1. A sandboxed target never runs unattested.  In every reachable machine that is running,
  the accepted attestation is the one and only attestation that repeats the expectation field by
  field for the process recorded at creation, that process was created from the expected binary,
  and job assignment at creation is among the attested guarantees.
\<close>

theorem sandbox_runs_only_attested:
  assumes "reachable sx_initial sx_step x" "sx_state x = LsRunning"
  shows "\<exists>p. sx_target_creation x = Some (Created p)
      \<and> sx_accepted_attestation x = Some (attestation_of (sx_expected x) p)
      \<and> pi_binary_id p = ea_binary_id (sx_expected x)
      \<and> JobAssignmentAtCreation \<in> ea_guarantees (sx_expected x)"
proof -
  have inv: "sx_inv x" by (rule sandbox.reachable_inv [OF assms(1)])
  then obtain a where a: "sx_accepted_attestation x = Some a"
    using assms(2) unfolding sx_inv_def by auto
  then obtain p where p: "sx_target_creation x = Some (Created p)" "a = attestation_of (sx_expected x) p"
    using inv unfolding sx_inv_def by blast
  have "JobAssignmentAtCreation \<in> ea_guarantees (sx_expected x)"
    using inv unfolding sx_inv_def is_ok_iff sandbox_machine_new_Inr_iff expected_well_formed_def
    by blast
  moreover have "pi_binary_id p = ea_binary_id (sx_expected x)"
    using inv p(1) unfolding sx_inv_def by blast
  ultimately show ?thesis using a p by blast
qed

end
