(* ===== verification/Sandbox_Examples.thy ===== *)
theory Sandbox_Examples
  imports Sandbox_Machine
begin

text \<open>
  A concrete sandbox: a local AppContainer policy with its digest under a fixed 32-byte hash, the
  expectation derived from it, the attestation of one process, and the machine driven from its
  creation to the running state.  The hypotheses of the sandbox theorems hold on it.
\<close>

definition sample_sha :: "string \<Rightarrow> string" where
  "sample_sha x = replicate 32 (CHR ''a'')"

definition sample_binary :: binary_id where
  "sample_binary = replicate 64 (CHR ''b'')"

definition sample_policy :: sandbox_policy where
  "sample_policy =
     \<lparr>sp_session_id = 7,
      sp_policy_approval = \<lparr>ap_session_id = 7, ap_nonce = ''approve-1''\<rparr>,
      sp_provider = LocalAppContainer,
      sp_required_boundary = UserMode,
      sp_required_guarantees = {FileSystemRedirection, RegistryRedirection, RollbackOnClose,
        NetworkDisabled, ResourceLimits, ChildProcessControl, ProcessMitigations,
        JobAssignmentAtCreation},
      sp_network = NmDisabled,
      sp_resources = \<lparr>rl_memory_bytes = 268435456, rl_disk_bytes = 268435456,
        rl_active_process_limit = 4, rl_cpu_rate_basis_points = 5000,
        rl_wall_clock_millis = 60000\<rparr>,
      sp_process_mitigations = StrictV1,
      sp_child_processes = CpDeny,
      sp_dynamic_code = DcProhibit,
      sp_win32k = WkDisable,
      sp_rollback_on_close = True,
      sp_vm_identity = None\<rparr>"

definition sample_epoch :: provisioning_epoch where
  "sample_epoch = replicate 64 (CHR ''e'')"

definition sample_process :: process_identity where
  "sample_process = \<lparr>pi_process_id = 42, pi_start_key = 1000, pi_binary_id = sample_binary\<rparr>"

definition sample_expected :: expected_attestation where
  "sample_expected =
     \<lparr>ea_binary_id = sample_binary, ea_session_id = 7, ea_provisioning_epoch = sample_epoch,
      ea_policy_digest = hex_encode (replicate 32 (CHR ''a'')), ea_provider = LocalAppContainer,
      ea_boundary = UserMode,
      ea_guarantees = {FileSystemRedirection, RegistryRedirection, RollbackOnClose,
        NetworkDisabled, ResourceLimits, ChildProcessControl, ProcessMitigations,
        JobAssignmentAtCreation},
      ea_job_assigned_at_creation = True, ea_helper_build = ''helper-1'', ea_vm_identity = None\<rparr>"

lemma sample_sha_length: "length (sample_sha x) = 32"
  by (simp add: sample_sha_def)

lemma sample_policy_admissible: "policy_admissible sample_policy"
  unfolding policy_admissible_def sample_policy_def
  by (simp add: is_ok_def resource_limits_validate_def guard_def provider_well_formed_def
      mandatory_guarantees_def forbidden_guarantees_def provider_supports_def vm_shape_def)

lemma sample_policy_valid: "sandbox_policy_validate sample_policy = Inr ()"
  by (simp add: sandbox_policy_validate_iff sample_policy_admissible)

lemma sample_policy_typed: "policy_typed sample_policy"
  by (simp add: policy_typed_def sample_policy_def provider_typed_def approval_nonce_new_def
      bounded_identifier_new_def validate_identifier_def MAX_ACK_ID_BYTES_def is_ascii_alnum_def)

lemma sample_binary_length: "length sample_binary = 64"
  by (simp add: sample_binary_def)

lemma sample_canonical: "\<exists>s. canonical_policy sample_binary sample_policy = Inr s"
  by (rule canonical_policy_ok [OF sample_policy_typed sample_binary_length])

lemma sample_digest:
  "policy_digest sample_sha sample_policy sample_binary = Inr (hex_encode (replicate 32 (CHR ''a'')))"
proof -
  obtain s where s: "canonical_policy sample_binary sample_policy = Inr s"
    using sample_canonical by blast
  have "canon_finish sample_sha s = Inr (hex_encode (sample_sha s))"
    by (simp add: canon_finish_def policy_digest_new_def hex_encode_lower sample_sha_length)
  then show ?thesis by (simp add: policy_digest_def sample_policy_valid s sample_sha_def)
qed

lemma sample_expected_from_policy:
  "expected_from_policy sample_sha sample_binary sample_policy ''helper-1'' sample_epoch
     = Inr sample_expected"
  by (simp add: expected_from_policy_def sample_digest)
    (simp add: sample_policy_def sample_expected_def)

definition sample_requested :: sandbox_machine where
  "sample_requested = \<lparr>sx_expected = sample_expected, sx_state = LsRequested,
     sx_target_creation = None, sx_accepted_attestation = None\<rparr>"

definition sample_running :: sandbox_machine where
  "sample_running = \<lparr>sx_expected = sample_expected, sx_state = LsRunning,
     sx_target_creation = Some (Created sample_process),
     sx_accepted_attestation = Some (attestation_of sample_expected sample_process)\<rparr>"

lemma sample_new: "sandbox_machine_new sample_expected = Inr sample_requested"
  unfolding sandbox_machine_new_Inr_iff expected_well_formed_def
  by (simp add: sample_expected_def sample_requested_def provider_well_formed_def
      provider_supports_def vm_shape_def)

lemma sample_running_reachable: "reachable sx_initial sx_step sample_running"
proof -
  let ?p = "sample_requested\<lparr>sx_state := LsProvisioning\<rparr>"
  let ?c = "?p\<lparr>sx_state := LsTargetCreatedSuspended, sx_target_creation := Some (Created sample_process)\<rparr>"
  let ?a = "?c\<lparr>sx_accepted_attestation := Some (attestation_of sample_expected sample_process),
     sx_state := LsAttestationAccepted\<rparr>"
  have "reachable sx_initial sx_step sample_requested"
    using sample_new by (intro reachable.start) (simp add: sx_initial_def sample_requested_def)
  moreover have "sx_begin_provisioning sample_requested = (Inr LsProvisioning, ?p)"
    by (simp add: sx_begin_provisioning_def sx_transition_eq sample_requested_def)
  ultimately have "reachable sx_initial sx_step ?p"
    by (blast intro: reachable.next_state sx_step.begin_provisioning)
  moreover have "sx_target_created_suspended sample_process ?p = (Inr LsTargetCreatedSuspended, ?c)"
    by (simp add: sx_created_suspended_eq sample_requested_def sample_process_def sample_expected_def)
  ultimately have "reachable sx_initial sx_step ?c"
    by (blast intro: reachable.next_state sx_step.created_suspended)
  moreover have "validate_exact sample_expected (attestation_of sample_expected sample_process)
      sample_process = Inr ()"
    by (simp add: validate_exact_iff sample_process_def sample_expected_def)
  then have "sx_accept_attestation (attestation_of sample_expected sample_process) ?c
      = (Inr LsAttestationAccepted, ?a)"
    by (simp add: sx_accept_eq sx_created_process_def sample_requested_def)
  ultimately have "reachable sx_initial sx_step ?a"
    by (blast intro: reachable.next_state sx_step.accept_attestation)
  moreover have "sx_mark_running ?a = (Inr LsRunning, sample_running)"
    by (simp add: sx_mark_running_eq sample_requested_def sample_running_def)
  ultimately show ?thesis by (blast intro: reachable.next_state sx_step.mark_running)
qed

section \<open>The theorems at the concrete sandbox\<close>

theorem expected_from_policy_starts_witness:
  "expected_from_policy sample_sha sample_binary sample_policy ''helper-1'' sample_epoch
     = Inr sample_expected
   \<and> (\<exists>x. sandbox_machine_new sample_expected = Inr x \<and> sx_state x = LsRequested
        \<and> sx_expected x = sample_expected)"
  using expected_from_policy_starts [OF sample_expected_from_policy] sample_expected_from_policy
  by simp

theorem sandbox_runs_only_attested_witness:
  "sx_state sample_running = LsRunning
   \<and> (\<exists>p. sx_target_creation sample_running = Some (Created p)
      \<and> sx_accepted_attestation sample_running
          = Some (attestation_of (sx_expected sample_running) p)
      \<and> pi_binary_id p = ea_binary_id (sx_expected sample_running)
      \<and> JobAssignmentAtCreation \<in> ea_guarantees (sx_expected sample_running))"
proof -
  have "sx_state sample_running = LsRunning" by (simp add: sample_running_def)
  with sandbox_runs_only_attested [OF sample_running_reachable this] show ?thesis by blast
qed

theorem canonical_policy_injective_witness:
  "\<exists>s. canonical_policy sample_binary sample_policy = Inr s
     \<and> sandbox_policy_validate sample_policy = Inr ()
     \<and> sample_binary = sample_binary \<and> sample_policy = sample_policy"
proof -
  obtain s where s: "canonical_policy sample_binary sample_policy = Inr s"
    using sample_canonical by blast
  show ?thesis
    using canonical_policy_injective [OF sample_policy_valid sample_policy_valid s s]
      s sample_policy_valid by blast
qed

theorem policy_digest_total_witness:
  "policy_digest sample_sha sample_policy sample_binary \<noteq> Inl PvePanic
   \<and> (\<exists>s. canonical_policy sample_binary sample_policy = Inr s
        \<and> policy_digest sample_sha sample_policy sample_binary = Inr (hex_encode (sample_sha s)))"
  using policy_digest_total [of sample_sha sample_policy sample_binary, OF sample_sha_length sample_policy_typed sample_binary_length]
    sample_policy_admissible by blast

theorem policy_digest_binding_witness:
  "policy_digest sample_sha sample_policy sample_binary = Inr (hex_encode (replicate 32 (CHR ''a'')))
   \<and> (sample_binary = sample_binary \<and> sample_policy = sample_policy
      \<or> (\<exists>s t. canonical_policy sample_binary sample_policy = Inr s
           \<and> canonical_policy sample_binary sample_policy = Inr t \<and> s \<noteq> t
           \<and> sample_sha s = sample_sha t))"
  using policy_digest_binding [OF sample_digest sample_digest] sample_digest by blast

end
