(* ===== verification/Protocol.thy ===== *)
theory Protocol
  imports Sandbox_Machine
begin

text \<open>
  The debugger protocol of \<open>resymbol-debugger/src/protocol.rs\<close>: identifiers and tokens,
  live target bindings, targets, capabilities, breakpoints, registers, commands, session states,
  events, and the validation of each.  Sizes of Rust collections are natural numbers; addresses,
  identifiers and counters keep their width.
\<close>

section \<open>Constants and errors\<close>

definition PROTOCOL_MAJOR :: u16 where "PROTOCOL_MAJOR = 1"

definition PROTOCOL_MINOR :: u16 where "PROTOCOL_MINOR = 7"

definition MAX_LAUNCH_ARGUMENTS :: nat where "MAX_LAUNCH_ARGUMENTS = 128"

definition MAX_LAUNCH_ARGUMENT_BYTES :: nat where "MAX_LAUNCH_ARGUMENT_BYTES = 256 * 1024"

definition MAX_MEMORY_READ_BYTES :: u32 where "MAX_MEMORY_READ_BYTES = 1024 * 1024"

definition MAX_MEMORY_WRITE_BYTES :: nat where "MAX_MEMORY_WRITE_BYTES = 64 * 1024"

definition MAX_REASON_BYTES :: nat where "MAX_REASON_BYTES = 1024"

definition MAX_CAPABILITY_STATUSES :: nat where "MAX_CAPABILITY_STATUSES = 64"

definition MAX_REGISTERS :: nat where "MAX_REGISTERS = 256"

definition MAX_REGISTER_NAME_BYTES :: nat where "MAX_REGISTER_NAME_BYTES = 32"

lemmas protocol_bounds = MAX_LAUNCH_ARGUMENTS_def MAX_LAUNCH_ARGUMENT_BYTES_def
  MAX_MEMORY_READ_BYTES_def MAX_MEMORY_WRITE_BYTES_def MAX_REASON_BYTES_def
  MAX_CAPABILITY_STATUSES_def MAX_REGISTERS_def MAX_REGISTER_NAME_BYTES_def

datatype (plugins only: code size) debug_capability =
    OfflineAnalysis
  | DumpRead
  | SnapshotRead
  | ObserveProcess
  | LiveMemoryRead
  | LiveMemoryWrite
  | ExecutionControl
  | StepInto
  | StepOver
  | StepOut
  | RegisterRead
  | RegisterWrite
  | SoftwareBreakpoints
  | HardwareBreakpoints
  | SandboxedLaunch
  | HostLaunch
  | HostAttach

datatype (plugins only: code size) session_state_kind =
    KIdle
  | KOpening
  | KAwaitingAttestation
  | KAttestationAccepted
  | KOffline
  | KDump
  | KSnapshot
  | KObserving
  | KStopped
  | KRunning
  | KPausing
  | KClosing
  | KDetached
  | KExited
  | KFailed
  | KClosed

datatype (plugins only: code size) memory_write_stage =
    MwChangeProtection
  | MwProtectionRace
  | MwRevalidateExpectedBytes
  | MwWriteReplacement
  | MwFlushReplacement
  | MwRestoreProtection
  | MwVerifyReplacement
  | MwValidateFinalBinding

datatype (plugins only: code size) memory_write_recovery =
    MrNoWriteAttempted bool
  | MrRestored
  | MrIndeterminate bool bool bool

datatype (plugins only: code size) protocol_error =
    PeCleanupAttemptFailure cleanup_attempt_error
  | PeSandboxFailure failure_validation_error
  | PeZeroIdentifier string
  | PeUnsupportedProtocolVersion u16 u16
  | PeStateGenerationOverflow
  | PeUnexpectedStateGeneration u64 u64
  | PeInvalidSessionStateTransition session_state_kind session_state_kind
  | PeEmptyPath
  | PeTooManyLaunchArguments nat nat
  | PeLaunchArgumentsTooLarge nat nat
  | PeNulLaunchArgument
  | PeLaunchMustStopBeforeEntry
  | PeTooManyCapabilityStatuses nat nat
  | PeDuplicateCapability debug_capability
  | PeMissingCapability debug_capability
  | PeInvalidReason
  | PeEmptyMemoryRead
  | PeMemoryReadTooLarge u32 u32
  | PeEmptyMemoryWrite
  | PeMemoryWriteLengthMismatch nat nat
  | PeMemoryWriteTooLarge nat nat
  | PeAddressOverflow u64 u64
  | PeMemoryWriteConflict
  | PeMemoryWriteFailureRecoveryMismatch memory_write_stage memory_write_recovery
  | PeNotMemoryWriteCommand
  | PeInvalidRegisterName
  | PeTooManyRegisters nat nat
  | PeDuplicateRegisterName string
  | PeInvalidHardwareBreakpointSize u8
  | PeInvalidExecuteBreakpointSize u8
  | PeUnalignedHardwareBreakpoint u64 u8
  | PeUnexpectedSessionContext
  | PeMissingSessionContext
  | PeMissingStateToken
  | PeStaleSession
  | PeStaleStateToken
  | PeStaleExecutionToken
  | PeCommandNotAllowedInState
  | PeInvalidMemoryReadResult
  | PeMismatchedCommandCorrelation
  | PeUnexpectedEventSequence u64 u64
  | PeEventSequenceOverflow

section \<open>Identifiers and tokens\<close>

type_synonym command_id = u64
type_synonym event_sequence = u64
type_synonym state_generation = u64
type_synonym stop_id = u64
type_synonym run_id = u64
type_synonym process_id = u32
type_synonym thread_id = u32
type_synonym breakpoint_id = u64
type_synonym snapshot_id = u64
type_synonym memory_address = u64

text \<open>The \<open>nonzero_id!\<close> macro; \<open>kind\<close> is the literal of the expansion.\<close>

definition nonzero_id_new :: "string \<Rightarrow> 'a::len word \<Rightarrow> protocol_error + 'a word" where
  "nonzero_id_new kind value = ok_or (if value \<noteq> 0 then Some value else None) (PeZeroIdentifier kind)"

definition state_generation_checked_next :: "state_generation \<Rightarrow> protocol_error + state_generation" where
  "state_generation_checked_next g =
     rbind (ok_or (checked_add g 1) PeStateGenerationOverflow)
       (nonzero_id_new ''state generation'')"

record protocol_version =
  pv_major :: u16
  pv_minor :: u16

definition protocol_version_current :: protocol_version where
  "protocol_version_current = \<lparr>pv_major = PROTOCOL_MAJOR, pv_minor = PROTOCOL_MINOR\<rparr>"

definition protocol_version_validate :: "protocol_version \<Rightarrow> protocol_error + unit" where
  "protocol_version_validate v = guard (v = protocol_version_current)
     (PeUnsupportedProtocolVersion (pv_major v) (pv_minor v))"

record state_token =
  tk_session_id :: session_id
  tk_generation :: state_generation

record stop_token =
  sk_state :: state_token
  sk_stop_id :: stop_id

record run_token =
  rk_state :: state_token
  rk_run_id :: run_id

definition validate_span :: "memory_address \<Rightarrow> nat \<Rightarrow> protocol_error + unit" where
  "validate_span address sz =
     rbind (guard (sz < 2 ^ 64) (PeAddressOverflow address (- 1))) (\<lambda>_.
     rbind (ok_or (checked_add address (of_nat sz)) (PeAddressOverflow address (of_nat sz))) (\<lambda>_.
     Inr ()))"

section \<open>Live target bindings\<close>

text \<open>
  \<open>LtePanic\<close> is the panic of \<open>image_end\<close> on a binding whose image range wraps; every other
  constructor is a variant of the source.
\<close>

datatype (plugins only: code size) live_target_error =
    LteMainModuleIdentityMismatch
  | LteZeroImageBase
  | LteEmptyImage
  | LteImageAddressOverflow u64 u32
  | LteEmptySpan
  | LteRvaOutOfImage u64 u32
  | LteRvaSpanOverflow u64 u64
  | LteSpanOutOfImage u64 u64 u32
  | LteAddressBeforeImage u64 u64
  | LteAddressOutOfImage u64 u64 u32
  | LteAddressSpanOverflow u64 u64
  | LteAddressSpanOutOfImage u64 u64 u64
  | LtePanic

record live_target_binding =
  lt_process :: process_identity
  lt_main_module_binary_id :: binary_id
  lt_actual_image_base :: memory_address
  lt_size_of_image :: u32

definition live_target_binding_new ::
    "process_identity \<Rightarrow> binary_id \<Rightarrow> memory_address \<Rightarrow> u32 \<Rightarrow> live_target_error + live_target_binding" where
  "live_target_binding_new process main base sz =
     rbind (guard (pi_binary_id process = main) LteMainModuleIdentityMismatch) (\<lambda>_.
     rbind (guard (base \<noteq> 0) LteZeroImageBase) (\<lambda>_.
     rbind (guard (sz \<noteq> 0) LteEmptyImage) (\<lambda>_.
     rbind (ok_or (checked_add base (ucast sz)) (LteImageAddressOverflow base sz)) (\<lambda>_.
     Inr \<lparr>lt_process = process, lt_main_module_binary_id = main, lt_actual_image_base = base,
          lt_size_of_image = sz\<rparr>))))"

definition image_end :: "live_target_binding \<Rightarrow> live_target_error + memory_address" where
  "image_end b = ok_or (checked_add (lt_actual_image_base b) (ucast (lt_size_of_image b))) LtePanic"

definition address_for_rva_span ::
    "live_target_binding \<Rightarrow> u64 \<Rightarrow> u64 \<Rightarrow> live_target_error + memory_address" where
  "address_for_rva_span b rva sz =
     rbind (guard (sz \<noteq> 0) LteEmptySpan) (\<lambda>_.
     rbind (guard (rva < ucast (lt_size_of_image b)) (LteRvaOutOfImage rva (lt_size_of_image b))) (\<lambda>_.
     rbind (ok_or (checked_add rva sz) (LteRvaSpanOverflow rva sz)) (\<lambda>span_end.
     rbind (guard (span_end \<le> ucast (lt_size_of_image b))
        (LteSpanOutOfImage rva sz (lt_size_of_image b))) (\<lambda>_.
     ok_or (checked_add (lt_actual_image_base b) rva)
        (LteImageAddressOverflow (lt_actual_image_base b) (lt_size_of_image b))))))"

definition address_for_rva :: "live_target_binding \<Rightarrow> u64 \<Rightarrow> live_target_error + memory_address" where
  "address_for_rva b rva = address_for_rva_span b rva 1"

definition rva_for_address_span ::
    "live_target_binding \<Rightarrow> memory_address \<Rightarrow> u64 \<Rightarrow> live_target_error + u64" where
  "rva_for_address_span b address sz =
     (let base = lt_actual_image_base b in
     rbind (guard (sz \<noteq> 0) LteEmptySpan) (\<lambda>_.
     rbind (ok_or (checked_sub address base) (LteAddressBeforeImage address base)) (\<lambda>rva.
     rbind (guard (rva < ucast (lt_size_of_image b))
        (LteAddressOutOfImage address base (lt_size_of_image b))) (\<lambda>_.
     rbind (ok_or (checked_add address sz) (LteAddressSpanOverflow address sz)) (\<lambda>span_end.
     rbind (image_end b) (\<lambda>image_end.
     rbind (guard (span_end \<le> image_end) (LteAddressSpanOutOfImage address sz image_end)) (\<lambda>_.
     Inr rva)))))))"

definition rva_for_address :: "live_target_binding \<Rightarrow> memory_address \<Rightarrow> live_target_error + u64" where
  "rva_for_address b address = rva_for_address_span b address 1"

section \<open>Targets\<close>

datatype (plugins only: code size) launch_environment =
    LeSandboxed sandbox_policy
  | LeHost host_risk_lease_id

record launch_target =
  la_binary_id :: binary_id
  la_executable :: path
  la_arguments :: "string list"
  la_working_directory :: "path option"
  la_environment :: launch_environment
  la_stop_before_entry :: bool

datatype (plugins only: code size) attach_scope =
    AsHost process_identity host_risk_lease_id
  | AsOwnedSandbox process_identity sandbox_ownership_lease_id

record attach_target =
  aa_scope :: attach_scope
  aa_mode :: attach_mode

record dump_target =
  du_path :: path

record offline_target =
  of_path :: path

datatype (plugins only: code size) debug_target =
    DtLaunch launch_target
  | DtAttach attach_target
  | DtDump dump_target
  | DtOffline offline_target

definition validate_path :: "path \<Rightarrow> protocol_error + unit" where
  "validate_path p = guard (p \<noteq> []) PeEmptyPath"

text \<open>The argument loop: NUL bytes, and the running byte count as a \<open>usize\<close>.\<close>

fun launch_argument_bytes :: "nat \<Rightarrow> string list \<Rightarrow> protocol_error + nat" where
  "launch_argument_bytes bytes [] = Inr bytes"
| "launch_argument_bytes bytes (a # as) =
     rbind (guard (CHR 0x00 \<notin> set a) PeNulLaunchArgument) (\<lambda>_.
     rbind (guard (bytes + length a < 2 ^ 64)
        (PeLaunchArgumentsTooLarge (2 ^ 64 - 1) MAX_LAUNCH_ARGUMENT_BYTES)) (\<lambda>_.
     launch_argument_bytes (bytes + length a) as))"

definition launch_target_validate :: "launch_target \<Rightarrow> protocol_error + unit" where
  "launch_target_validate t =
     rbind (validate_path (la_executable t)) (\<lambda>_.
     rbind (guard (la_working_directory t \<noteq> Some []) PeEmptyPath) (\<lambda>_.
     rbind (guard (length (la_arguments t) \<le> MAX_LAUNCH_ARGUMENTS)
        (PeTooManyLaunchArguments (length (la_arguments t)) MAX_LAUNCH_ARGUMENTS)) (\<lambda>_.
     rbind (launch_argument_bytes 0 (la_arguments t)) (\<lambda>bytes.
     rbind (guard (bytes \<le> MAX_LAUNCH_ARGUMENT_BYTES)
        (PeLaunchArgumentsTooLarge bytes MAX_LAUNCH_ARGUMENT_BYTES)) (\<lambda>_.
     guard (la_stop_before_entry t) PeLaunchMustStopBeforeEntry)))))"

primrec debug_target_validate :: "debug_target \<Rightarrow> protocol_error + unit" where
  "debug_target_validate (DtLaunch t) = launch_target_validate t"
| "debug_target_validate (DtAttach t) = Inr ()"
| "debug_target_validate (DtDump t) = validate_path (du_path t)"
| "debug_target_validate (DtOffline t) = validate_path (of_path t)"

section \<open>Capabilities\<close>

definition debug_capability_all :: "debug_capability list" where
  "debug_capability_all = [OfflineAnalysis, DumpRead, SnapshotRead, ObserveProcess, LiveMemoryRead,
     LiveMemoryWrite, ExecutionControl, StepInto, StepOver, StepOut, RegisterRead, RegisterWrite,
     SoftwareBreakpoints, HardwareBreakpoints, SandboxedLaunch, HostLaunch, HostAttach]"

datatype (plugins only: code size) capability_unavailable_code =
    CucUnsupportedPlatform
  | CucProviderUnavailable
  | CucPolicyConflict
  | CucTargetModeReadOnly
  | CucTargetArchitectureUnsupported
  | CucInsufficientAuthority
  | CucBackendUnavailable

datatype (plugins only: code size) capability_availability = CapAvailable | CapUnavailable capability_unavailable_code string

record capability_status =
  cs_capability :: debug_capability
  cs_availability :: capability_availability

definition validate_reason :: "string \<Rightarrow> protocol_error + unit" where
  "validate_reason reason =
     (if reason = [] \<or> MAX_REASON_BYTES < length reason \<or> has_control reason
      then Inl PeInvalidReason else Inr ())"

definition availability_validate :: "capability_availability \<Rightarrow> protocol_error + unit" where
  "availability_validate a = (case a of CapUnavailable _ reason \<Rightarrow> validate_reason reason | _ \<Rightarrow> Inr ())"

record capability_report =
  rp_statuses :: "capability_status list"

fun collect_capabilities ::
    "debug_capability set \<Rightarrow> capability_status list \<Rightarrow> protocol_error + debug_capability set" where
  "collect_capabilities seen [] = Inr seen"
| "collect_capabilities seen (s # ss) =
     rbind (availability_validate (cs_availability s)) (\<lambda>_.
     rbind (guard (cs_capability s \<notin> seen) (PeDuplicateCapability (cs_capability s))) (\<lambda>_.
     collect_capabilities (insert (cs_capability s) seen) ss))"

definition capability_report_validate :: "capability_report \<Rightarrow> protocol_error + unit" where
  "capability_report_validate report =
     (let statuses = rp_statuses report in
     rbind (guard (length statuses \<le> MAX_CAPABILITY_STATUSES)
        (PeTooManyCapabilityStatuses (length statuses) MAX_CAPABILITY_STATUSES)) (\<lambda>_.
     rbind (collect_capabilities {} statuses) (\<lambda>seen.
     try_each (\<lambda>c. guard (c \<in> seen) (PeMissingCapability c)) debug_capability_all)))"

section \<open>Breakpoints\<close>

datatype (plugins only: code size) hardware_access = HaExecute | HaWrite | HaReadWrite

datatype (plugins only: code size) breakpoint_kind = BkSoftware | BkHardware hardware_access u8

datatype (plugins only: code size) breakpoint_scope = BsProcess | BsThread thread_id

datatype (plugins only: code size) breakpoint_persistence = Persistent | Temporary

record breakpoint_spec =
  bp_id :: breakpoint_id
  bp_address :: memory_address
  bp_kind :: breakpoint_kind
  bp_scope :: breakpoint_scope

definition breakpoint_spec_validate :: "breakpoint_spec \<Rightarrow> protocol_error + unit" where
  "breakpoint_spec_validate b =
     rbind (case bp_kind b of
        BkSoftware \<Rightarrow> Inr 1
      | BkHardware access sz \<Rightarrow>
          rbind (guard (sz \<in> {1, 2, 4, 8}) (PeInvalidHardwareBreakpointSize sz)) (\<lambda>_.
          rbind (guard (\<not> (access = HaExecute \<and> sz \<noteq> 1)) (PeInvalidExecuteBreakpointSize sz)) (\<lambda>_.
          rbind (guard (\<not> (access \<noteq> HaExecute \<and> bp_address b mod ucast sz \<noteq> 0))
             (PeUnalignedHardwareBreakpoint (bp_address b) sz)) (\<lambda>_.
          Inr (unat sz))))) (\<lambda>sz.
     validate_span (bp_address b) sz)"

section \<open>Views, execution and live tokens\<close>

datatype (plugins only: code size) read_view_token =
    RvOffline state_token
  | RvDump state_token
  | RvSnapshot state_token snapshot_id
  | RvObserving state_token
  | RvStopped stop_token

primrec read_view_state :: "read_view_token \<Rightarrow> state_token" where
  "read_view_state (RvOffline s) = s"
| "read_view_state (RvDump s) = s"
| "read_view_state (RvSnapshot s i) = s"
| "read_view_state (RvObserving s) = s"
| "read_view_state (RvStopped k) = sk_state k"

datatype (plugins only: code size) execution_token = EtStopped stop_token | EtRunning run_token

primrec execution_state :: "execution_token \<Rightarrow> state_token" where
  "execution_state (EtStopped k) = sk_state k"
| "execution_state (EtRunning r) = rk_state r"

datatype (plugins only: code size) live_token = LvStopped stop_token | LvRunning run_token | LvObserving state_token

primrec live_state :: "live_token \<Rightarrow> state_token" where
  "live_state (LvStopped k) = sk_state k"
| "live_state (LvRunning r) = rk_state r"
| "live_state (LvObserving s) = s"

datatype (plugins only: code size) step_kind = SkInto | SkOver | SkOut

section \<open>Registers\<close>

datatype (plugins only: code size) register_arch =
    ArchX86
  | ArchX86_64
  | ArchAarch64
  | ArchArm
  | ArchMips32
  | ArchMips64
  | ArchRiscv32
  | ArchRiscv64
  | ArchPowerPc32
  | ArchPowerPc64

definition register_name_new :: "string \<Rightarrow> protocol_error + string" where
  "register_name_new value =
     (if value = [] \<or> MAX_REGISTER_NAME_BYTES < length value
         \<or> \<not> list_all (\<lambda>b. is_ascii_alnum b \<or> b \<in> set ''_.'') value
      then Inl PeInvalidRegisterName else Inr value)"

record register_value =
  rv_name :: string
  rv_value :: u64

fun distinct_register_names :: "string set \<Rightarrow> register_value list \<Rightarrow> protocol_error + unit" where
  "distinct_register_names seen [] = Inr ()"
| "distinct_register_names seen (r # rs) =
     rbind (guard (rv_name r \<notin> seen) (PeDuplicateRegisterName (rv_name r))) (\<lambda>_.
     distinct_register_names (insert (rv_name r) seen) rs)"

definition validate_register_list :: "register_value list \<Rightarrow> protocol_error + unit" where
  "validate_register_list registers =
     rbind (guard (length registers \<le> MAX_REGISTERS)
        (PeTooManyRegisters (length registers) MAX_REGISTERS)) (\<lambda>_.
     distinct_register_names {} registers)"

record register_set =
  rs_arch :: register_arch
  rs_registers :: "register_value list"

record register_write =
  rw_arch :: register_arch
  rw_registers :: "register_value list"

definition register_set_validate :: "register_set \<Rightarrow> protocol_error + unit" where
  "register_set_validate r = validate_register_list (rs_registers r)"

definition register_write_validate :: "register_write \<Rightarrow> protocol_error + unit" where
  "register_write_validate r = validate_register_list (rw_registers r)"

section \<open>Commands\<close>

datatype (plugins only: code size) debug_command =
    CmdProbeCapabilities
  | CmdOpen debug_target
  | CmdContinue stop_token
  | CmdPause run_token
  | CmdStep stop_token thread_id step_kind
  | CmdReadMemory read_view_token memory_address u32
  | CmdWriteMemory stop_token memory_address "u8 list" "u8 list"
  | CmdReadRegisters read_view_token thread_id
  | CmdWriteRegisters stop_token thread_id register_write
  | CmdSetBreakpoint stop_token breakpoint_spec breakpoint_persistence
  | CmdRemoveBreakpoint stop_token breakpoint_id
  | CmdCaptureSnapshot live_token
  | CmdDetach live_token
  | CmdTerminate execution_token
  | CmdClose state_token

definition validate_memory_write ::
    "memory_address \<Rightarrow> u8 list \<Rightarrow> u8 list \<Rightarrow> protocol_error + unit" where
  "validate_memory_write address expected replacement =
     rbind (guard (expected \<noteq> []) PeEmptyMemoryWrite) (\<lambda>_.
     rbind (guard (length expected = length replacement)
        (PeMemoryWriteLengthMismatch (length expected) (length replacement))) (\<lambda>_.
     rbind (guard (length expected \<le> MAX_MEMORY_WRITE_BYTES)
        (PeMemoryWriteTooLarge (length expected) MAX_MEMORY_WRITE_BYTES)) (\<lambda>_.
     validate_span address (length expected))))"

primrec debug_command_validate :: "debug_command \<Rightarrow> protocol_error + unit" where
  "debug_command_validate (CmdOpen target) = debug_target_validate target"
| "debug_command_validate (CmdReadMemory view address sz) =
     (if sz = 0 then Inl PeEmptyMemoryRead
      else rbind (guard (sz \<le> MAX_MEMORY_READ_BYTES)
             (PeMemoryReadTooLarge sz MAX_MEMORY_READ_BYTES)) (\<lambda>_.
           validate_span address (unat sz)))"
| "debug_command_validate (CmdWriteMemory stop address expected replacement) =
     validate_memory_write address expected replacement"
| "debug_command_validate (CmdWriteRegisters stop thread registers) = register_write_validate registers"
| "debug_command_validate (CmdSetBreakpoint stop breakpoint persistence) =
     breakpoint_spec_validate breakpoint"
| "debug_command_validate CmdProbeCapabilities = Inr ()"
| "debug_command_validate (CmdContinue stop) = Inr ()"
| "debug_command_validate (CmdPause run) = Inr ()"
| "debug_command_validate (CmdStep stop thread kind) = Inr ()"
| "debug_command_validate (CmdReadRegisters view thread) = Inr ()"
| "debug_command_validate (CmdRemoveBreakpoint stop bid) = Inr ()"
| "debug_command_validate (CmdCaptureSnapshot live) = Inr ()"
| "debug_command_validate (CmdDetach live) = Inr ()"
| "debug_command_validate (CmdTerminate execution) = Inr ()"
| "debug_command_validate (CmdClose state) = Inr ()"

primrec command_state_context :: "debug_command \<Rightarrow> state_token option" where
  "command_state_context CmdProbeCapabilities = None"
| "command_state_context (CmdOpen target) = None"
| "command_state_context (CmdContinue stop) = Some (sk_state stop)"
| "command_state_context (CmdStep stop thread kind) = Some (sk_state stop)"
| "command_state_context (CmdWriteMemory stop address expected replacement) = Some (sk_state stop)"
| "command_state_context (CmdWriteRegisters stop thread registers) = Some (sk_state stop)"
| "command_state_context (CmdSetBreakpoint stop breakpoint persistence) = Some (sk_state stop)"
| "command_state_context (CmdRemoveBreakpoint stop bid) = Some (sk_state stop)"
| "command_state_context (CmdPause run) = Some (rk_state run)"
| "command_state_context (CmdReadMemory view address sz) = Some (read_view_state view)"
| "command_state_context (CmdReadRegisters view thread) = Some (read_view_state view)"
| "command_state_context (CmdCaptureSnapshot live) = Some (live_state live)"
| "command_state_context (CmdDetach live) = Some (live_state live)"
| "command_state_context (CmdTerminate execution) = Some (execution_state execution)"
| "command_state_context (CmdClose state) = Some state"

definition verify_observed_memory :: "debug_command \<Rightarrow> u8 list \<Rightarrow> protocol_error + unit" where
  "verify_observed_memory c observed = (case c of
     CmdWriteMemory stop address expected replacement \<Rightarrow> guard (observed = expected) PeMemoryWriteConflict
   | _ \<Rightarrow> Inl PeNotMemoryWriteCommand)"

section \<open>Session states\<close>

datatype (plugins only: code size) stop_reason =
    SrInitial
  | SrUserPause
  | SrBreakpoint breakpoint_id
  | SrSingleStep
  | SrException u32 bool memory_address

datatype (plugins only: code size) session_state =
    StIdle state_token
  | StOpening state_token debug_target
  | StAwaitingAttestation state_token process_identity
  | StAttestationAccepted state_token
  | StOffline state_token
  | StDump state_token
  | StSnapshot state_token snapshot_id
  | StObserving state_token process_id
  | StStopped stop_token stop_reason thread_id
  | StRunning run_token
  | StPausing state_token
  | StClosing state_token
  | StDetached state_token
  | StExited state_token u32
  | StFailed state_token string
  | StClosed state_token

primrec session_state_token :: "session_state \<Rightarrow> state_token" where
  "session_state_token (StIdle token) = token"
| "session_state_token (StOpening token target) = token"
| "session_state_token (StAwaitingAttestation token process) = token"
| "session_state_token (StAttestationAccepted token) = token"
| "session_state_token (StOffline token) = token"
| "session_state_token (StDump token) = token"
| "session_state_token (StSnapshot token i) = token"
| "session_state_token (StObserving token pid) = token"
| "session_state_token (StPausing token) = token"
| "session_state_token (StClosing token) = token"
| "session_state_token (StDetached token) = token"
| "session_state_token (StExited token code) = token"
| "session_state_token (StFailed token message) = token"
| "session_state_token (StClosed token) = token"
| "session_state_token (StStopped token reason thread) = sk_state token"
| "session_state_token (StRunning token) = rk_state token"

primrec session_kind :: "session_state \<Rightarrow> session_state_kind" where
  "session_kind (StIdle token) = KIdle"
| "session_kind (StOpening token target) = KOpening"
| "session_kind (StAwaitingAttestation token process) = KAwaitingAttestation"
| "session_kind (StAttestationAccepted token) = KAttestationAccepted"
| "session_kind (StOffline token) = KOffline"
| "session_kind (StDump token) = KDump"
| "session_kind (StSnapshot token i) = KSnapshot"
| "session_kind (StObserving token pid) = KObserving"
| "session_kind (StStopped stop reason thread) = KStopped"
| "session_kind (StRunning run) = KRunning"
| "session_kind (StPausing token) = KPausing"
| "session_kind (StClosing token) = KClosing"
| "session_kind (StDetached token) = KDetached"
| "session_kind (StExited token code) = KExited"
| "session_kind (StFailed token message) = KFailed"
| "session_kind (StClosed token) = KClosed"

primrec successor_kinds :: "session_state_kind \<Rightarrow> session_state_kind list" where
  "successor_kinds KIdle = [KOpening, KClosing, KFailed]"
| "successor_kinds KOpening =
     [KAwaitingAttestation, KOffline, KDump, KObserving, KStopped, KClosing, KFailed]"
| "successor_kinds KAwaitingAttestation = [KAttestationAccepted, KClosing, KFailed]"
| "successor_kinds KAttestationAccepted = [KStopped, KExited, KClosing, KFailed]"
| "successor_kinds KOffline = [KClosing, KFailed]"
| "successor_kinds KDump = [KClosing, KFailed]"
| "successor_kinds KSnapshot = [KClosing, KFailed]"
| "successor_kinds KObserving = [KDetached, KClosing, KFailed]"
| "successor_kinds KStopped = [KStopped, KRunning, KDetached, KExited, KClosing, KFailed]"
| "successor_kinds KRunning = [KStopped, KPausing, KDetached, KExited, KClosing, KFailed]"
| "successor_kinds KPausing = [KStopped, KExited, KClosing, KFailed]"
| "successor_kinds KDetached = [KClosing, KFailed]"
| "successor_kinds KExited = [KClosing, KFailed]"
| "successor_kinds KFailed = [KFailed, KClosing]"
| "successor_kinds KClosing = [KClosed, KFailed]"
| "successor_kinds KClosed = []"

definition validate_successor :: "session_state \<Rightarrow> session_state \<Rightarrow> protocol_error + unit" where
  "validate_successor current next =
     (let current_token = session_state_token current; next_token = session_state_token next in
     rbind (guard (tk_session_id next_token = tk_session_id current_token) PeStaleSession) (\<lambda>_.
     rbind (ok_or (checked_add (tk_generation current_token) 1) PeStateGenerationOverflow)
       (\<lambda>expected_generation.
     rbind (guard (tk_generation next_token = expected_generation)
        (PeUnexpectedStateGeneration expected_generation (tk_generation next_token))) (\<lambda>_.
     guard (session_kind next \<in> set (successor_kinds (session_kind current)))
        (PeInvalidSessionStateTransition (session_kind current) (session_kind next))))))"

primrec matches_read_view :: "session_state \<Rightarrow> read_view_token \<Rightarrow> bool" where
  "matches_read_view state (RvOffline view) = (case state of StOffline token \<Rightarrow> view = token | _ \<Rightarrow> False)"
| "matches_read_view state (RvDump view) = (case state of StDump token \<Rightarrow> view = token | _ \<Rightarrow> False)"
| "matches_read_view state (RvObserving view) =
     (case state of StObserving token _ \<Rightarrow> view = token | _ \<Rightarrow> False)"
| "matches_read_view state (RvSnapshot view i) =
     (case state of StSnapshot token actual \<Rightarrow> view = token \<and> i = actual | _ \<Rightarrow> False)"
| "matches_read_view state (RvStopped stop) =
     (case state of StStopped token _ _ \<Rightarrow> stop = token | _ \<Rightarrow> False)"

primrec matches_live :: "session_state \<Rightarrow> live_token \<Rightarrow> bool" where
  "matches_live state (LvStopped stop) = (case state of StStopped token _ _ \<Rightarrow> stop = token | _ \<Rightarrow> False)"
| "matches_live state (LvRunning run) = (case state of StRunning token \<Rightarrow> run = token | _ \<Rightarrow> False)"
| "matches_live state (LvObserving view) =
     (case state of StObserving token _ \<Rightarrow> view = token | _ \<Rightarrow> False)"

primrec matches_execution :: "session_state \<Rightarrow> execution_token \<Rightarrow> bool" where
  "matches_execution state (EtStopped stop) =
     (case state of StStopped token _ _ \<Rightarrow> stop = token | _ \<Rightarrow> False)"
| "matches_execution state (EtRunning run) =
     (case state of StRunning token \<Rightarrow> run = token | _ \<Rightarrow> False)"

section \<open>Command envelopes\<close>

record command_envelope =
  ce_version :: protocol_version
  ce_command_id :: command_id
  ce_session_id :: "session_id option"
  ce_expected_state :: "state_token option"
  ce_command :: debug_command

definition command_envelope_validate :: "command_envelope \<Rightarrow> protocol_error + unit" where
  "command_envelope_validate e =
     rbind (protocol_version_validate (ce_version e)) (\<lambda>_.
     rbind (debug_command_validate (ce_command e)) (\<lambda>_.
     if ce_command e = CmdProbeCapabilities
     then guard (ce_session_id e = None \<and> ce_expected_state e = None) PeUnexpectedSessionContext
     else
       rbind (ok_or (ce_session_id e) PeMissingSessionContext) (\<lambda>sid.
       rbind (ok_or (ce_expected_state e) PeMissingStateToken) (\<lambda>expected.
       rbind (guard (tk_session_id expected = sid) PeStaleSession) (\<lambda>_.
       case command_state_context (ce_command e) of
         Some command_state \<Rightarrow> guard (command_state = expected) PeStaleStateToken
       | None \<Rightarrow> Inr ())))))"

text \<open>
  The \<open>match\<close> of \<open>validate_against\<close> on the command and the state, command first; \<open>stopped_at\<close>
  is the arm its six stop-token commands share.
\<close>

definition stopped_at :: "stop_token \<Rightarrow> session_state \<Rightarrow> bool" where
  "stopped_at stop state = (case state of StStopped token _ _ \<Rightarrow> stop = token | _ \<Rightarrow> False)"

primrec command_allowed :: "debug_command \<Rightarrow> session_state \<Rightarrow> bool" where
  "command_allowed CmdProbeCapabilities state = False"
| "command_allowed (CmdOpen target) state = (case state of StIdle _ \<Rightarrow> True | _ \<Rightarrow> False)"
| "command_allowed (CmdContinue stop) state = stopped_at stop state"
| "command_allowed (CmdStep stop tid kind) state = stopped_at stop state"
| "command_allowed (CmdWriteMemory stop address expected replacement) state = stopped_at stop state"
| "command_allowed (CmdWriteRegisters stop tid registers) state = stopped_at stop state"
| "command_allowed (CmdSetBreakpoint stop breakpoint persistence) state = stopped_at stop state"
| "command_allowed (CmdRemoveBreakpoint stop bid) state = stopped_at stop state"
| "command_allowed (CmdPause run) state = (case state of StRunning token \<Rightarrow> run = token | _ \<Rightarrow> False)"
| "command_allowed (CmdReadMemory view address sz) state = matches_read_view state view"
| "command_allowed (CmdReadRegisters view tid) state = matches_read_view state view"
| "command_allowed (CmdCaptureSnapshot live) state = matches_live state live"
| "command_allowed (CmdDetach live) state = matches_live state live"
| "command_allowed (CmdTerminate execution) state = matches_execution state execution"
| "command_allowed (CmdClose token) state = (case state of StClosed _ \<Rightarrow> False | _ \<Rightarrow> True)"

definition command_validate_against ::
    "command_envelope \<Rightarrow> session_state \<Rightarrow> protocol_error + unit" where
  "command_validate_against e state =
     rbind (command_envelope_validate e) (\<lambda>_.
     if ce_command e = CmdProbeCapabilities then Inr () else
     (let actual = session_state_token state in
     rbind (guard (ce_session_id e = Some (tk_session_id actual)) PeStaleSession) (\<lambda>_.
     rbind (guard (ce_expected_state e = Some actual) PeStaleStateToken) (\<lambda>_.
     if command_allowed (ce_command e) state then Inr ()
     else (case ce_command e of
        CmdClose token \<Rightarrow> Inl PeCommandNotAllowedInState
      | _ \<Rightarrow> (if command_state_context (ce_command e) \<noteq> None then Inl PeStaleExecutionToken
              else Inl PeCommandNotAllowedInState))))))"

section \<open>Memory-write failures\<close>

definition is_rollback_safe :: "memory_write_recovery \<Rightarrow> bool" where
  "is_rollback_safe r = (case r of
     MrNoWriteAttempted protection_restored \<Rightarrow> protection_restored
   | MrRestored \<Rightarrow> True
   | MrIndeterminate _ _ _ \<Rightarrow> False)"

record memory_write_failure =
  mf_stop :: stop_token
  mf_address :: memory_address
  mf_size :: u32
  mf_stage :: memory_write_stage
  mf_recovery :: memory_write_recovery
  mf_detail :: string

definition before_write :: "memory_write_stage \<Rightarrow> bool" where
  "before_write stage \<longleftrightarrow> stage \<in> {MwChangeProtection, MwProtectionRace, MwRevalidateExpectedBytes}"

definition memory_write_failure_validate :: "memory_write_failure \<Rightarrow> protocol_error + unit" where
  "memory_write_failure_validate f =
     (let sz = unat (mf_size f) in
     rbind (guard (mf_size f \<noteq> 0) PeEmptyMemoryWrite) (\<lambda>_.
     rbind (guard (sz \<le> MAX_MEMORY_WRITE_BYTES) (PeMemoryWriteTooLarge sz MAX_MEMORY_WRITE_BYTES)) (\<lambda>_.
     rbind (validate_span (mf_address f) sz) (\<lambda>_.
     rbind (validate_reason (mf_detail f)) (\<lambda>_.
     guard (case mf_recovery f of
         MrNoWriteAttempted _ \<Rightarrow> before_write (mf_stage f)
       | MrRestored \<Rightarrow> \<not> before_write (mf_stage f)
       | MrIndeterminate bytes_restored instruction_cache_flushed protection_restored \<Rightarrow>
           \<not> (before_write (mf_stage f)
              \<or> (bytes_restored \<and> instruction_cache_flushed \<and> protection_restored)))
       (PeMemoryWriteFailureRecoveryMismatch (mf_stage f) (mf_recovery f)))))))"

section \<open>Events\<close>

datatype (plugins only: code size) breakpoint_change = BcSet breakpoint_persistence | BcRemoved

datatype (plugins only: code size) command_outcome = CoSucceeded | CoRejected string string

definition command_outcome_validate :: "command_outcome \<Rightarrow> protocol_error + unit" where
  "command_outcome_validate outcome = (case outcome of
     CoRejected code message \<Rightarrow> rbind (validate_reason code) (\<lambda>_. validate_reason message)
   | CoSucceeded \<Rightarrow> Inr ())"

datatype (plugins only: code size) debug_event =
    EvCapabilities capability_report
  | EvStateChanged session_state
  | EvLiveTargetBound state_token live_target_binding
  | EvMemoryRead read_view_token memory_address "u8 list"
  | EvMemoryWritten stop_token memory_address "u8 list" "u8 list"
  | EvRegistersRead read_view_token thread_id register_set
  | EvRegistersWritten stop_token thread_id register_set register_set
  | EvMemoryWriteFailed memory_write_failure
  | EvBreakpointChanged stop_token breakpoint_spec breakpoint_change
  | EvSandboxAttested sandbox_attestation
  | EvSandboxLifecycle sandbox_lifecycle_event
  | EvCommandResult command_id command_outcome
  | EvWarning string string

definition debug_event_validate :: "debug_event \<Rightarrow> protocol_error + unit" where
  "debug_event_validate event = (case event of
     EvCapabilities report \<Rightarrow> capability_report_validate report
   | EvLiveTargetBound _ _ \<Rightarrow> Inr ()
   | EvStateChanged state \<Rightarrow> (case state of StFailed _ message \<Rightarrow> validate_reason message | _ \<Rightarrow> Inr ())
   | EvSandboxLifecycle lifecycle \<Rightarrow> (case lifecycle of
        SleFailed failure \<Rightarrow> map_err PeSandboxFailure (validate_stage_kind failure)
      | SleCleanupAttemptFailed attempt \<Rightarrow>
          map_err PeCleanupAttemptFailure (cleanup_attempt_validate attempt)
      | _ \<Rightarrow> Inr ())
   | EvSandboxAttested _ \<Rightarrow> Inr ()
   | EvMemoryRead _ address bytes \<Rightarrow>
       (if bytes = [] \<or> unat MAX_MEMORY_READ_BYTES < length bytes then Inl PeInvalidMemoryReadResult
        else validate_span address (length bytes))
   | EvMemoryWritten _ address before after \<Rightarrow> validate_memory_write address before after
   | EvRegistersRead _ _ registers \<Rightarrow> register_set_validate registers
   | EvRegistersWritten _ _ before after \<Rightarrow>
       rbind (register_set_validate before) (\<lambda>_. register_set_validate after)
   | EvMemoryWriteFailed failure \<Rightarrow> memory_write_failure_validate failure
   | EvBreakpointChanged _ breakpoint _ \<Rightarrow> breakpoint_spec_validate breakpoint
   | EvCommandResult _ outcome \<Rightarrow> command_outcome_validate outcome
   | EvWarning code message \<Rightarrow> rbind (validate_reason code) (\<lambda>_. validate_reason message))"

definition event_state_context :: "debug_event \<Rightarrow> state_token option" where
  "event_state_context event = (case event of
     EvStateChanged state \<Rightarrow> Some (session_state_token state)
   | EvLiveTargetBound state _ \<Rightarrow> Some state
   | EvMemoryRead view _ _ \<Rightarrow> Some (read_view_state view)
   | EvRegistersRead view _ _ \<Rightarrow> Some (read_view_state view)
   | EvMemoryWritten stop _ _ _ \<Rightarrow> Some (sk_state stop)
   | EvRegistersWritten stop _ _ _ \<Rightarrow> Some (sk_state stop)
   | EvBreakpointChanged stop _ _ \<Rightarrow> Some (sk_state stop)
   | EvMemoryWriteFailed failure \<Rightarrow> Some (sk_state (mf_stop failure))
   | EvSandboxAttested _ \<Rightarrow> None
   | EvSandboxLifecycle _ \<Rightarrow> None
   | EvCapabilities _ \<Rightarrow> None
   | EvCommandResult _ _ \<Rightarrow> None
   | EvWarning _ _ \<Rightarrow> None)"

record event_envelope =
  ee_version :: protocol_version
  ee_sequence :: event_sequence
  ee_session_id :: "session_id option"
  ee_state :: "state_token option"
  ee_caused_by :: "command_id option"
  ee_event :: debug_event

text \<open>The session named inside a sandbox event; \<open>None\<close> for every other event.\<close>

definition sandbox_event_session :: "debug_event \<Rightarrow> session_id option" where
  "sandbox_event_session event = (case event of
     EvSandboxAttested attestation \<Rightarrow> Some (sa_session_id attestation)
   | EvSandboxLifecycle lifecycle \<Rightarrow> Some (case lifecycle of
        SleState sid _ \<Rightarrow> sid
      | SleAttested attestation \<Rightarrow> sa_session_id attestation
      | SleProviderUnavailable unavailable \<Rightarrow> pu_session_id unavailable
      | SleFailed failure \<Rightarrow> sf_session_id failure
      | SleCleanupAttemptFailed attempt \<Rightarrow> sf_session_id (ca_failure attempt)
      | SleClosed receipt \<Rightarrow> cr_session_id receipt)
   | _ \<Rightarrow> None)"

definition event_envelope_validate :: "event_envelope \<Rightarrow> protocol_error + unit" where
  "event_envelope_validate e =
     rbind (protocol_version_validate (ee_version e)) (\<lambda>_.
     rbind (debug_event_validate (ee_event e)) (\<lambda>_.
     rbind (case ee_event e of
         EvCommandResult cid _ \<Rightarrow> guard (ee_caused_by e = Some cid) PeMismatchedCommandCorrelation
       | _ \<Rightarrow> Inr ()) (\<lambda>_.
     rbind (case event_state_context (ee_event e) of
         Some event_state \<Rightarrow>
           rbind (guard (ee_session_id e = Some (tk_session_id event_state)) PeStaleSession) (\<lambda>_.
           guard (ee_state e = Some event_state) PeStaleStateToken)
       | None \<Rightarrow> Inr ()) (\<lambda>_.
     case sandbox_event_session (ee_event e) of
       None \<Rightarrow> Inr ()
     | Some inner_session \<Rightarrow>
         rbind (ok_or (ee_session_id e) PeMissingSessionContext) (\<lambda>outer_session.
         rbind (ok_or (ee_state e) PeMissingSessionContext) (\<lambda>outer_state.
         rbind (guard (tk_session_id outer_state = outer_session) PeStaleStateToken) (\<lambda>_.
         guard (inner_session = outer_session) PeStaleSession)))))))"

record event_sequence_cursor =
  ec_last :: "event_sequence option"

definition event_cursor_observe ::
    "event_sequence \<Rightarrow> (event_sequence_cursor, protocol_error, unit) sm" where
  "event_cursor_observe sequence =
     and_then (lift_result (\<lambda>c. case ec_last c of
         Some l \<Rightarrow> ok_or (checked_add l 1) PeEventSequenceOverflow
       | None \<Rightarrow> Inr 1)) (\<lambda>expected.
     and_then (lift_result (\<lambda>_. guard (sequence = expected)
         (PeUnexpectedEventSequence expected sequence))) (\<lambda>_.
     modify (\<lambda>c. c\<lparr>ec_last := Some sequence\<rparr>)))"

end
