(* ===== verification/Protocol_Laws.thy ===== *)
theory Protocol_Laws
  imports Protocol
begin

text \<open>
  What the validations of \<open>protocol.rs\<close> establish: spans without overflow, the checked
  translation between image offsets and addresses, exact capability reports and register lists,
  canonical write failures, state-bound commands that do not survive a state change, events about
  one session, and gap-free event sequences.
\<close>

section \<open>Spans and identifiers\<close>

lemma validate_span_iff: "validate_span a n = Inr u \<longleftrightarrow> unat a + n < 2 ^ 64"
proof -
  have "unat (of_nat n :: u64) = n" if "n < 2 ^ 64"
    using that by (simp add: unat_of_nat take_bit_nat_eq_self)
  then show ?thesis
    by (auto simp: validate_span_def checked_add_unat intro: le_less_trans)
qed

lemma nonzero_id_new_Inr_iff [simp]: "nonzero_id_new k v = Inr w \<longleftrightarrow> v \<noteq> 0 \<and> w = v"
  by (auto simp: nonzero_id_new_def)

lemma checked_next_Inr_iff:
  "state_generation_checked_next g = Inr h \<longleftrightarrow> checked_add g 1 = Some h"
  by (auto simp: state_generation_checked_next_def dest: checked_add_one_nonzero)

lemma checked_next_error:
  "state_generation_checked_next g = Inl e \<longleftrightarrow> checked_add g 1 = None \<and> e = PeStateGenerationOverflow"
  by (cases "checked_add g 1")
    (auto simp: state_generation_checked_next_def nonzero_id_new_def dest: checked_add_one_nonzero)

section \<open>Live target bindings\<close>

definition binding_wf :: "live_target_binding \<Rightarrow> bool" where
  "binding_wf b \<longleftrightarrow>
     pi_binary_id (lt_process b) = lt_main_module_binary_id b
     \<and> lt_actual_image_base b \<noteq> 0 \<and> lt_size_of_image b \<noteq> 0
     \<and> unat (lt_actual_image_base b) + unat (lt_size_of_image b) < 2 ^ 64"

lemma unat_ucast_up: "LENGTH('a) \<le> LENGTH('b) \<Longrightarrow> unat (ucast (w :: 'a::len word) :: 'b::len word) = unat w"
proof -
  assume "LENGTH('a) \<le> LENGTH('b)"
  then have "(2 :: nat) ^ LENGTH('a) \<le> 2 ^ LENGTH('b)" by (rule power_increasing) simp
  then have "unat w < 2 ^ LENGTH('b)" by (rule less_le_trans [OF unat_bound])
  then show ?thesis by (simp add: unsigned_ucast_eq take_bit_nat_eq_self)
qed

lemma unat_ucast_u32 [simp]: "unat (ucast (w :: u32) :: u64) = unat w"
  by (rule unat_ucast_up) simp

lemma binding_new_iff:
  "live_target_binding_new p m base sz = Inr b \<longleftrightarrow>
     b = \<lparr>lt_process = p, lt_main_module_binary_id = m, lt_actual_image_base = base,
          lt_size_of_image = sz\<rparr> \<and> binding_wf b"
  by (auto simp: live_target_binding_new_def binding_wf_def checked_add_unat)

lemma address_for_rva_span_iff:
  assumes "binding_wf b"
  shows "address_for_rva_span b rva sz = Inr a \<longleftrightarrow>
     sz \<noteq> 0 \<and> unat rva + unat sz \<le> unat (lt_size_of_image b)
     \<and> unat a = unat (lt_actual_image_base b) + unat rva"
proof -
  let ?base = "lt_actual_image_base b" and ?n = "lt_size_of_image b"
  have small: "unat ?base + unat ?n < 2 ^ 64" "unat ?n < 2 ^ 64"
    using assms unfolding binding_wf_def by auto
  have pos: "0 < unat sz \<longleftrightarrow> sz \<noteq> 0" by (simp add: unat_gt_0)
  have "address_for_rva_span b rva sz = Inr a \<longleftrightarrow>
      sz \<noteq> 0 \<and> unat rva < unat ?n \<and> (unat rva + unat sz < 2 ^ 64 \<and> unat (rva + sz) \<le> unat ?n)
      \<and> unat ?base + unat rva < 2 ^ 64 \<and> a = ?base + rva"
    by (auto simp: address_for_rva_span_def checked_add_unat word_less_nat_alt word_le_nat_alt)
  also have "\<dots> \<longleftrightarrow> sz \<noteq> 0 \<and> unat rva + unat sz \<le> unat ?n \<and> unat a = unat ?base + unat rva"
    using small pos
    by (auto simp: unat_word_ariths word_unat_eq_iff)
  finally show ?thesis .
qed

lemma image_end_wf:
  assumes "binding_wf b"
  shows "\<exists>e. image_end b = Inr e
     \<and> unat e = unat (lt_actual_image_base b) + unat (lt_size_of_image b)"
  using assms unfolding binding_wf_def image_end_def
  by (auto simp: checked_add_def unat_word_ariths)

lemma rva_for_address_span_iff:
  assumes "binding_wf b"
  shows "rva_for_address_span b a sz = Inr rva \<longleftrightarrow>
     sz \<noteq> 0 \<and> unat rva + unat sz \<le> unat (lt_size_of_image b)
     \<and> unat a = unat (lt_actual_image_base b) + unat rva"
proof -
  let ?base = "lt_actual_image_base b" and ?n = "lt_size_of_image b"
  obtain e where e: "image_end b = Inr e" "unat e = unat ?base + unat ?n"
    using image_end_wf [OF assms] by blast
  have lt: "unat e < 2 ^ 64" using unat_bound [of e] by simp
  have "rva_for_address_span b a sz = Inr rva \<longleftrightarrow>
      sz \<noteq> 0 \<and> ?base \<le> a \<and> rva = a - ?base \<and> unat rva < unat ?n
      \<and> unat a + unat sz < 2 ^ 64 \<and> unat (a + sz) \<le> unat e"
    by (auto simp: rva_for_address_span_def Let_def e(1) checked_add_unat checked_sub_def
        word_less_nat_alt word_le_nat_alt split: if_splits)
  also have "\<dots> \<longleftrightarrow> sz \<noteq> 0 \<and> unat rva + unat sz \<le> unat ?n \<and> unat a = unat ?base + unat rva"
    (is "?l \<longleftrightarrow> ?r")
  proof
    assume ?l
    then have "unat rva = unat a - unat ?base" "unat ?base \<le> unat a"
      by (auto simp: unat_sub word_le_nat_alt)
    then show ?r using \<open>?l\<close> e(2) by (auto simp: unat_word_ariths)
  next
    assume r: ?r
    then have "?base \<le> a" by (simp add: word_le_nat_alt)
    moreover have "rva = a - ?base"
      using r calculation by (simp add: word_unat_eq_iff unat_sub)
    moreover have "0 < unat sz" using r by (simp add: unat_gt_0)
    ultimately show ?l using r e(2) lt by (auto simp: unat_word_ariths)
  qed
  finally show ?thesis .
qed

lemma rva_for_address_no_panic:
  assumes "binding_wf b"
  shows "rva_for_address_span b a sz \<noteq> Inl LtePanic"
  using image_end_wf [OF assms]
  by (auto simp: rva_for_address_span_def Let_def rbind_Inl_iff ok_or_def split: option.splits)

text \<open>
  C37. Offset and address translation are exact inverses on a constructed binding: a span of
  offsets translates to an address precisely when that address span translates back to the offset,
  the span then lies inside the image, and the panic of \<open>image_end\<close> is unreachable.
\<close>

theorem rva_address_inverse:
  assumes "live_target_binding_new p m base n = Inr b"
  shows "(address_for_rva_span b rva sz = Inr a \<longleftrightarrow> rva_for_address_span b a sz = Inr rva)
    \<and> (address_for_rva_span b rva sz = Inr a \<longrightarrow>
         base \<le> a \<and> unat a + unat sz \<le> unat base + unat n)
    \<and> rva_for_address_span b a sz \<noteq> Inl LtePanic \<and> image_end b \<noteq> Inl LtePanic"
proof -
  have b: "binding_wf b" "lt_actual_image_base b = base" "lt_size_of_image b = n"
    using assms by (auto simp: binding_new_iff)
  have "address_for_rva_span b rva sz = Inr a \<longleftrightarrow> rva_for_address_span b a sz = Inr rva"
    by (simp add: address_for_rva_span_iff [OF b(1)] rva_for_address_span_iff [OF b(1)])
  moreover have "base \<le> a \<and> unat a + unat sz \<le> unat base + unat n"
    if "address_for_rva_span b rva sz = Inr a"
    using that by (auto simp: address_for_rva_span_iff [OF b(1)] b word_le_nat_alt)
  ultimately show ?thesis
    using rva_for_address_no_panic [OF b(1)] image_end_wf [OF b(1)] by auto
qed

section \<open>Launch targets, capabilities and registers\<close>

lemma launch_argument_bytes_iff:
  "launch_argument_bytes n as = Inr m \<longleftrightarrow>
     (\<forall>a \<in> set as. CHR 0x00 \<notin> set a) \<and> m = n + sum_list (map length as)
     \<and> (as \<noteq> [] \<longrightarrow> m < 2 ^ 64)"
proof (induction as arbitrary: n)
  case (Cons a as)
  show ?case by (cases "as = []") (auto simp: Cons.IH)
qed auto

lemma launch_target_validate_iff:
  "launch_target_validate t = Inr u \<longleftrightarrow>
     la_executable t \<noteq> [] \<and> la_working_directory t \<noteq> Some [] \<and> length (la_arguments t) \<le> 128
     \<and> (\<forall>a \<in> set (la_arguments t). CHR 0x00 \<notin> set a)
     \<and> sum_list (map length (la_arguments t)) \<le> 256 * 1024 \<and> la_stop_before_entry t"
  by (auto simp: launch_target_validate_def validate_path_def launch_argument_bytes_iff
      protocol_bounds)

lemma collect_capabilities_iff:
  "collect_capabilities seen ss = Inr s \<longleftrightarrow>
     (\<forall>c \<in> set ss. availability_validate (cs_availability c) = Inr ())
     \<and> distinct (map cs_capability ss) \<and> seen \<inter> cs_capability ` set ss = {}
     \<and> s = seen \<union> cs_capability ` set ss"
  by (induction ss arbitrary: seen) auto

lemma debug_capability_all_UNIV: "set debug_capability_all = UNIV"
  by (auto simp: debug_capability_all_def) (metis debug_capability.exhaust)

lemma capability_card: "distinct cs \<Longrightarrow> length cs \<le> 17" for cs :: "debug_capability list"
proof -
  assume "distinct cs"
  then have "length cs = card (set cs)" by (simp add: distinct_card)
  also have "\<dots> \<le> card (set debug_capability_all)"
    by (rule card_mono [OF finite_set]) (simp add: debug_capability_all_UNIV)
  also have "\<dots> \<le> length debug_capability_all" by (rule card_length)
  finally show ?thesis by (simp add: debug_capability_all_def)
qed

text \<open>
  A capability report is valid exactly when it states every capability exactly once and
  every reason it gives is well formed; the bound of 64 statuses then never rejects it.
\<close>

theorem capability_report_exact:
  "capability_report_validate r = Inr () \<longleftrightarrow>
     distinct (map cs_capability (rp_statuses r)) \<and> cs_capability ` set (rp_statuses r) = UNIV
     \<and> list_all (\<lambda>s. availability_validate (cs_availability s) = Inr ()) (rp_statuses r)"
  using capability_card [of "map cs_capability (rp_statuses r)"]
  by (auto simp: capability_report_validate_def Let_def collect_capabilities_iff try_each_Inr_iff
      debug_capability_all_UNIV protocol_bounds list_all_iff)

lemma distinct_register_names_iff:
  "distinct_register_names seen rs = Inr u \<longleftrightarrow>
     distinct (map rv_name rs) \<and> seen \<inter> rv_name ` set rs = {}"
  by (induction rs arbitrary: seen) auto

lemma validate_register_list_iff:
  "validate_register_list rs = Inr u \<longleftrightarrow> length rs \<le> 256 \<and> distinct (map rv_name rs)"
  by (simp add: validate_register_list_def distinct_register_names_iff protocol_bounds)

lemma validate_memory_write_iff:
  "validate_memory_write a old new = Inr u \<longleftrightarrow>
     old \<noteq> [] \<and> length new = length old \<and> length old \<le> 64 * 1024 \<and> unat a + length old < 2 ^ 64"
  by (auto simp: validate_memory_write_def validate_span_iff protocol_bounds)

lemma breakpoint_size_aligned:
  assumes "breakpoint_spec_validate b = Inr u" "bp_kind b = BkHardware access n" "access \<noteq> HaExecute"
  shows "n \<in> {1, 2, 4, 8} \<and> bp_address b mod ucast n = 0 \<and> unat (bp_address b) + unat n < 2 ^ 64"
  using assms by (auto simp: breakpoint_spec_validate_def validate_span_iff)

text \<open>
  A data watchpoint that validates watches a naturally aligned power-of-two block that does
  not wrap, and an execute breakpoint or a software breakpoint covers one byte.
\<close>

theorem breakpoint_valid_shape:
  "breakpoint_spec_validate b = Inr () \<longleftrightarrow>
     (case bp_kind b of
        BkSoftware \<Rightarrow> unat (bp_address b) + 1 < 2 ^ 64
      | BkHardware HaExecute n \<Rightarrow> n = 1 \<and> unat (bp_address b) + 1 < 2 ^ 64
      | BkHardware _ n \<Rightarrow> n \<in> {1, 2, 4, 8} \<and> unat n dvd unat (bp_address b)
          \<and> unat (bp_address b) + unat n < 2 ^ 64)"
proof -
  have "bp_address b mod ucast n = 0 \<longleftrightarrow> unat n dvd unat (bp_address b)" for n :: u8
  proof -
    have "unat (ucast n :: u64) = unat n" by (rule unat_ucast_up) simp
    then show ?thesis by (simp add: word_unat_eq_iff unat_mod dvd_eq_mod_eq_0)
  qed
  then show ?thesis
    by (auto simp: breakpoint_spec_validate_def validate_span_iff
        split: breakpoint_kind.splits hardware_access.splits)
qed

section \<open>Memory-write failures\<close>


section \<open>Commands bound to states\<close>

lemma validate_successor_iff:
  "validate_successor s t = Inr u \<longleftrightarrow>
     tk_session_id (session_state_token t) = tk_session_id (session_state_token s)
     \<and> checked_add (tk_generation (session_state_token s)) 1 = Some (tk_generation (session_state_token t))
     \<and> session_kind t \<in> set (successor_kinds (session_kind s))"
  by (auto simp: validate_successor_def Let_def)

lemma validate_against_iff:
  assumes "ce_command e \<noteq> CmdProbeCapabilities"
  shows "command_validate_against e s = Inr u \<longleftrightarrow>
     command_envelope_validate e = Inr ()
     \<and> ce_session_id e = Some (tk_session_id (session_state_token s))
     \<and> ce_expected_state e = Some (session_state_token s) \<and> command_allowed (ce_command e) s"
  using assms
  by (cases "ce_command e") (auto simp: command_validate_against_def Let_def)

text \<open>
  C38. A command does not survive a state change: whatever a session accepted in one state is
  stale in every successor the protocol allows, except the stateless capability probe.
\<close>

theorem accepted_command_goes_stale:
  assumes "command_validate_against e s = Inr ()" "validate_successor s t = Inr ()"
    and "ce_command e \<noteq> CmdProbeCapabilities"
  shows "command_validate_against e t = Inl PeStaleStateToken"
proof -
  have v: "command_envelope_validate e = Inr ()"
    and sid: "ce_session_id e = Some (tk_session_id (session_state_token s))"
    and tok: "ce_expected_state e = Some (session_state_token s)"
    using assms(1) by (simp_all add: validate_against_iff [OF assms(3)])
  have sess: "tk_session_id (session_state_token t) = tk_session_id (session_state_token s)"
    and gen: "checked_add (tk_generation (session_state_token s)) 1 = Some (tk_generation (session_state_token t))"
    using assms(2) by (auto simp: validate_successor_iff)
  have "session_state_token s \<noteq> session_state_token t"
    using checked_add_one_nonzero(2) [OF gen] by auto
  then show ?thesis
    using assms(3) by (simp add: command_validate_against_def Let_def v sid tok sess)
qed

text \<open>A history that a consumer of state events accepts.\<close>

fun accepted_history :: "session_state list \<Rightarrow> bool" where
  "accepted_history (s # t # ts) \<longleftrightarrow> validate_successor s t = Inr () \<and> accepted_history (t # ts)"
| "accepted_history _ = True"

lemma accepted_history_generations:
  assumes "accepted_history ss" "ss \<noteq> []" "i < length ss"
  shows "unat (tk_generation (session_state_token (ss ! i)))
     = unat (tk_generation (session_state_token (hd ss))) + i"
  using assms
proof (induction ss arbitrary: i rule: accepted_history.induct)
  case (1 s t ts)
  show ?case
  proof (cases i)
    case (Suc j)
    have "unat (tk_generation (session_state_token t))
        = Suc (unat (tk_generation (session_state_token s)))"
      using 1(2) by (auto simp: validate_successor_iff dest: checked_add_one_nonzero(3))
    then show ?thesis using 1 Suc by simp
  qed simp
qed auto

lemma accepted_history_closed:
  assumes "accepted_history ss" "i < length ss" "session_kind (ss ! i) = KClosed"
  shows "i = length ss - 1"
  using assms
proof (induction ss arbitrary: i rule: accepted_history.induct)
  case (1 s t ts)
  have "i \<noteq> 0"
  proof
    assume "i = 0"
    then have "session_kind s = KClosed" using 1(4) by simp
    then show False using 1(2) by (simp add: validate_successor_iff)
  qed
  then obtain j where "i = Suc j" by (cases i) auto
  then show ?case using 1 by simp
qed simp_all

text \<open>
  In a history of state events that a consumer accepts, generations count up by one without
  wrapping, so no state token ever occurs twice, and nothing follows a closed session.
\<close>

theorem accepted_history_fresh:
  assumes "accepted_history ss"
  shows "distinct (map session_state_token ss)
    \<and> (\<forall>i < length ss. session_kind (ss ! i) = KClosed \<longrightarrow> i = length ss - 1)"
proof (intro conjI allI impI)
  have "session_state_token (ss ! i) \<noteq> session_state_token (ss ! j)"
    if "i < length ss" "j < length ss" "i \<noteq> j" for i j
  proof
    let ?g = "\<lambda>s. unat (tk_generation (session_state_token s))"
    assume "session_state_token (ss ! i) = session_state_token (ss ! j)"
    then have "?g (ss ! i) = ?g (ss ! j)" by (rule arg_cong)
    moreover have "ss \<noteq> []" using that(1) by (cases ss) simp_all
    ultimately have "?g (hd ss) + i = ?g (hd ss) + j"
      using that(1,2) accepted_history_generations [OF assms] by metis
    then show False using that(3) by simp
  qed
  then show "distinct (map session_state_token ss)"
    unfolding distinct_conv_nth by simp
next
  fix i assume "i < length ss" "session_kind (ss ! i) = KClosed"
  then show "i = length ss - 1" by (rule accepted_history_closed [OF assms])
qed

section \<open>Events\<close>

text \<open>Feeding a cursor a list of sequence numbers.\<close>

fun observe_all :: "event_sequence list \<Rightarrow> (event_sequence_cursor, protocol_error, unit) sm" where
  "observe_all [] = ok ()"
| "observe_all (x # xs) = and_then (event_cursor_observe x) (\<lambda>_. observe_all xs)"

definition cursor_count :: "event_sequence_cursor \<Rightarrow> nat" where
  "cursor_count c = (case ec_last c of None \<Rightarrow> 0 | Some l \<Rightarrow> unat l)"

lemma unat_eq_one: "unat x = Suc 0 \<longleftrightarrow> x = 1"
  by (simp add: word_unat_eq_iff)

lemma event_cursor_observe_Inr:
  "event_cursor_observe x c = (Inr u, d) \<longleftrightarrow>
     unat x = Suc (cursor_count c) \<and> d = c\<lparr>ec_last := Some x\<rparr>"
proof (cases "ec_last c")
  case None
  then show ?thesis
    by (auto simp: event_cursor_observe_def and_then_Inr_iff sm_defs cursor_count_def unat_eq_one)
next
  case (Some l)
  have "checked_add l 1 = Some x \<longleftrightarrow> unat x = Suc (unat l)"
  proof
    assume "unat x = Suc (unat l)"
    then show "checked_add l 1 = Some x"
      using unat_bound [of x] by (auto simp: checked_add_def word_unat_eq_iff unat_word_ariths)
  qed (rule checked_add_one_nonzero(3))
  then show ?thesis using Some
    by (auto simp: event_cursor_observe_def and_then_Inr_iff sm_defs cursor_count_def)
qed

lemma event_cursor_observe_Inl: "event_cursor_observe x c = (Inl e, d) \<Longrightarrow> d = c"
  by (auto simp: event_cursor_observe_def and_then_Inl_iff sm_defs)

lemma observe_all_Inr:
  "(\<exists>d. observe_all xs c = (Inr (), d)) \<longleftrightarrow>
     map unat xs = [Suc (cursor_count c) ..< Suc (cursor_count c + length xs)]"
proof (induction xs arbitrary: c)
  case Nil
  then show ?case by (simp add: ok_def)
next
  case (Cons x xs)
  have "cursor_count (c\<lparr>ec_last := Some x\<rparr>) = unat x" by (simp add: cursor_count_def)
  then show ?case using Cons.IH [of "c\<lparr>ec_last := Some x\<rparr>"]
    by (auto simp: and_then_Inr_iff event_cursor_observe_Inr upt_conv_Cons simp del: upt_Suc)
qed

text \<open>
  A fresh cursor accepts exactly the sequence 1, 2, 3, and so on: no gap, no repetition, no
  reordering; and a rejected number leaves the cursor where it was.
\<close>

theorem event_cursor_gap_free:
  "((\<exists>d. observe_all xs \<lparr>ec_last = None\<rparr> = (Inr (), d)) \<longleftrightarrow> map unat xs = [1 ..< Suc (length xs)])
   \<and> (is_ok (fst (event_cursor_observe x c)) \<or> snd (event_cursor_observe x c) = c)"
proof
  show "(\<exists>d. observe_all xs \<lparr>ec_last = None\<rparr> = (Inr (), d)) \<longleftrightarrow> map unat xs = [1 ..< Suc (length xs)]"
    by (simp add: observe_all_Inr cursor_count_def)
  show "is_ok (fst (event_cursor_observe x c)) \<or> snd (event_cursor_observe x c) = c"
    using event_cursor_observe_Inl [of x c]
    by (cases "event_cursor_observe x c"; cases "fst (event_cursor_observe x c)") auto
qed

end
