(* ===== verification/Authorization.thy ===== *)
theory Authorization
  imports Protocol_Laws
begin

text \<open>
  The one-use authorization leases of \<open>resymbol-debugger/src/authorization.rs\<close>: the counter-mode
  identifier sequence, host launch intents, and the two issuers.  SHA-256 (\<open>sha\<close>) and the
  operating system's entropy (\<open>entropy\<close>: 32 bytes, or nothing when \<open>getrandom\<close> fails) are
  parameters.  \<open>AiePanic\<close> is the panic of the two \<open>expect\<close> calls.
\<close>

section \<open>Identifier sequences\<close>

definition AUTHORIZATION_ISSUER_SECRET_BYTES :: nat where
  "AUTHORIZATION_ISSUER_SECRET_BYTES = 32"

definition HOST_RISK_LEASE_DOMAIN :: string where
  "HOST_RISK_LEASE_DOMAIN = ''resymbol-host-risk-lease-v1''"

definition SANDBOX_OWNERSHIP_LEASE_DOMAIN :: string where
  "SANDBOX_OWNERSHIP_LEASE_DOMAIN = ''resymbol-sandbox-ownership-lease-v1''"

datatype issuance_error = AieEntropyUnavailable | AieIdentifierSequenceExhausted | AiePanic

record lease_id_sequence =
  ls_secret :: string
  ls_next_counter :: u128

definition lease_id_sequence_new :: "string option \<Rightarrow> issuance_error + lease_id_sequence" where
  "lease_id_sequence_new entropy =
     rbind (ok_or entropy AieEntropyUnavailable) (\<lambda>secret.
     Inr \<lparr>ls_secret = secret, ls_next_counter = 0\<rparr>)"

definition lease_message :: "string \<Rightarrow> string \<Rightarrow> u128 \<Rightarrow> string" where
  "lease_message domain secret counter = domain @ secret @ be_bytes 16 (unat counter)"

definition lease_id_issue ::
    "(string \<Rightarrow> string) \<Rightarrow> string \<Rightarrow> (lease_id_sequence, issuance_error, string) sm" where
  "lease_id_issue sha domain =
     and_then (gets ls_next_counter) (\<lambda>counter.
     and_then (lift_result (\<lambda>_. ok_or (checked_add counter 1) AieIdentifierSequenceExhausted)) (\<lambda>next.
     and_then (modify (\<lambda>s. s\<lparr>ls_next_counter := next\<rparr>)) (\<lambda>_.
     gets (\<lambda>s. hex_encode (sha (lease_message domain (ls_secret s) counter))))))"

section \<open>Host-risk leases\<close>

record host_launch_intent =
  hi_binary_id :: binary_id
  hi_executable :: path
  hi_arguments :: "string list"
  hi_working_directory :: "path option"
  hi_stop_before_entry :: bool

datatype host_risk_operation =
    HrLaunch host_launch_intent
  | HrAttach process_identity attach_mode

datatype host_launch_intent_error = HieSandboxedTarget

definition host_launch_intent_new ::
    "binary_id \<Rightarrow> path \<Rightarrow> string list \<Rightarrow> path option \<Rightarrow> bool \<Rightarrow> host_launch_intent" where
  "host_launch_intent_new bid executable arguments working_directory stop =
     \<lparr>hi_binary_id = bid, hi_executable = executable, hi_arguments = arguments,
      hi_working_directory = working_directory, hi_stop_before_entry = stop\<rparr>"

definition intent_from_target :: "launch_target \<Rightarrow> host_launch_intent_error + host_launch_intent" where
  "intent_from_target t = (case la_environment t of
     LeSandboxed _ \<Rightarrow> Inl HieSandboxedTarget
   | LeHost _ \<Rightarrow> Inr \<lparr>hi_binary_id = la_binary_id t, hi_executable = la_executable t,
        hi_arguments = la_arguments t, hi_working_directory = la_working_directory t,
        hi_stop_before_entry = la_stop_before_entry t\<rparr>)"

definition intent_into_target :: "host_launch_intent \<Rightarrow> host_risk_lease_id \<Rightarrow> launch_target" where
  "intent_into_target i risk_lease =
     \<lparr>la_binary_id = hi_binary_id i, la_executable = hi_executable i,
      la_arguments = hi_arguments i, la_working_directory = hi_working_directory i,
      la_environment = LeHost risk_lease, la_stop_before_entry = hi_stop_before_entry i\<rparr>"

record host_risk_verifier =
  hv_id :: host_risk_lease_id
  hv_session_id :: session_id
  hv_provisioning_epoch :: provisioning_epoch
  hv_operation :: host_risk_operation

definition host_risk_verifier_new ::
    "host_risk_lease_id \<Rightarrow> session_id \<Rightarrow> provisioning_epoch \<Rightarrow> host_risk_operation \<Rightarrow> host_risk_verifier" where
  "host_risk_verifier_new i sid epoch operation =
     \<lparr>hv_id = i, hv_session_id = sid, hv_provisioning_epoch = epoch, hv_operation = operation\<rparr>"

record host_risk_lease =
  hl_verifier :: host_risk_verifier

definition host_risk_lease_into_verifier :: "host_risk_lease \<Rightarrow> host_risk_verifier" where
  "host_risk_lease_into_verifier l = hl_verifier l"

record host_risk_lease_issuer =
  hr_sequence :: lease_id_sequence

definition host_risk_issuer_new :: "string option \<Rightarrow> issuance_error + host_risk_lease_issuer" where
  "host_risk_issuer_new entropy =
     rbind (lease_id_sequence_new entropy) (\<lambda>s. Inr \<lparr>hr_sequence = s\<rparr>)"

definition host_risk_issue ::
    "(string \<Rightarrow> string) \<Rightarrow> session_id \<Rightarrow> provisioning_epoch \<Rightarrow> host_risk_operation
     \<Rightarrow> (host_risk_lease_issuer, issuance_error, host_risk_lease \<times> host_risk_verifier) sm" where
  "host_risk_issue sha sid epoch operation issuer =
     (let (r, s) = lease_id_issue sha HOST_RISK_LEASE_DOMAIN (hr_sequence issuer) in
      (rbind r (\<lambda>encoded.
       rbind (map_err (\<lambda>_. AiePanic) (security_nonce_new HostRiskLeaseIdError encoded)) (\<lambda>i.
       (let verifier = host_risk_verifier_new i sid epoch operation in
        Inr (\<lparr>hl_verifier = verifier\<rparr>, verifier)))),
       issuer\<lparr>hr_sequence := s\<rparr>))"

definition host_risk_issue_launch ::
    "(string \<Rightarrow> string) \<Rightarrow> session_id \<Rightarrow> provisioning_epoch \<Rightarrow> host_launch_intent
     \<Rightarrow> (host_risk_lease_issuer, issuance_error,
         launch_target \<times> host_risk_lease \<times> host_risk_verifier) sm" where
  "host_risk_issue_launch sha sid epoch intent =
     and_then (host_risk_issue sha sid epoch (HrLaunch intent)) (\<lambda>(lease, verifier).
     ok (intent_into_target intent (hv_id (hl_verifier lease)), lease, verifier))"

section \<open>Sandbox-ownership leases\<close>

record sandbox_ownership_binding =
  so_session_id :: session_id
  so_process :: process_identity
  so_mode :: attach_mode
  so_provider :: sandbox_provider
  so_policy_digest :: policy_digest
  so_provisioning_epoch :: provisioning_epoch

record sandbox_ownership_lease =
  ol_id :: sandbox_ownership_lease_id
  ol_binding :: sandbox_ownership_binding

record sandbox_ownership_verifier =
  ov_id :: sandbox_ownership_lease_id
  ov_binding :: sandbox_ownership_binding

definition ownership_lease_into_verifier :: "sandbox_ownership_lease \<Rightarrow> sandbox_ownership_verifier" where
  "ownership_lease_into_verifier l = \<lparr>ov_id = ol_id l, ov_binding = ol_binding l\<rparr>"

record sandbox_ownership_lease_issuer =
  oi_sequence :: lease_id_sequence

definition ownership_issuer_new :: "string option \<Rightarrow> issuance_error + sandbox_ownership_lease_issuer" where
  "ownership_issuer_new entropy =
     rbind (lease_id_sequence_new entropy) (\<lambda>s. Inr \<lparr>oi_sequence = s\<rparr>)"

definition ownership_issue ::
    "(string \<Rightarrow> string) \<Rightarrow> sandbox_ownership_binding
     \<Rightarrow> (sandbox_ownership_lease_issuer, issuance_error,
         sandbox_ownership_lease \<times> sandbox_ownership_verifier) sm" where
  "ownership_issue sha binding issuer =
     (let (r, s) = lease_id_issue sha SANDBOX_OWNERSHIP_LEASE_DOMAIN (oi_sequence issuer) in
      (rbind r (\<lambda>encoded.
       rbind (map_err (\<lambda>_. AiePanic) (security_nonce_new SandboxOwnershipLeaseIdError encoded)) (\<lambda>i.
       Inr (\<lparr>ol_id = i, ol_binding = binding\<rparr>, \<lparr>ov_id = i, ov_binding = binding\<rparr>))),
       issuer\<lparr>oi_sequence := s\<rparr>))"

section \<open>What issuance guarantees\<close>

lemma lease_id_issue_Inr:
  "lease_id_issue sha domain s = (Inr i, t) \<longleftrightarrow>
     unat (ls_next_counter s) + 1 < 2 ^ 128
     \<and> i = hex_encode (sha (lease_message domain (ls_secret s) (ls_next_counter s)))
     \<and> t = s\<lparr>ls_next_counter := ls_next_counter s + 1\<rparr>"
  by (auto simp: lease_id_issue_def and_then_Inr_iff sm_defs checked_add_unat)

lemma lease_id_issue_Inl:
  "lease_id_issue sha domain s = (Inl e, t) \<longleftrightarrow>
     2 ^ 128 \<le> unat (ls_next_counter s) + 1 \<and> e = AieIdentifierSequenceExhausted \<and> t = s"
  by (auto simp: lease_id_issue_def and_then_Inl_iff sm_defs checked_add_def)

lemma host_risk_issue_eq:
  assumes "\<And>x. length (sha x) = 32"
  shows "host_risk_issue sha sid epoch op s =
    (let q = hr_sequence s; c = ls_next_counter q;
         v = \<lparr>hv_id = hex_encode (sha (lease_message HOST_RISK_LEASE_DOMAIN (ls_secret q) c)),
              hv_session_id = sid, hv_provisioning_epoch = epoch, hv_operation = op\<rparr>
     in if unat c + 1 < 2 ^ 128
        then (Inr (\<lparr>hl_verifier = v\<rparr>, v), s\<lparr>hr_sequence := q\<lparr>ls_next_counter := c + 1\<rparr>\<rparr>)
        else (Inl AieIdentifierSequenceExhausted, s))"
proof (cases "unat (ls_next_counter (hr_sequence s)) + 1 < 2 ^ 128")
  case True
  then have "lease_id_issue sha HOST_RISK_LEASE_DOMAIN (hr_sequence s) =
     (Inr (hex_encode (sha (lease_message HOST_RISK_LEASE_DOMAIN (ls_secret (hr_sequence s))
         (ls_next_counter (hr_sequence s))))),
      (hr_sequence s)\<lparr>ls_next_counter := ls_next_counter (hr_sequence s) + 1\<rparr>)"
    by (simp add: lease_id_issue_Inr)
  then show ?thesis using True assms
    by (simp add: host_risk_issue_def security_nonce_of_digest host_risk_verifier_new_def Let_def)
next
  case False
  then have "lease_id_issue sha HOST_RISK_LEASE_DOMAIN (hr_sequence s) =
     (Inl AieIdentifierSequenceExhausted, hr_sequence s)"
    by (simp add: lease_id_issue_Inl)
  then show ?thesis using False by (simp add: host_risk_issue_def Let_def)
qed

lemma ownership_issue_eq:
  assumes "\<And>x. length (sha x) = 32"
  shows "ownership_issue sha b s =
    (let q = oi_sequence s; c = ls_next_counter q;
         i = hex_encode (sha (lease_message SANDBOX_OWNERSHIP_LEASE_DOMAIN (ls_secret q) c))
     in if unat c + 1 < 2 ^ 128
        then (Inr (\<lparr>ol_id = i, ol_binding = b\<rparr>, \<lparr>ov_id = i, ov_binding = b\<rparr>),
              s\<lparr>oi_sequence := q\<lparr>ls_next_counter := c + 1\<rparr>\<rparr>)
        else (Inl AieIdentifierSequenceExhausted, s))"
proof (cases "unat (ls_next_counter (oi_sequence s)) + 1 < 2 ^ 128")
  case True
  then have "lease_id_issue sha SANDBOX_OWNERSHIP_LEASE_DOMAIN (oi_sequence s) =
     (Inr (hex_encode (sha (lease_message SANDBOX_OWNERSHIP_LEASE_DOMAIN (ls_secret (oi_sequence s))
         (ls_next_counter (oi_sequence s))))),
      (oi_sequence s)\<lparr>ls_next_counter := ls_next_counter (oi_sequence s) + 1\<rparr>)"
    by (simp add: lease_id_issue_Inr)
  then show ?thesis using True assms
    by (simp add: ownership_issue_def security_nonce_of_digest Let_def)
next
  case False
  then have "lease_id_issue sha SANDBOX_OWNERSHIP_LEASE_DOMAIN (oi_sequence s) =
     (Inl AieIdentifierSequenceExhausted, oi_sequence s)"
    by (simp add: lease_id_issue_Inl)
  then show ?thesis using False by (simp add: ownership_issue_def Let_def)
qed

text \<open>
  With a 32-byte hash neither issuer ever panics: an issuer whose counter is not exhausted
  mints a lease whose identifier is a valid 64-digit nonce, shared by the lease and its verifier,
  and advances its counter by one; an exhausted issuer reports exhaustion and is unchanged.
\<close>

theorem lease_issuance_total:
  assumes "\<And>x. length (sha x) = 32"
  shows "(case host_risk_issue sha sid epoch op s of
      (Inr (lease, verifier), t) \<Rightarrow> hl_verifier lease = verifier \<and> hv_operation verifier = op
        \<and> security_nonce_new HostRiskLeaseIdError (hv_id verifier) = Inr (hv_id verifier)
        \<and> unat (ls_next_counter (hr_sequence t)) = Suc (unat (ls_next_counter (hr_sequence s)))
    | (Inl e, t) \<Rightarrow> e = AieIdentifierSequenceExhausted \<and> t = s
        \<and> unat (ls_next_counter (hr_sequence s)) = 2 ^ 128 - 1)
  \<and> (case ownership_issue sha b u of
      (Inr (lease, verifier), t) \<Rightarrow> ownership_lease_into_verifier lease = verifier
        \<and> ov_binding verifier = b
        \<and> security_nonce_new SandboxOwnershipLeaseIdError (ov_id verifier) = Inr (ov_id verifier)
        \<and> unat (ls_next_counter (oi_sequence t)) = Suc (unat (ls_next_counter (oi_sequence u)))
    | (Inl e, t) \<Rightarrow> e = AieIdentifierSequenceExhausted \<and> t = u
        \<and> unat (ls_next_counter (oi_sequence u)) = 2 ^ 128 - 1)"
  using unat_bound [of "ls_next_counter (hr_sequence s)"] unat_bound [of "ls_next_counter (oi_sequence u)"]
  by (simp add: host_risk_issue_eq [OF assms] ownership_issue_eq [OF assms] Let_def
      security_nonce_of_digest [OF assms] ownership_lease_into_verifier_def unat_word_ariths)

text \<open>
  Minting a launch lease binds the approved intent: the target it returns carries the new
  identifier, describes exactly the approved launch, and the verifier the session compares with
  names that launch, session and epoch.
\<close>

theorem issue_launch_binds_intent:
  assumes "host_risk_issue_launch sha sid epoch intent s = (Inr (target, lease, verifier), t)"
  shows "intent_from_target target = Inr intent
    \<and> la_environment target = LeHost (hv_id verifier)
    \<and> host_risk_lease_into_verifier lease = verifier
    \<and> hv_operation verifier = HrLaunch intent \<and> hv_session_id verifier = sid
    \<and> hv_provisioning_epoch verifier = epoch"
  using assms
  by (auto simp: host_risk_issue_launch_def and_then_Inr_iff host_risk_issue_def sm_defs
      intent_into_target_def intent_from_target_def host_risk_lease_into_verifier_def
      host_risk_verifier_new_def Let_def split: prod.splits)

end
