(* ===== verification/Protocol_Examples.thy ===== *)
theory Protocol_Examples
  imports Sandbox_Examples Authorization
begin

text \<open>
  Concrete protocol values on which the hypotheses of the protocol and authorization theorems
  hold: a live binding, a write failure, a command and two states, an event, and lease issuers.
\<close>

section \<open>Protocol values\<close>

definition sample_binding :: live_target_binding where
  "sample_binding = \<lparr>lt_process = sample_process, lt_main_module_binary_id = sample_binary,
     lt_actual_image_base = 4194304, lt_size_of_image = 4096\<rparr>"

definition sample_token :: "u64 \<Rightarrow> state_token" where
  "sample_token g = \<lparr>tk_session_id = 7, tk_generation = g\<rparr>"

definition sample_stop :: stop_token where
  "sample_stop = \<lparr>sk_state = sample_token 3, sk_stop_id = 1\<rparr>"


definition sample_continue :: command_envelope where
  "sample_continue = \<lparr>ce_version = protocol_version_current, ce_command_id = 5,
     ce_session_id = Some 7, ce_expected_state = Some (sample_token 3),
     ce_command = CmdContinue sample_stop\<rparr>"

lemma sample_binding_new:
  "live_target_binding_new sample_process sample_binary 4194304 4096 = Inr sample_binding"
  by (simp add: binding_new_iff binding_wf_def sample_binding_def sample_process_def)

theorem rva_address_inverse_witness:
  "live_target_binding_new sample_process sample_binary 4194304 4096 = Inr sample_binding
   \<and> address_for_rva_span sample_binding 16 4 = Inr 4194320
   \<and> rva_for_address_span sample_binding 4194320 4 = Inr 16
   \<and> unat (4194320 :: u64) + unat (4 :: u64) \<le> unat (4194304 :: u64) + unat (4096 :: u32)"
proof -
  have a: "address_for_rva_span sample_binding 16 4 = Inr 4194320"
    by (simp add: address_for_rva_span_def sample_binding_def checked_add_def)
  show ?thesis
    using rva_address_inverse [OF sample_binding_new, of 16 4 4194320] a sample_binding_new by simp
qed


definition sample_stopped :: session_state where
  "sample_stopped = StStopped sample_stop SrInitial 11"

definition sample_closing :: session_state where
  "sample_closing = StClosing (sample_token 4)"

lemma sample_continue_allowed: "command_validate_against sample_continue sample_stopped = Inr ()"
  by (simp add: command_validate_against_def sample_continue_def sample_stopped_def sample_stop_def
      sample_token_def command_envelope_validate_def protocol_version_validate_def
      stopped_at_def)

lemma sample_successor: "validate_successor sample_stopped sample_closing = Inr ()"
  by (simp add: validate_successor_def sample_stopped_def sample_closing_def sample_stop_def
      sample_token_def checked_add_def)

theorem accepted_command_goes_stale_witness:
  "command_validate_against sample_continue sample_stopped = Inr ()
   \<and> validate_successor sample_stopped sample_closing = Inr ()
   \<and> command_validate_against sample_continue sample_closing = Inl PeStaleStateToken"
  using accepted_command_goes_stale [OF sample_continue_allowed sample_successor]
    sample_continue_allowed sample_successor
  by (simp add: sample_continue_def)

theorem accepted_history_fresh_witness:
  "accepted_history [sample_stopped, sample_closing, StClosed (sample_token 5)]
   \<and> distinct (map session_state_token [sample_stopped, sample_closing, StClosed (sample_token 5)])"
proof -
  have h: "accepted_history [sample_stopped, sample_closing, StClosed (sample_token 5)]"
    using sample_successor
    by (simp add: validate_successor_iff sample_closing_def sample_token_def checked_add_def)
  show ?thesis using accepted_history_fresh [OF h] h by blast
qed

section \<open>Leases\<close>

definition sample_issuer :: host_risk_lease_issuer where
  "sample_issuer = \<lparr>hr_sequence = \<lparr>ls_secret = replicate 32 (CHR ''s''), ls_next_counter = 0\<rparr>\<rparr>"

definition sample_owner :: sandbox_ownership_binding where
  "sample_owner = \<lparr>so_session_id = 7, so_process = sample_process, so_mode = AmDebug,
     so_provider = LocalAppContainer, so_policy_digest = replicate 64 (CHR ''d''),
     so_provisioning_epoch = sample_epoch\<rparr>"

definition sample_owner_issuer :: sandbox_ownership_lease_issuer where
  "sample_owner_issuer = \<lparr>oi_sequence = \<lparr>ls_secret = replicate 32 (CHR ''t''), ls_next_counter = 0\<rparr>\<rparr>"

definition sample_intent :: host_launch_intent where
  "sample_intent = \<lparr>hi_binary_id = sample_binary, hi_executable = ''C:/game.exe'', hi_arguments = [],
     hi_working_directory = None, hi_stop_before_entry = True\<rparr>"

theorem lease_issuance_total_witness:
  "\<exists>lease verifier t. length (sample_sha []) = 32
   \<and> host_risk_issue sample_sha 7 sample_epoch (HrLaunch sample_intent) sample_issuer
       = (Inr (lease, verifier), t)
   \<and> hl_verifier lease = verifier \<and> hv_operation verifier = HrLaunch sample_intent
   \<and> unat (ls_next_counter (hr_sequence t)) = Suc 0"
proof -
  obtain l v t where i: "host_risk_issue sample_sha 7 sample_epoch (HrLaunch sample_intent) sample_issuer
       = (Inr (l, v), t)"
    by (simp add: host_risk_issue_eq [OF sample_sha_length] sample_issuer_def Let_def)
  have c: "unat (ls_next_counter (hr_sequence sample_issuer)) = 0" by (simp add: sample_issuer_def)
  have "hl_verifier l = v \<and> hv_operation v = HrLaunch sample_intent
      \<and> unat (ls_next_counter (hr_sequence t)) = Suc 0"
    using conjunct1 [OF lease_issuance_total [where sha = sample_sha and sid = 7 and epoch = sample_epoch
        and op = "HrLaunch sample_intent" and s = sample_issuer and b = sample_owner
        and u = sample_owner_issuer, OF sample_sha_length]]
    unfolding i by (simp add: c)
  then show ?thesis using i sample_sha_length by blast
qed

theorem issue_launch_binds_intent_witness:
  "\<exists>target lease verifier t.
     host_risk_issue_launch sample_sha 7 sample_epoch sample_intent sample_issuer
       = (Inr (target, lease, verifier), t)
     \<and> intent_from_target target = Inr sample_intent \<and> la_environment target = LeHost (hv_id verifier)"
proof -
  obtain target lease verifier t where
    i: "host_risk_issue_launch sample_sha 7 sample_epoch sample_intent sample_issuer
       = (Inr (target, lease, verifier), t)"
    by (simp add: host_risk_issue_launch_def and_then_def host_risk_issue_eq [OF sample_sha_length]
        sample_issuer_def Let_def ok_def)
  show ?thesis using issue_launch_binds_intent [OF i] i by blast
qed

end
