(* ===== verification/Lease_Identifiers.thy ===== *)
theory Lease_Identifiers
  imports Protocol_Examples
begin

text \<open>
  Lease identifiers across the two issuers of \<open>authorization.rs\<close>.  A desk holds one issuer of each
  kind, created from its own entropy, and serves any interleaving of requests; the identifiers it
  hands out are hashes of messages that are pairwise distinct, whichever issuer made them.
\<close>

section \<open>A desk with both issuers\<close>

datatype lease_request =
    ReqHostRisk session_id provisioning_epoch host_risk_operation
  | ReqOwnership sandbox_ownership_binding

record lease_desk =
  ld_host :: host_risk_lease_issuer
  ld_ownership :: sandbox_ownership_lease_issuer

text \<open>One request, served by its issuer; the answer is the identifier of the minted lease.\<close>

definition serve :: "(string \<Rightarrow> string) \<Rightarrow> lease_request \<Rightarrow> (lease_desk, issuance_error, string) sm" where
  "serve sha req d = (case req of
     ReqHostRisk sid epoch op \<Rightarrow> (case host_risk_issue sha sid epoch op (ld_host d) of
        (Inl e, h) \<Rightarrow> (Inl e, d\<lparr>ld_host := h\<rparr>)
      | (Inr (lease, _), h) \<Rightarrow> (Inr (hv_id (hl_verifier lease)), d\<lparr>ld_host := h\<rparr>))
   | ReqOwnership b \<Rightarrow> (case ownership_issue sha b (ld_ownership d) of
        (Inl e, i) \<Rightarrow> (Inl e, d\<lparr>ld_ownership := i\<rparr>)
      | (Inr (lease, _), i) \<Rightarrow> (Inr (ol_id lease), d\<lparr>ld_ownership := i\<rparr>)))"

fun serve_all :: "(string \<Rightarrow> string) \<Rightarrow> lease_request list \<Rightarrow> (lease_desk, issuance_error, string list) sm" where
  "serve_all sha [] = ok []"
| "serve_all sha (r # rs) =
     and_then (serve sha r) (\<lambda>i. and_then (serve_all sha rs) (\<lambda>is. ok (i # is)))"

section \<open>The hashed messages\<close>

text \<open>
  The message behind each identifier: the domain of its kind, the secret of its issuer and the
  number of leases of that kind before it.
\<close>

definition host_message :: "string \<Rightarrow> nat \<Rightarrow> string" where
  "host_message s c = ''resymbol-host-risk-lease-v1'' @ s @ be_bytes 16 c"

definition ownership_message :: "string \<Rightarrow> nat \<Rightarrow> string" where
  "ownership_message t c = ''resymbol-sandbox-ownership-lease-v1'' @ t @ be_bytes 16 c"

fun request_messages :: "string \<Rightarrow> string \<Rightarrow> nat \<Rightarrow> nat \<Rightarrow> lease_request list \<Rightarrow> string list" where
  "request_messages s t a b [] = []"
| "request_messages s t a b (ReqHostRisk _ _ _ # rs) =
     host_message s a # request_messages s t (Suc a) b rs"
| "request_messages s t a b (ReqOwnership _ # rs) =
     ownership_message t b # request_messages s t a (Suc b) rs"

definition desk_at :: "lease_desk \<Rightarrow> string \<Rightarrow> string \<Rightarrow> nat \<Rightarrow> nat \<Rightarrow> bool" where
  "desk_at d s t a b \<longleftrightarrow> ls_secret (hr_sequence (ld_host d)) = s \<and> ls_secret (oi_sequence (ld_ownership d)) = t
     \<and> unat (ls_next_counter (hr_sequence (ld_host d))) = a \<and> unat (ls_next_counter (oi_sequence (ld_ownership d))) = b"

lemma request_messages_length: "length (request_messages s t a b rs) = length rs"
  by (induction s t a b rs rule: request_messages.induct) simp_all

lemma serve_host:
  assumes "\<And>x. length (sha x) = 32" "desk_at d s t a b" "serve sha (ReqHostRisk sid epoch op) d = (Inr i, d')"
  shows "i = hex_encode (sha (host_message s a))"
    "desk_at d' s t (Suc a) b" "Suc a < 2 ^ 128"
  using assms(2,3)
  by (auto simp: serve_def desk_at_def host_risk_issue_eq [OF assms(1)] Let_def lease_message_def
      host_message_def HOST_RISK_LEASE_DOMAIN_def unat_word_ariths split: if_splits)

lemma serve_ownership:
  assumes "\<And>x. length (sha x) = 32" "desk_at d s t a b" "serve sha (ReqOwnership o') d = (Inr i, d')"
  shows "i = hex_encode (sha (ownership_message t b))"
    "desk_at d' s t a (Suc b)" "Suc b < 2 ^ 128"
  using assms(2,3)
  by (auto simp: serve_def desk_at_def ownership_issue_eq [OF assms(1)] Let_def lease_message_def
      ownership_message_def SANDBOX_OWNERSHIP_LEASE_DOMAIN_def unat_word_ariths split: if_splits)

lemma message_inj:
  assumes "c < 2 ^ 128" "d < 2 ^ 128"
  shows "host_message s c = host_message s d \<longleftrightarrow> c = d" "ownership_message s c = ownership_message s d \<longleftrightarrow> c = d"
  using assms be_bytes_inj [of 16 c d] by (auto simp: host_message_def ownership_message_def)

text \<open>The two domains have different lengths, so with secrets of one length the messages never meet.\<close>

lemma message_kinds: "length s = length t \<Longrightarrow> host_message s c \<noteq> ownership_message t d"
  by (rule notI, drule arg_cong [where f = length]) (simp add: host_message_def ownership_message_def be_bytes_def)

fun host_count :: "lease_request list \<Rightarrow> nat" where
  "host_count [] = 0"
| "host_count (ReqHostRisk _ _ _ # rs) = Suc (host_count rs)"
| "host_count (ReqOwnership _ # rs) = host_count rs"

fun ownership_count :: "lease_request list \<Rightarrow> nat" where
  "ownership_count [] = 0"
| "ownership_count (ReqHostRisk _ _ _ # rs) = ownership_count rs"
| "ownership_count (ReqOwnership _ # rs) = Suc (ownership_count rs)"

lemma request_messages_range:
  assumes "m \<in> set (request_messages s t a b rs)"
  shows "(\<exists>c. a \<le> c \<and> c < a + host_count rs \<and> m = host_message s c)
    \<or> (\<exists>c. b \<le> c \<and> c < b + ownership_count rs \<and> m = ownership_message t c)"
  using assms
proof (induction s t a b rs rule: request_messages.induct)
  case (2 s t a b x y z rs)
  show ?case
  proof (cases "m = host_message s a")
    case True
    then show ?thesis by auto
  next
    case False
    then have "m \<in> set (request_messages s t (Suc a) b rs)"
      using 2(2) by (simp add: host_message_def)
    from 2(1) [OF this] show ?thesis by (auto intro: Suc_leD)
  qed
next
  case (3 s t a b x rs)
  show ?case
  proof (cases "m = ownership_message t b")
    case True
    then show ?thesis by auto
  next
    case False
    then have "m \<in> set (request_messages s t a (Suc b) rs)"
      using 3(2) by (simp add: ownership_message_def)
    from 3(1) [OF this] show ?thesis by (auto intro: Suc_leD)
  qed
qed simp

lemma request_messages_distinct:
  assumes "length s = length t" "a + host_count rs < 2 ^ 128" "b + ownership_count rs < 2 ^ 128"
  shows "distinct (request_messages s t a b rs)"
  using assms
proof (induction s t a b rs rule: request_messages.induct)
  case (2 s t a b x y z rs)
  have "host_message s a \<notin> set (request_messages s t (Suc a) b rs)"
  proof
    assume "host_message s a \<in> set (request_messages s t (Suc a) b rs)"
    from request_messages_range [OF this] message_kinds [OF 2(2)]
    obtain c where c: "Suc a \<le> c" "c < Suc a + host_count rs" "host_message s a = host_message s c"
      by blast
    then have "a = c"
      using message_inj(1) [of a c s] 2(3) by simp
    then show False using c(1) by simp
  qed
  then show ?case using 2 by (simp add: host_message_def)
next
  case (3 s t a b x rs)
  have "ownership_message t b \<notin> set (request_messages s t a (Suc b) rs)"
  proof
    assume "ownership_message t b \<in> set (request_messages s t a (Suc b) rs)"
    from request_messages_range [OF this] message_kinds [OF 3(2)]
    obtain c where c: "Suc b \<le> c" "c < Suc b + ownership_count rs" "ownership_message t b = ownership_message t c"
      by metis
    then have "b = c"
      using message_inj(2) [of b c t] 3(4) by simp
    then show False using c(1) by simp
  qed
  then show ?case using 3 by (simp add: ownership_message_def)
qed simp

lemma serve_all_messages:
  assumes "\<And>x. length (sha x) = 32" "desk_at d s t a b" "serve_all sha rs d = (Inr ids, d')"
  shows "ids = map (\<lambda>m. hex_encode (sha m)) (request_messages s t a b rs)
    \<and> desk_at d' s t (a + host_count rs) (b + ownership_count rs)"
  using assms(2,3)
proof (induction rs arbitrary: a b d ids)
  case Nil
  then show ?case by (simp add: ok_def)
next
  case (Cons r rs)
  obtain i e js where i: "serve sha r d = (Inr i, e)" and js: "serve_all sha rs e = (Inr js, d')" "ids = i # js"
    using Cons.prems(2) by (auto simp: and_then_Inr_iff ok_def)
  show ?case
  proof (cases r)
    case (ReqHostRisk sid epoch op)
    note one = serve_host [OF assms(1) Cons.prems(1) i [unfolded ReqHostRisk]]
    show ?thesis using Cons.IH [OF one(2) js(1)] one(1) js(2) ReqHostRisk by simp
  next
    case (ReqOwnership own)
    note one = serve_ownership [OF assms(1) Cons.prems(1) i [unfolded ReqOwnership]]
    show ?thesis using Cons.IH [OF one(2) js(1)] one(1) js(2) ReqOwnership by simp
  qed
qed

lemma desk_counters: "desk_at d s t a b \<Longrightarrow> a < 2 ^ 128 \<and> b < 2 ^ 128"
  using unat_bound [of "ls_next_counter (hr_sequence (ld_host d))"]
    unat_bound [of "ls_next_counter (oi_sequence (ld_ownership d))"]
  by (auto simp: desk_at_def)

section \<open>Distinct identifiers\<close>

text \<open>
  C40. No identifier is handed out twice unless SHA-256 collides on two messages that were really
  hashed.  One issuer of each kind, created from its own entropy, serves any interleaving of
  requests.  Every identifier is the hash of the message of its request; those messages are pairwise
  distinct, across the two kinds also when both issuers drew the same entropy; so the identifiers are
  pairwise distinct exactly when the hash is injective on them.
\<close>

theorem lease_ids_distinct:
  assumes "\<And>x. length (sha x) = 32" "length e = 32" "length f = 32"
    and "host_risk_issuer_new (Some e) = Inr h" "ownership_issuer_new (Some f) = Inr i"
    and "serve_all sha rs \<lparr>ld_host = h, ld_ownership = i\<rparr> = (Inr ids, d)"
  defines "messages \<equiv> request_messages e f 0 0 rs"
  shows "ids = map (\<lambda>m. hex_encode (sha m)) messages \<and> length ids = length rs \<and> distinct messages
    \<and> (distinct ids \<longleftrightarrow> inj_on sha (set messages))"
proof -
  have start: "desk_at \<lparr>ld_host = h, ld_ownership = i\<rparr> e f 0 0"
    using assms(4,5)
    by (auto simp: desk_at_def host_risk_issuer_new_def ownership_issuer_new_def lease_id_sequence_new_def)
  have ids: "ids = map (\<lambda>m. hex_encode (sha m)) messages"
    and fin: "desk_at d e f (host_count rs) (ownership_count rs)"
    using serve_all_messages [OF assms(1) start assms(6)] by (simp_all add: messages_def)
  have dist: "distinct messages"
    using desk_counters [OF fin] assms(2,3) unfolding messages_def by (intro request_messages_distinct) simp_all
  have "length messages = length rs"
    unfolding messages_def by (rule request_messages_length)
  moreover have "distinct ids \<longleftrightarrow> inj_on (\<lambda>m. hex_encode (sha m)) (set messages)"
    using dist by (simp add: ids distinct_map)
  moreover have "inj_on (\<lambda>m. hex_encode (sha m)) (set messages) \<longleftrightarrow> inj_on sha (set messages)"
    unfolding inj_on_def by (metis hex_encode_inj)
  ultimately show ?thesis using ids dist by simp
qed

text \<open>Three leases of both kinds from equal entropy, with a hash that keeps the end of the message.\<close>

definition tail_sha :: "string \<Rightarrow> string" where
  "tail_sha m = char_of (length m) # take 31 (rev m @ replicate 31 (CHR ''0''))"

definition sample_requests :: "lease_request list" where
  "sample_requests = [ReqHostRisk 7 sample_epoch (HrLaunch sample_intent), ReqOwnership sample_owner,
     ReqHostRisk 7 sample_epoch (HrLaunch sample_intent)]"

theorem lease_ids_distinct_witness:
  "\<exists>h i ids d. host_risk_issuer_new (Some (replicate 32 (CHR ''s''))) = Inr h
     \<and> ownership_issuer_new (Some (replicate 32 (CHR ''s''))) = Inr i
     \<and> serve_all tail_sha sample_requests \<lparr>ld_host = h, ld_ownership = i\<rparr> = (Inr ids, d)
     \<and> length ids = 3 \<and> distinct ids"
proof -
  let ?e = "replicate 32 (CHR ''s'')"
  let ?h = "\<lparr>hr_sequence = \<lparr>ls_secret = ?e, ls_next_counter = 0\<rparr>\<rparr>"
  let ?i = "\<lparr>oi_sequence = \<lparr>ls_secret = ?e, ls_next_counter = 0\<rparr>\<rparr>"
  have len: "length (tail_sha x) = 32" for x by (simp add: tail_sha_def)
  have new: "host_risk_issuer_new (Some ?e) = Inr ?h" "ownership_issuer_new (Some ?e) = Inr ?i"
    by (simp_all add: host_risk_issuer_new_def ownership_issuer_new_def lease_id_sequence_new_def)
  obtain ids d where run: "serve_all tail_sha sample_requests \<lparr>ld_host = ?h, ld_ownership = ?i\<rparr> = (Inr ids, d)"
    by (simp add: sample_requests_def serve_def and_then_def host_risk_issue_eq [OF len]
        ownership_issue_eq [OF len] Let_def ok_def)
  have "inj_on tail_sha (set (request_messages ?e ?e 0 0 sample_requests))"
    by code_simp
  moreover have "length sample_requests = 3" by (simp add: sample_requests_def)
  ultimately show ?thesis
    using lease_ids_distinct [of tail_sha ?e ?e ?h ?i sample_requests ids d, OF len _ _ new run] new run by auto
qed

end
