(* ===== verification/Session_Machine.thy ===== *)
theory Session_Machine
  imports Authorization
begin

text \<open>
  The pure session reducer of \<open>resymbol-debugger/src/session_machine.rs\<close>, operation by operation
  and in the order of the source.  Every \<open>&mut self\<close> method is a function of the
  state-and-error monad, so what a method has written before it fails stays written.

  \<open>Arc\<close> pointer identity is modelled by numbers: \<open>sn_reducer_instance\<close> is the allocation of the
  reducer and \<open>wa_allocation\<close> that of one live write; the operations that allocate take the fresh
  number as an argument, and \<open>Arc::ptr_eq\<close> compares the numbers.  \<open>SePanic\<close> and
  \<open>UoPanic\<close> are the panics of the \<open>expect\<close> and \<open>unreachable!\<close> sites; every other constructor
  is a variant of the source.
\<close>

section \<open>State, tickets and errors\<close>

definition MAX_REGISTERED_AUTHORIZATION_LEASES :: nat where
  "MAX_REGISTERED_AUTHORIZATION_LEASES = 64"

datatype (plugins only: code size) execution_gate =
    NotApplicable
  | HostRiskAccepted
  | InheritedSandbox
  | SandboxPending
  | SandboxAccepted

record session_machine =
  sn_reducer_instance :: nat
  sn_session_id :: session_id
  sn_provisioning_epoch :: provisioning_epoch
  sn_helper_build :: string
  sn_state :: session_state
  sn_target :: "debug_target option"
  sn_last_command_id :: "command_id option"
  sn_last_stop_id :: u64
  sn_last_run_id :: u64
  sn_execution_gate :: execution_gate
  sn_sandbox :: "sandbox_machine option"
  sn_inherited_sandbox :: "sandbox_ownership_binding option"
  sn_host_risk_leases :: "(host_risk_lease_id, host_risk_verifier option) btree_map"
  sn_sandbox_ownership_leases ::
    "(sandbox_ownership_lease_id, sandbox_ownership_verifier option) btree_map"
  sn_pending_remote_command :: "command_id option"

datatype (plugins only: code size) session_error =
    SeProtocol protocol_error
  | SePolicy policy_validation_error
  | SeSandbox sandbox_machine_error
  | SeHostLaunchIntent host_launch_intent_error
  | SeGlobalCommand
  | SeNonMonotonicCommandId command_id command_id
  | SeRemoteCommandPending command_id
  | SeRemoteCommandNotPending
  | SeRemoteCommandReducerMismatch
  | SeRemoteCommandCheckpointMismatch command_id command_id
  | SeRemoteCommandStateChanged
  | SeLocalLiveMemoryWriteReceiptMismatch
  | SeInvalidTransition session_state_kind string
  | SeSessionBindingMismatch
  | SeDuplicateAuthorizationLease
  | SeTooManyAuthorizationLeases
  | SeProvisioningEpochMismatch
  | SeHostRiskLeaseUnavailable
  | SeHostRiskLeaseMismatch
  | SeSandboxOwnershipLeaseUnavailable
  | SeSandboxOwnershipLeaseMismatch
  | SeSandboxNotPending
  | SeAttestationNotAccepted
  | SeExecutionUnavailable
  | SeLiveMemoryWriteRequiresDebugAttach
  | SeLiveMemoryWriteTargetMismatch
  | SeLiveMemoryWriteImageSpan live_target_error
  | SeSandboxDetachForbidden
  | SeMissingCleanupReceipt
  | SeUnexpectedCleanupReceipt
  | SeInheritedCleanupReceiptMismatch
  | SeExpectedIncompleteCleanupReceipt
  | SeUnexpectedSandboxFailure
  | SeSandboxFailure failure_validation_error
  | SeConflictingSandboxOwnership
  | SeInvalidFailureMessage
  | SeStopIdOverflow
  | SeRunIdOverflow
  | SePanic

datatype (plugins only: code size) unsolicited_error =
    UoReducer session_error
  | UoStateMismatch session_state session_state
  | UoPanic

record live_write_allocation =
  wa_allocation :: nat
  wa_command_id :: command_id
  wa_stop :: stop_token
  wa_binding :: live_target_binding
  wa_address :: memory_address
  wa_expected :: "u8 list"
  wa_replacement :: "u8 list"

record post_accept_state =
  pa_state :: session_state
  pa_target :: "debug_target option"
  pa_last_command_id :: "command_id option"
  pa_last_stop_id :: u64
  pa_last_run_id :: u64
  pa_execution_gate :: execution_gate
  pa_sandbox :: "sandbox_machine option"
  pa_inherited_sandbox :: "sandbox_ownership_binding option"
  pa_host_risk_leases :: "(host_risk_lease_id, host_risk_verifier option) btree_map"
  pa_sandbox_ownership_leases ::
    "(sandbox_ownership_lease_id, sandbox_ownership_verifier option) btree_map"

record remote_checkpoint =
  ck_reducer_instance :: nat
  ck_local_live_memory_write :: "live_write_allocation option"
  ck_command_id :: command_id
  ck_state :: session_state
  ck_target :: "debug_target option"
  ck_execution_gate :: execution_gate
  ck_sandbox :: "sandbox_machine option"
  ck_inherited_sandbox :: "sandbox_ownership_binding option"
  ck_post_accept :: post_accept_state

record validated_live_write =
  vw_reducer_instance :: nat
  vw_write :: live_write_allocation

record live_write_receipt_identity =
  ri_write :: live_write_allocation

datatype (plugins only: code size) live_patch_resolution =
    LrCommitted stop_token
  | LrRejectedNoEffect

record live_patch_receipt =
  lp_write :: live_write_allocation
  lp_resolution :: live_patch_resolution

definition matches_checkpoint :: "validated_live_write \<Rightarrow> remote_checkpoint \<Rightarrow> bool" where
  "matches_checkpoint w c \<longleftrightarrow>
     wa_command_id (vw_write w) = ck_command_id c
     \<and> vw_reducer_instance w = ck_reducer_instance c
     \<and> (case ck_local_live_memory_write c of None \<Rightarrow> False
        | Some write \<Rightarrow> wa_allocation write = wa_allocation (vw_write w))"

type_synonym 'a session_op = "(session_machine, session_error, 'a) sm"

definition session_machine_new ::
    "nat \<Rightarrow> session_id \<Rightarrow> provisioning_epoch \<Rightarrow> string \<Rightarrow> session_machine" where
  "session_machine_new instance_id sid epoch helper =
     \<lparr>sn_reducer_instance = instance_id, sn_session_id = sid, sn_provisioning_epoch = epoch,
      sn_helper_build = helper,
      sn_state = StIdle \<lparr>tk_session_id = sid, tk_generation = 1\<rparr>,
      sn_target = None, sn_last_command_id = None, sn_last_stop_id = 0, sn_last_run_id = 0,
      sn_execution_gate = NotApplicable, sn_sandbox = None, sn_inherited_sandbox = None,
      sn_host_risk_leases = [], sn_sandbox_ownership_leases = [],
      sn_pending_remote_command = None\<rparr>"

definition sn_target_binary_id :: "session_machine \<Rightarrow> binary_id option" where
  "sn_target_binary_id s = (case sn_target s of Some (DtLaunch t) \<Rightarrow> Some (la_binary_id t) | _ \<Rightarrow> None)"

definition sn_created_sandbox_process :: "session_machine \<Rightarrow> process_identity option" where
  "sn_created_sandbox_process s = Option.bind (sn_sandbox s) sx_created_process"

definition sn_requires_cleanup_receipt :: "session_machine \<Rightarrow> bool" where
  "sn_requires_cleanup_receipt s \<longleftrightarrow> sn_sandbox s \<noteq> None \<or> sn_inherited_sandbox s \<noteq> None"

section \<open>Guards, tokens and transitions\<close>

definition sn_require_state :: "string \<Rightarrow> session_state_kind list \<Rightarrow> unit session_op" where
  "sn_require_state action allowed = lift_result (\<lambda>s.
     guard (session_kind (sn_state s) \<in> set allowed)
       (SeInvalidTransition (session_kind (sn_state s)) action))"

definition sn_require_session :: "session_id \<Rightarrow> unit session_op" where
  "sn_require_session actual = lift_result (\<lambda>s. guard (actual = sn_session_id s) SeSessionBindingMismatch)"

definition sn_require_no_remote_command_pending :: "unit session_op" where
  "sn_require_no_remote_command_pending = lift_result (\<lambda>s.
     case sn_pending_remote_command s of
       Some cid \<Rightarrow> Inl (SeRemoteCommandPending cid)
     | None \<Rightarrow> Inr ())"

definition sn_require_open_target :: "string \<Rightarrow> (debug_target \<Rightarrow> bool) \<Rightarrow> unit session_op" where
  "sn_require_open_target action predicate =
     and_then (sn_require_state action [KOpening]) (\<lambda>_.
     lift_result (\<lambda>s.
       rbind (ok_or (sn_target s) (SeInvalidTransition (session_kind (sn_state s)) action)) (\<lambda>target.
       guard (predicate target) (SeInvalidTransition (session_kind (sn_state s)) action))))"

definition sn_next_state_token :: "state_token session_op" where
  "sn_next_state_token = lift_result (\<lambda>s.
     rbind (map_err SeProtocol
       (state_generation_checked_next (tk_generation (session_state_token (sn_state s))))) (\<lambda>g.
     Inr \<lparr>tk_session_id = sn_session_id s, tk_generation = g\<rparr>))"

definition sn_allocate_stop_token :: "state_token \<Rightarrow> stop_token session_op" where
  "sn_allocate_stop_token state =
     and_then (lift_result (\<lambda>s. ok_or (checked_add (sn_last_stop_id s) 1) SeStopIdOverflow)) (\<lambda>i.
     and_then (modify (\<lambda>s. s\<lparr>sn_last_stop_id := i\<rparr>)) (\<lambda>_.
     and_then (lift_result (\<lambda>s. map_err (\<lambda>_. SePanic) (nonzero_id_new ''stop'' (sn_last_stop_id s)))) (\<lambda>stop_id.
     ok \<lparr>sk_state = state, sk_stop_id = stop_id\<rparr>)))"

definition sn_allocate_run_token :: "state_token \<Rightarrow> run_token session_op" where
  "sn_allocate_run_token state =
     and_then (lift_result (\<lambda>s. ok_or (checked_add (sn_last_run_id s) 1) SeRunIdOverflow)) (\<lambda>i.
     and_then (modify (\<lambda>s. s\<lparr>sn_last_run_id := i\<rparr>)) (\<lambda>_.
     and_then (lift_result (\<lambda>s. map_err (\<lambda>_. SePanic) (nonzero_id_new ''run'' (sn_last_run_id s)))) (\<lambda>run_id.
     ok \<lparr>rk_state = state, rk_run_id = run_id\<rparr>)))"

definition sn_transition_to :: "session_state \<Rightarrow> unit session_op" where
  "sn_transition_to next =
     and_then (lift_result (\<lambda>s. map_err SeProtocol (validate_successor (sn_state s) next))) (\<lambda>_.
     modify (\<lambda>s. s\<lparr>sn_state := next\<rparr>))"

definition sn_observe_command_id :: "command_id \<Rightarrow> unit session_op" where
  "sn_observe_command_id cid =
     and_then (lift_result (\<lambda>s. case sn_last_command_id s of
         Some prev \<Rightarrow> guard (\<not> cid \<le> prev) (SeNonMonotonicCommandId prev cid)
       | None \<Rightarrow> Inr ())) (\<lambda>_.
     modify (\<lambda>s. s\<lparr>sn_last_command_id := Some cid\<rparr>))"

definition sn_ensure_execution_allowed :: "unit session_op" where
  "sn_ensure_execution_allowed = lift_result (\<lambda>s. case sn_execution_gate s of
     SandboxPending \<Rightarrow> Inl SeAttestationNotAccepted
   | NotApplicable \<Rightarrow> Inl SeExecutionUnavailable
   | HostRiskAccepted \<Rightarrow> Inr ()
   | InheritedSandbox \<Rightarrow> Inr ()
   | SandboxAccepted \<Rightarrow> Inr ())"

text \<open>
  A sandbox operation on the owned machine.  \<open>on_sandbox\<close> is \<open>if let Some(sandbox)
  = self.sandbox.as_mut()\<close>, \<open>on_pending_sandbox\<close> is \<open>.ok_or(SandboxNotPending)?\<close>.
\<close>

definition on_sandbox :: "'a sandbox_op \<Rightarrow> unit session_op" where
  "on_sandbox op s = (case sn_sandbox s of
     None \<Rightarrow> (Inr (), s)
   | Some x \<Rightarrow> (case op x of
        (Inl e, y) \<Rightarrow> (Inl (SeSandbox e), s\<lparr>sn_sandbox := Some y\<rparr>)
      | (Inr _, y) \<Rightarrow> (Inr (), s\<lparr>sn_sandbox := Some y\<rparr>)))"

definition on_pending_sandbox :: "'a sandbox_op \<Rightarrow> unit session_op" where
  "on_pending_sandbox op =
     and_then (lift_result (\<lambda>s. guard (sn_sandbox s \<noteq> None) SeSandboxNotPending)) (\<lambda>_.
     on_sandbox op)"

definition sn_refresh_stopped_token :: "unit session_op" where
  "sn_refresh_stopped_token s = (case sn_state s of
     StStopped _ reason thread \<Rightarrow>
       and_then sn_next_state_token (\<lambda>next.
       and_then (sn_allocate_stop_token next) (\<lambda>stop.
       sn_transition_to (StStopped stop reason thread))) s
   | _ \<Rightarrow> fail (SeInvalidTransition (session_kind (sn_state s)) ''refresh stopped token'') s)"

section \<open>Authorization registries\<close>

definition sn_register_host_risk_verifier :: "host_risk_verifier \<Rightarrow> unit session_op" where
  "sn_register_host_risk_verifier v =
     and_then (sn_require_state ''register host-risk lease'' [KIdle]) (\<lambda>_.
     and_then (sn_require_session (hv_session_id v)) (\<lambda>_.
     and_then (lift_result (\<lambda>s. guard (hv_provisioning_epoch v = sn_provisioning_epoch s)
        SeProvisioningEpochMismatch)) (\<lambda>_.
     and_then (lift_result (\<lambda>s. guard (\<not> bt_contains (sn_host_risk_leases s) (hv_id v))
        SeDuplicateAuthorizationLease)) (\<lambda>_.
     and_then (lift_result (\<lambda>s. guard (length (sn_host_risk_leases s) < MAX_REGISTERED_AUTHORIZATION_LEASES)
        SeTooManyAuthorizationLeases)) (\<lambda>_.
     modify (\<lambda>s. s\<lparr>sn_host_risk_leases := bt_put (hv_id v) (Some v) (sn_host_risk_leases s)\<rparr>))))))"

definition sn_register_host_risk_lease :: "host_risk_lease \<Rightarrow> unit session_op" where
  "sn_register_host_risk_lease lease =
     sn_register_host_risk_verifier (host_risk_lease_into_verifier lease)"

definition sn_register_sandbox_ownership_verifier :: "sandbox_ownership_verifier \<Rightarrow> unit session_op" where
  "sn_register_sandbox_ownership_verifier v =
     and_then (sn_require_state ''register sandbox-ownership lease'' [KIdle]) (\<lambda>_.
     and_then (sn_require_session (so_session_id (ov_binding v))) (\<lambda>_.
     and_then (lift_result (\<lambda>s. guard (so_provisioning_epoch (ov_binding v) = sn_provisioning_epoch s)
        SeProvisioningEpochMismatch)) (\<lambda>_.
     and_then (lift_result (\<lambda>s. guard (\<not> bt_contains (sn_sandbox_ownership_leases s) (ov_id v))
        SeDuplicateAuthorizationLease)) (\<lambda>_.
     and_then (lift_result (\<lambda>s. guard
        (length (sn_sandbox_ownership_leases s) < MAX_REGISTERED_AUTHORIZATION_LEASES)
        SeTooManyAuthorizationLeases)) (\<lambda>_.
     modify (\<lambda>s. s\<lparr>sn_sandbox_ownership_leases :=
        bt_put (ov_id v) (Some v) (sn_sandbox_ownership_leases s)\<rparr>))))))"

definition sn_register_sandbox_ownership_lease :: "sandbox_ownership_lease \<Rightarrow> unit session_op" where
  "sn_register_sandbox_ownership_lease lease =
     sn_register_sandbox_ownership_verifier (ownership_lease_into_verifier lease)"

definition sn_take_host_risk :: "host_risk_lease_id \<Rightarrow> host_risk_verifier option session_op" where
  "sn_take_host_risk i s =
     (let (v, m) = bt_spend i (sn_host_risk_leases s) in (Inr v, s\<lparr>sn_host_risk_leases := m\<rparr>))"

definition sn_consume_host_risk_lease ::
    "host_risk_lease_id \<Rightarrow> host_risk_operation \<Rightarrow> unit session_op" where
  "sn_consume_host_risk_lease i expected =
     and_then (sn_take_host_risk i) (\<lambda>taken.
     and_then (lift_result (\<lambda>_. ok_or taken SeHostRiskLeaseUnavailable)) (\<lambda>verifier.
     lift_result (\<lambda>s. guard (\<not> (hv_session_id verifier \<noteq> sn_session_id s
          \<or> hv_provisioning_epoch verifier \<noteq> sn_provisioning_epoch s
          \<or> hv_operation verifier \<noteq> expected)) SeHostRiskLeaseMismatch)))"

definition sn_take_ownership :: "sandbox_ownership_lease_id \<Rightarrow> sandbox_ownership_verifier option session_op" where
  "sn_take_ownership i s =
     (let (v, m) = bt_spend i (sn_sandbox_ownership_leases s)
      in (Inr v, s\<lparr>sn_sandbox_ownership_leases := m\<rparr>))"

definition sn_consume_sandbox_ownership_lease ::
    "sandbox_ownership_lease_id \<Rightarrow> process_identity \<Rightarrow> attach_mode \<Rightarrow> sandbox_ownership_binding session_op" where
  "sn_consume_sandbox_ownership_lease i process mode =
     and_then (sn_take_ownership i) (\<lambda>taken.
     and_then (lift_result (\<lambda>_. ok_or taken SeSandboxOwnershipLeaseUnavailable)) (\<lambda>verifier.
     (let binding = ov_binding verifier in
     and_then (lift_result (\<lambda>s. guard (\<not> (so_session_id binding \<noteq> sn_session_id s
          \<or> so_provisioning_epoch binding \<noteq> sn_provisioning_epoch s
          \<or> so_process binding \<noteq> process
          \<or> so_mode binding \<noteq> mode)) SeSandboxOwnershipLeaseMismatch)) (\<lambda>_.
     ok binding))))"

section \<open>Accepting commands\<close>

text \<open>The sandbox, gate and inherited binding an \<open>Open\<close> establishes.\<close>

definition sn_open_sandboxed ::
    "(string \<Rightarrow> string) \<Rightarrow> launch_target \<Rightarrow> sandbox_policy \<Rightarrow> sandbox_machine session_op" where
  "sn_open_sandboxed sha target policy =
     and_then (sn_require_session (sp_session_id policy)) (\<lambda>_.
     and_then (lift_result (\<lambda>s. map_err SePolicy
        (expected_from_policy sha (la_binary_id target) policy (sn_helper_build s)
           (sn_provisioning_epoch s)))) (\<lambda>expected.
     and_then (lift_result (\<lambda>_. map_err SeSandbox (sandbox_machine_new expected))) (\<lambda>sandbox.
     lift_result (\<lambda>_. case sx_begin_provisioning sandbox of
         (Inl e, y) \<Rightarrow> Inl (SeSandbox e)
       | (Inr _, y) \<Rightarrow> Inr y))))"

definition sn_open_authority ::
    "(string \<Rightarrow> string) \<Rightarrow> debug_target
     \<Rightarrow> (sandbox_machine option \<times> execution_gate \<times> sandbox_ownership_binding option) session_op" where
  "sn_open_authority sha target = (case target of
     DtLaunch t \<Rightarrow> (case la_environment t of
        LeSandboxed policy \<Rightarrow>
          and_then (sn_open_sandboxed sha t policy) (\<lambda>sandbox. ok (Some sandbox, SandboxPending, None))
      | LeHost risk_lease \<Rightarrow>
          and_then (lift_result (\<lambda>_. map_err SeHostLaunchIntent (intent_from_target t))) (\<lambda>intent.
          and_then (sn_consume_host_risk_lease risk_lease (HrLaunch intent)) (\<lambda>_.
          ok (None, HostRiskAccepted, None))))
   | DtAttach t \<Rightarrow> (case aa_scope t of
        AsHost process risk_lease \<Rightarrow>
          and_then (sn_consume_host_risk_lease risk_lease (HrAttach process (aa_mode t))) (\<lambda>_.
          ok (None, HostRiskAccepted, None))
      | AsOwnedSandbox process ownership_lease \<Rightarrow>
          and_then (sn_consume_sandbox_ownership_lease ownership_lease process (aa_mode t)) (\<lambda>binding.
          ok (None, InheritedSandbox, Some binding)))
   | DtDump _ \<Rightarrow> ok (None, NotApplicable, None)
   | DtOffline _ \<Rightarrow> ok (None, NotApplicable, None))"

definition sn_accept_open :: "(string \<Rightarrow> string) \<Rightarrow> debug_target \<Rightarrow> unit session_op" where
  "sn_accept_open sha target =
     and_then (sn_open_authority sha target) (\<lambda>(sandbox, gate, inherited).
     and_then sn_next_state_token (\<lambda>next.
     and_then (modify (\<lambda>s. s\<lparr>sn_execution_gate := gate\<rparr>)) (\<lambda>_.
     and_then (modify (\<lambda>s. s\<lparr>sn_sandbox := sandbox\<rparr>)) (\<lambda>_.
     and_then (modify (\<lambda>s. s\<lparr>sn_inherited_sandbox := inherited\<rparr>)) (\<lambda>_.
     and_then (modify (\<lambda>s. s\<lparr>sn_target := Some target\<rparr>)) (\<lambda>_.
     and_then (modify (\<lambda>s. s\<lparr>sn_host_risk_leases := []\<rparr>)) (\<lambda>_.
     and_then (modify (\<lambda>s. s\<lparr>sn_sandbox_ownership_leases := []\<rparr>)) (\<lambda>_.
     sn_transition_to (StOpening next target)))))))))"

definition sn_accept_run :: "unit session_op" where
  "sn_accept_run =
     and_then sn_ensure_execution_allowed (\<lambda>_.
     and_then sn_next_state_token (\<lambda>next.
     and_then (sn_allocate_run_token next) (\<lambda>run.
     and_then (on_sandbox sx_mark_running) (\<lambda>_.
     sn_transition_to (StRunning run)))))"

definition sn_accept_pause :: "unit session_op" where
  "sn_accept_pause =
     and_then sn_next_state_token (\<lambda>next. sn_transition_to (StPausing next))"

definition sn_accept_detach :: "unit session_op" where
  "sn_accept_detach =
     and_then (lift_result (\<lambda>s. guard
        (sn_execution_gate s \<notin> {InheritedSandbox, SandboxPending, SandboxAccepted})
        SeSandboxDetachForbidden)) (\<lambda>_.
     and_then sn_next_state_token (\<lambda>next. sn_transition_to (StDetached next)))"

definition sn_accept_shutdown :: "unit session_op" where
  "sn_accept_shutdown =
     and_then sn_next_state_token (\<lambda>next.
     and_then (on_sandbox sx_begin_cleanup) (\<lambda>_.
     sn_transition_to (StClosing next)))"

definition sn_dispatch :: "(string \<Rightarrow> string) \<Rightarrow> debug_command \<Rightarrow> unit session_op" where
  "sn_dispatch sha command = (case command of
     CmdProbeCapabilities \<Rightarrow> fail SePanic
   | CmdOpen target \<Rightarrow> sn_accept_open sha target
   | CmdContinue _ \<Rightarrow> sn_accept_run
   | CmdStep _ _ _ \<Rightarrow> sn_accept_run
   | CmdPause _ \<Rightarrow> sn_accept_pause
   | CmdWriteMemory _ _ _ _ \<Rightarrow> sn_refresh_stopped_token
   | CmdWriteRegisters _ _ _ \<Rightarrow> sn_refresh_stopped_token
   | CmdSetBreakpoint _ _ _ \<Rightarrow> sn_refresh_stopped_token
   | CmdRemoveBreakpoint _ _ \<Rightarrow> sn_refresh_stopped_token
   | CmdReadMemory _ _ _ \<Rightarrow> ok ()
   | CmdReadRegisters _ _ \<Rightarrow> ok ()
   | CmdCaptureSnapshot _ \<Rightarrow> ok ()
   | CmdDetach _ \<Rightarrow> sn_accept_detach
   | CmdTerminate _ \<Rightarrow> sn_accept_shutdown
   | CmdClose _ \<Rightarrow> sn_accept_shutdown)"

definition sn_accept_command_inner ::
    "(string \<Rightarrow> string) \<Rightarrow> command_envelope \<Rightarrow> session_state session_op" where
  "sn_accept_command_inner sha e =
     and_then (lift_result (\<lambda>_. map_err SeProtocol (command_envelope_validate e))) (\<lambda>_.
     and_then (sn_observe_command_id (ce_command_id e)) (\<lambda>_.
     and_then (lift_result (\<lambda>_. guard (ce_command e \<noteq> CmdProbeCapabilities) SeGlobalCommand)) (\<lambda>_.
     and_then (lift_result (\<lambda>s. map_err SeProtocol (command_validate_against e (sn_state s)))) (\<lambda>_.
     and_then (sn_dispatch sha (ce_command e)) (\<lambda>_.
     gets sn_state)))))"

definition sn_accept_command ::
    "(string \<Rightarrow> string) \<Rightarrow> command_envelope \<Rightarrow> session_state session_op" where
  "sn_accept_command sha e =
     and_then sn_require_no_remote_command_pending (\<lambda>_. sn_accept_command_inner sha e)"

section \<open>Remote commands\<close>

definition sn_post_accept_state :: "session_machine \<Rightarrow> post_accept_state" where
  "sn_post_accept_state s =
     \<lparr>pa_state = sn_state s, pa_target = sn_target s, pa_last_command_id = sn_last_command_id s,
      pa_last_stop_id = sn_last_stop_id s, pa_last_run_id = sn_last_run_id s,
      pa_execution_gate = sn_execution_gate s, pa_sandbox = sn_sandbox s,
      pa_inherited_sandbox = sn_inherited_sandbox s,
      pa_host_risk_leases = sn_host_risk_leases s,
      pa_sandbox_ownership_leases = sn_sandbox_ownership_leases s\<rparr>"

definition sn_begin_remote_command ::
    "(string \<Rightarrow> string) \<Rightarrow> command_envelope \<Rightarrow> remote_checkpoint session_op" where
  "sn_begin_remote_command sha e =
     and_then sn_require_no_remote_command_pending (\<lambda>_.
     and_then (gets (\<lambda>s. s)) (\<lambda>before.
     and_then (sn_accept_command_inner sha e) (\<lambda>_.
     and_then (modify (\<lambda>s. s\<lparr>sn_pending_remote_command := Some (ce_command_id e)\<rparr>)) (\<lambda>_.
     gets (\<lambda>s. \<lparr>ck_reducer_instance = sn_reducer_instance s, ck_local_live_memory_write = None,
       ck_command_id = ce_command_id e, ck_state = sn_state before, ck_target = sn_target before,
       ck_execution_gate = sn_execution_gate before, ck_sandbox = sn_sandbox before,
       ck_inherited_sandbox = sn_inherited_sandbox before,
       ck_post_accept = sn_post_accept_state s\<rparr>)))))"

text \<open>The exact process of an accepted debug attach.\<close>

definition attached_debug_process :: "debug_target option \<Rightarrow> process_identity option" where
  "attached_debug_process target = (case target of
     Some (DtAttach t) \<Rightarrow> (if aa_mode t = AmDebug
        then Some (case aa_scope t of AsHost process _ \<Rightarrow> process | AsOwnedSandbox process _ \<Rightarrow> process)
        else None)
   | _ \<Rightarrow> None)"

definition sn_begin_live_memory_write ::
    "(string \<Rightarrow> string) \<Rightarrow> nat \<Rightarrow> command_envelope \<Rightarrow> live_target_binding
     \<Rightarrow> (remote_checkpoint \<times> validated_live_write \<times> live_write_receipt_identity) session_op" where
  "sn_begin_live_memory_write sha allocation e binding = (case ce_command e of
     CmdWriteMemory stop address expected replacement \<Rightarrow>
       and_then (lift_result (\<lambda>_. map_err SeProtocol (command_envelope_validate e))) (\<lambda>_.
       and_then (lift_result (\<lambda>s. ok_or (attached_debug_process (sn_target s))
          SeLiveMemoryWriteRequiresDebugAttach)) (\<lambda>process.
       and_then (lift_result (\<lambda>_. guard (process = lt_process binding)
          SeLiveMemoryWriteTargetMismatch)) (\<lambda>_.
       and_then (lift_result (\<lambda>_. map_err SeLiveMemoryWriteImageSpan
          (rva_for_address_span binding address (of_nat (length expected))))) (\<lambda>_.
       and_then (sn_begin_remote_command sha e) (\<lambda>checkpoint.
       (let write = \<lparr>wa_allocation = allocation, wa_command_id = ce_command_id e, wa_stop = stop,
              wa_binding = binding, wa_address = address, wa_expected = expected,
              wa_replacement = replacement\<rparr>
        in ok (checkpoint\<lparr>ck_local_live_memory_write := Some write\<rparr>,
               \<lparr>vw_reducer_instance = ck_reducer_instance checkpoint, vw_write = write\<rparr>,
               \<lparr>ri_write = write\<rparr>)))))))
   | _ \<Rightarrow> fail (SeProtocol PeNotMemoryWriteCommand))"

definition sn_validate_remote_checkpoint ::
    "remote_checkpoint \<Rightarrow> command_id \<Rightarrow> session_machine \<Rightarrow> session_error + unit" where
  "sn_validate_remote_checkpoint c cid s =
     rbind (guard (sn_reducer_instance s = ck_reducer_instance c) SeRemoteCommandReducerMismatch) (\<lambda>_.
     rbind (ok_or (sn_pending_remote_command s) SeRemoteCommandNotPending) (\<lambda>pending.
     guard (\<not> (cid \<noteq> ck_command_id c \<or> pending \<noteq> ck_command_id c))
       (SeRemoteCommandCheckpointMismatch pending cid)))"

definition sn_validate_local_resolution ::
    "remote_checkpoint \<Rightarrow> live_write_receipt_identity \<Rightarrow> session_machine \<Rightarrow> session_error + stop_token" where
  "sn_validate_local_resolution c r s =
     rbind (sn_validate_remote_checkpoint c (wa_command_id (ri_write r)) s) (\<lambda>_.
     rbind (guard (sn_post_accept_state s = ck_post_accept c) SeRemoteCommandStateChanged) (\<lambda>_.
     rbind (ok_or (ck_local_live_memory_write c) SeLocalLiveMemoryWriteReceiptMismatch) (\<lambda>write.
     rbind (guard (wa_allocation write = wa_allocation (ri_write r))
        SeLocalLiveMemoryWriteReceiptMismatch) (\<lambda>_.
     rbind (case ck_state c of
         StStopped prior_stop _ _ \<Rightarrow>
           guard (prior_stop = wa_stop (ri_write r)) SeLocalLiveMemoryWriteReceiptMismatch
       | _ \<Rightarrow> Inl SeLocalLiveMemoryWriteReceiptMismatch) (\<lambda>_.
     case sn_state s of
       StStopped resulting_stop _ _ \<Rightarrow> Inr resulting_stop
     | _ \<Rightarrow> Inl SeLocalLiveMemoryWriteReceiptMismatch)))))"

definition sn_resolve_live_memory_write_success ::
    "remote_checkpoint \<Rightarrow> live_write_receipt_identity \<Rightarrow> live_patch_receipt session_op" where
  "sn_resolve_live_memory_write_success c r =
     and_then (lift_result (sn_validate_local_resolution c r)) (\<lambda>resulting_stop.
     and_then (modify (\<lambda>s. s\<lparr>sn_pending_remote_command := None\<rparr>)) (\<lambda>_.
     ok \<lparr>lp_write = ri_write r, lp_resolution = LrCommitted resulting_stop\<rparr>))"

text \<open>The five assignments that restore the visible state from a checkpoint.\<close>

definition restore_checkpoint :: "remote_checkpoint \<Rightarrow> session_machine \<Rightarrow> session_machine" where
  "restore_checkpoint c s =
     s\<lparr>sn_pending_remote_command := None, sn_state := ck_state c, sn_target := ck_target c,
       sn_execution_gate := ck_execution_gate c, sn_sandbox := ck_sandbox c,
       sn_inherited_sandbox := ck_inherited_sandbox c\<rparr>"

definition sn_resolve_live_memory_write_no_effect ::
    "remote_checkpoint \<Rightarrow> live_write_receipt_identity \<Rightarrow> live_patch_receipt session_op" where
  "sn_resolve_live_memory_write_no_effect c r =
     and_then (lift_result (sn_validate_local_resolution c r)) (\<lambda>_.
     and_then (lift_result (\<lambda>_. case ck_state c of
         StStopped token _ _ \<Rightarrow>
           guard (token = wa_stop (ri_write r)) SeLocalLiveMemoryWriteReceiptMismatch
       | _ \<Rightarrow> Inl SeLocalLiveMemoryWriteReceiptMismatch)) (\<lambda>_.
     and_then (modify (restore_checkpoint c)) (\<lambda>_.
     ok \<lparr>lp_write = ri_write r, lp_resolution = LrRejectedNoEffect\<rparr>)))"

definition sn_commit_remote_command ::
    "remote_checkpoint \<Rightarrow> command_id \<Rightarrow> session_state session_op" where
  "sn_commit_remote_command c cid =
     and_then (lift_result (sn_validate_remote_checkpoint c cid)) (\<lambda>_.
     and_then (modify (\<lambda>s. s\<lparr>sn_pending_remote_command := None\<rparr>)) (\<lambda>_.
     gets sn_state))"

definition sn_reject_remote_command ::
    "remote_checkpoint \<Rightarrow> command_id \<Rightarrow> session_state session_op" where
  "sn_reject_remote_command c cid =
     and_then (lift_result (sn_validate_remote_checkpoint c cid)) (\<lambda>_.
     and_then (lift_result (\<lambda>s. guard (sn_post_accept_state s = ck_post_accept c)
        SeRemoteCommandStateChanged)) (\<lambda>_.
     and_then (modify (restore_checkpoint c)) (\<lambda>_.
     gets sn_state)))"

section \<open>Host observations\<close>

definition sn_target_created_suspended :: "process_identity \<Rightarrow> session_state session_op" where
  "sn_target_created_suspended process =
     and_then (sn_require_state ''record suspended target'' [KOpening]) (\<lambda>_.
     and_then (lift_result (\<lambda>s. guard (sn_execution_gate s = SandboxPending) SeSandboxNotPending)) (\<lambda>_.
     and_then sn_next_state_token (\<lambda>next.
     and_then (on_pending_sandbox (sx_target_created_suspended process)) (\<lambda>_.
     and_then (sn_transition_to (StAwaitingAttestation next process)) (\<lambda>_.
     gets sn_state)))))"

definition sn_accept_sandbox_attestation :: "sandbox_attestation \<Rightarrow> session_state session_op" where
  "sn_accept_sandbox_attestation actual =
     and_then (sn_require_state ''accept sandbox attestation'' [KAwaitingAttestation]) (\<lambda>_.
     and_then sn_next_state_token (\<lambda>next.
     and_then (on_pending_sandbox (sx_accept_attestation actual)) (\<lambda>_.
     and_then (modify (\<lambda>s. s\<lparr>sn_execution_gate := SandboxAccepted\<rparr>)) (\<lambda>_.
     and_then (sn_transition_to (StAttestationAccepted next)) (\<lambda>_.
     gets sn_state)))))"

definition sn_complete_open_offline :: "session_state session_op" where
  "sn_complete_open_offline =
     and_then (sn_require_open_target ''complete offline open''
        (\<lambda>t. case t of DtOffline _ \<Rightarrow> True | _ \<Rightarrow> False)) (\<lambda>_.
     and_then sn_next_state_token (\<lambda>next.
     and_then (sn_transition_to (StOffline next)) (\<lambda>_.
     gets sn_state)))"

definition sn_complete_open_dump :: "session_state session_op" where
  "sn_complete_open_dump =
     and_then (sn_require_open_target ''complete dump open''
        (\<lambda>t. case t of DtDump _ \<Rightarrow> True | _ \<Rightarrow> False)) (\<lambda>_.
     and_then sn_next_state_token (\<lambda>next.
     and_then (sn_transition_to (StDump next)) (\<lambda>_.
     gets sn_state)))"

definition sn_complete_open_observing :: "process_id \<Rightarrow> session_state session_op" where
  "sn_complete_open_observing pid =
     and_then (sn_require_open_target ''complete observing attach''
        (\<lambda>t. case t of DtAttach a \<Rightarrow> aa_mode a = AmObserveReadOnly | _ \<Rightarrow> False)) (\<lambda>_.
     and_then sn_next_state_token (\<lambda>next.
     and_then (sn_transition_to (StObserving next pid)) (\<lambda>_.
     gets sn_state)))"

definition stops_on_open :: "debug_target \<Rightarrow> bool" where
  "stops_on_open t = (case t of DtLaunch _ \<Rightarrow> True | DtAttach a \<Rightarrow> aa_mode a = AmDebug | _ \<Rightarrow> False)"

definition sn_mark_stopped :: "stop_reason \<Rightarrow> thread_id \<Rightarrow> session_state session_op" where
  "sn_mark_stopped reason thread =
     and_then (sn_require_state ''mark stopped'' [KOpening, KAttestationAccepted, KRunning, KPausing]) (\<lambda>_.
     and_then (lift_result (\<lambda>s. guard (sn_execution_gate s \<noteq> SandboxPending) SeAttestationNotAccepted)) (\<lambda>_.
     and_then (\<lambda>s. if session_kind (sn_state s) = KOpening
        then sn_require_open_target ''mark stopped'' stops_on_open s else ok () s) (\<lambda>_.
     and_then sn_next_state_token (\<lambda>next.
     and_then (sn_allocate_stop_token next) (\<lambda>stop.
     and_then (sn_transition_to (StStopped stop reason thread)) (\<lambda>_.
     gets sn_state))))))"

definition sn_mark_exited :: "u32 \<Rightarrow> session_state session_op" where
  "sn_mark_exited exit_code =
     and_then (sn_require_state ''mark exited'' [KAttestationAccepted, KStopped, KRunning, KPausing]) (\<lambda>_.
     and_then sn_next_state_token (\<lambda>next.
     and_then (on_sandbox sx_begin_cleanup) (\<lambda>_.
     and_then (sn_transition_to (StExited next exit_code)) (\<lambda>_.
     gets sn_state))))"

text \<open>One observation of a batch, and the batch until its first error.\<close>

definition sn_apply_observation :: "session_state \<Rightarrow> (session_machine, unsolicited_error, unit) sm" where
  "sn_apply_observation observed s =
     (let (r, t) = (case observed of
         StStopped _ reason thread \<Rightarrow>
           (let (r, t) = sn_mark_stopped reason thread s in (map_err UoReducer r, t))
       | StExited _ exit_code \<Rightarrow>
           (let (r, t) = sn_mark_exited exit_code s in (map_err UoReducer r, t))
       | _ \<Rightarrow> (Inl UoPanic, s))
      in (rbind r (\<lambda>applied. guard (applied = observed) (UoStateMismatch applied observed)), t))"

fun sn_apply_each :: "session_state list \<Rightarrow> (session_machine, unsolicited_error, unit) sm" where
  "sn_apply_each [] = ok ()"
| "sn_apply_each (x # xs) = and_then (sn_apply_observation x) (\<lambda>_. sn_apply_each xs)"

definition sn_apply_unsolicited_observations ::
    "session_state list \<Rightarrow> (session_machine, unsolicited_error, unit) sm" where
  "sn_apply_unsolicited_observations observations s =
     (case sn_apply_each observations s of
        (Inl e, t) \<Rightarrow> (Inl e, t\<lparr>sn_state := sn_state s, sn_last_stop_id := sn_last_stop_id s,
          sn_sandbox := sn_sandbox s\<rparr>)
      | (Inr u, t) \<Rightarrow> (Inr u, t))"

definition sn_mark_failed :: "string \<Rightarrow> session_state session_op" where
  "sn_mark_failed message =
     and_then (lift_result (\<lambda>s. guard (session_kind (sn_state s) \<noteq> KClosed)
        (SeInvalidTransition KClosed ''mark failed''))) (\<lambda>_.
     and_then (lift_result (\<lambda>_. guard (\<not> (trim_is_empty message \<or> MAX_REASON_BYTES < length message
        \<or> has_control message)) SeInvalidFailureMessage)) (\<lambda>_.
     and_then sn_next_state_token (\<lambda>next.
     and_then (on_sandbox sx_mark_failed) (\<lambda>_.
     and_then (on_sandbox sx_begin_cleanup) (\<lambda>_.
     and_then (sn_transition_to (StFailed next message)) (\<lambda>_.
     gets sn_state))))))"

section \<open>Cleanup and sandbox failures\<close>

definition sn_validate_inherited_cleanup_binding ::
    "sandbox_ownership_binding \<Rightarrow> cleanup_receipt \<Rightarrow> session_error + unit" where
  "sn_validate_inherited_cleanup_binding b r =
     rbind (guard (\<not> (cr_session_id r \<noteq> so_session_id b
          \<or> cr_provisioning_epoch r \<noteq> so_provisioning_epoch b
          \<or> cr_provider r \<noteq> so_provider b
          \<or> cr_policy_digest r \<noteq> so_policy_digest b
          \<or> cr_process r \<noteq> Some (so_process b))) SeInheritedCleanupReceiptMismatch) (\<lambda>_.
     map_err (\<lambda>e. SeSandbox (SxeCleanup e)) (validate_for_boundary r (provider_boundary (so_provider b))))"

definition sn_validate_inherited_cleanup ::
    "sandbox_ownership_binding \<Rightarrow> cleanup_receipt \<Rightarrow> session_error + unit" where
  "sn_validate_inherited_cleanup b r =
     rbind (sn_validate_inherited_cleanup_binding b r) (\<lambda>_.
     guard (cr_outcome r = CoComplete) (SeSandbox SxeCleanupIncomplete))"

definition sn_validate_cleanup_receipt_binding ::
    "cleanup_receipt \<Rightarrow> session_machine \<Rightarrow> session_error + unit" where
  "sn_validate_cleanup_receipt_binding r s =
     (case (sn_sandbox s, sn_inherited_sandbox s) of
        (Some x, None) \<Rightarrow> map_err SeSandbox (sx_validate_cleanup_receipt x r)
      | (None, Some b) \<Rightarrow> sn_validate_inherited_cleanup_binding b r
      | (None, None) \<Rightarrow> Inl SeUnexpectedCleanupReceipt
      | (Some _, Some _) \<Rightarrow> Inl SeConflictingSandboxOwnership)"

definition sn_validate_cleanup_receipt :: "cleanup_receipt \<Rightarrow> session_machine \<Rightarrow> session_error + unit" where
  "sn_validate_cleanup_receipt r s =
     rbind (sn_validate_cleanup_receipt_binding r s) (\<lambda>_.
     guard (cr_outcome r = CoComplete) (SeSandbox SxeCleanupIncomplete))"

definition sn_validate_cleanup_attempt_receipt ::
    "cleanup_receipt \<Rightarrow> session_machine \<Rightarrow> session_error + unit" where
  "sn_validate_cleanup_attempt_receipt r s =
     rbind (sn_validate_cleanup_receipt_binding r s) (\<lambda>_.
     guard (cr_outcome r = CoIncomplete) SeExpectedIncompleteCleanupReceipt)"

definition sn_close_ownership :: "cleanup_receipt option \<Rightarrow> unit session_op" where
  "sn_close_ownership receipt s = (case (sn_sandbox s, sn_inherited_sandbox s, receipt) of
     (Some _, None, Some r) \<Rightarrow> on_sandbox (sx_close r) s
   | (None, Some b, Some r) \<Rightarrow> lift_result (\<lambda>_. sn_validate_inherited_cleanup b r) s
   | (Some _, None, None) \<Rightarrow> fail SeMissingCleanupReceipt s
   | (None, Some _, None) \<Rightarrow> fail SeMissingCleanupReceipt s
   | (None, None, Some _) \<Rightarrow> fail SeUnexpectedCleanupReceipt s
   | (None, None, None) \<Rightarrow> ok () s
   | (Some _, Some _, _) \<Rightarrow> fail SeConflictingSandboxOwnership s)"

definition sn_complete_close :: "cleanup_receipt option \<Rightarrow> session_state session_op" where
  "sn_complete_close receipt =
     and_then (sn_require_state ''complete close'' [KClosing]) (\<lambda>_.
     and_then sn_next_state_token (\<lambda>next.
     and_then (sn_close_ownership receipt) (\<lambda>_.
     and_then (sn_transition_to (StClosed next)) (\<lambda>_.
     gets sn_state))))"

definition sn_record_sandbox_target_not_created :: "unit session_op" where
  "sn_record_sandbox_target_not_created s = (case (sn_sandbox s, sn_inherited_sandbox s) of
     (Some _, None) \<Rightarrow> on_sandbox sx_record_target_not_created s
   | (None, None) \<Rightarrow> fail SeUnexpectedSandboxFailure s
   | (Some _, Some _) \<Rightarrow> fail SeConflictingSandboxOwnership s
   | (None, Some _) \<Rightarrow> fail (SeSandboxFailure FveContextKind) s)"

definition sn_bind_sandbox_failure ::
    "failure_stage \<Rightarrow> failure_kind \<Rightarrow> bool \<Rightarrow> string \<Rightarrow> session_machine \<Rightarrow> session_error + sandbox_failure" where
  "sn_bind_sandbox_failure stage kind retryable detail s =
     rbind (case (sn_sandbox s, sn_inherited_sandbox s) of
        (Some x, None) \<Rightarrow>
          rbind (map_err SeSandbox (sx_failure_target_creation x)) (\<lambda>creation.
          (let e = sx_expected x in
           Inr \<lparr>sf_session_id = ea_session_id e, sf_provisioning_epoch = ea_provisioning_epoch e,
             sf_policy_digest = ea_policy_digest e, sf_provider = ea_provider e,
             sf_context = FcLaunch (ea_binary_id e) (ea_helper_build e) creation,
             sf_stage = stage, sf_kind = kind, sf_retryable = retryable, sf_detail = detail\<rparr>))
      | (None, Some b) \<Rightarrow>
          Inr \<lparr>sf_session_id = so_session_id b, sf_provisioning_epoch = so_provisioning_epoch b,
            sf_policy_digest = so_policy_digest b, sf_provider = so_provider b,
            sf_context = FcInheritedAttach (so_process b) (so_mode b),
            sf_stage = stage, sf_kind = kind, sf_retryable = retryable, sf_detail = detail\<rparr>
      | (None, None) \<Rightarrow> Inl SeUnexpectedSandboxFailure
      | (Some _, Some _) \<Rightarrow> Inl SeConflictingSandboxOwnership) (\<lambda>failure.
     rbind (map_err SeSandboxFailure (validate_stage_kind failure)) (\<lambda>_. Inr failure))"

definition sn_validate_sandbox_failure :: "sandbox_failure \<Rightarrow> session_machine \<Rightarrow> session_error + unit" where
  "sn_validate_sandbox_failure f s = (case (sn_sandbox s, sn_inherited_sandbox s) of
     (Some x, None) \<Rightarrow> map_err SeSandboxFailure
       (validate_against_expected f (sx_expected x) (sx_target_creation x))
   | (None, Some b) \<Rightarrow> map_err SeSandboxFailure
       (validate_against_inherited f (so_session_id b) (so_provisioning_epoch b)
          (so_policy_digest b) (so_provider b) (so_process b) (so_mode b))
   | (None, None) \<Rightarrow> Inl SeUnexpectedSandboxFailure
   | (Some _, Some _) \<Rightarrow> Inl SeConflictingSandboxOwnership)"

definition sn_retain_sandbox_failure_target_creation :: "sandbox_failure \<Rightarrow> unit session_op" where
  "sn_retain_sandbox_failure_target_creation f =
     and_then (lift_result (sn_validate_sandbox_failure f)) (\<lambda>_ s.
     if sf_stage f \<in> {FsPolicy, FsDiscovery} then ok () s
     else (case (sn_sandbox s, sn_inherited_sandbox s, sf_context f) of
        (Some x, None, FcLaunch _ _ creation) \<Rightarrow>
          (if sx_target_creation x = None then fail (SeSandbox SxeTargetCreationOutcomeMismatch) s
           else on_sandbox (sx_retain_failure_target_creation creation) s)
      | (None, Some _, FcInheritedAttach _ _) \<Rightarrow> ok () s
      | (None, None, _) \<Rightarrow> fail SeUnexpectedSandboxFailure s
      | (Some _, Some _, _) \<Rightarrow> fail SeConflictingSandboxOwnership s
      | _ \<Rightarrow> fail (SeSandboxFailure FveContextKind) s))"

end
