(* ===== verification/Session_Invariant.thy ===== *)
theory Session_Invariant
  imports Session_Machine
begin

text \<open>
  The invariant of the session reducer: the visible state, its execution authority and the owned
  sandbox always agree.  The theory first turns each operation into conditional equations, then
  shows that the update each of them makes keeps the visible invariant \<open>sn_vis\<close>, on the error
  paths too.
\<close>

section \<open>Equations\<close>

lemma and_then_run:
  "and_then (ok a) f1 s = f1 a s"
  "and_then (fail e) f2 s = (Inl e, s)"
  "and_then (modify g) f3 s = f3 () (g s)"
  "and_then (gets h) f4 s = f4 (h s) s"
  "and_then (lift_result k) f5 s = (case k s of Inl e \<Rightarrow> (Inl e, s) | Inr b \<Rightarrow> f5 b s)"
  by (simp_all add: and_then_def sm_defs)

lemma guard_run:
  "and_then (lift_result (\<lambda>s. guard (c s) (e s))) f s = (if c s then f () s else (Inl (e s), s))"
  by (simp add: and_then_run)

definition state_tok :: "session_machine \<Rightarrow> state_token" where
  "state_tok s = session_state_token (sn_state s)"

definition next_token :: "session_machine \<Rightarrow> state_token" where
  "next_token s = \<lparr>tk_session_id = sn_session_id s, tk_generation = tk_generation (state_tok s) + 1\<rparr>"

definition gen_room :: "session_machine \<Rightarrow> bool" where
  "gen_room s \<longleftrightarrow> unat (tk_generation (state_tok s)) + 1 < 2 ^ 64"

lemma token_frame [simp]:
  "state_tok (s\<lparr>sn_last_stop_id := a\<rparr>) = state_tok s"
  "state_tok (s\<lparr>sn_last_run_id := a\<rparr>) = state_tok s"
  "state_tok (s\<lparr>sn_last_command_id := c\<rparr>) = state_tok s"
  "state_tok (s\<lparr>sn_sandbox := x\<rparr>) = state_tok s"
  "state_tok (s\<lparr>sn_execution_gate := g\<rparr>) = state_tok s"
  "state_tok (s\<lparr>sn_inherited_sandbox := b\<rparr>) = state_tok s"
  "state_tok (s\<lparr>sn_target := t\<rparr>) = state_tok s"
  "state_tok (s\<lparr>sn_host_risk_leases := h\<rparr>) = state_tok s"
  "state_tok (s\<lparr>sn_sandbox_ownership_leases := l\<rparr>) = state_tok s"
  "state_tok (s\<lparr>sn_pending_remote_command := p\<rparr>) = state_tok s"
  "state_tok (s\<lparr>sn_state := st\<rparr>) = session_state_token st"
  by (simp_all add: state_tok_def)

lemma next_token_frame [simp]:
  "next_token (s\<lparr>sn_last_stop_id := a\<rparr>) = next_token s"
  "next_token (s\<lparr>sn_last_run_id := a\<rparr>) = next_token s"
  "next_token (s\<lparr>sn_last_command_id := c\<rparr>) = next_token s"
  "next_token (s\<lparr>sn_sandbox := x\<rparr>) = next_token s"
  "next_token (s\<lparr>sn_execution_gate := g\<rparr>) = next_token s"
  "next_token (s\<lparr>sn_inherited_sandbox := b\<rparr>) = next_token s"
  "next_token (s\<lparr>sn_target := t\<rparr>) = next_token s"
  "next_token (s\<lparr>sn_host_risk_leases := h\<rparr>) = next_token s"
  "next_token (s\<lparr>sn_sandbox_ownership_leases := l\<rparr>) = next_token s"
  by (simp_all add: next_token_def)

lemma gen_room_frame [simp]:
  "gen_room (s\<lparr>sn_last_stop_id := a\<rparr>) = gen_room s"
  "gen_room (s\<lparr>sn_last_run_id := a\<rparr>) = gen_room s"
  "gen_room (s\<lparr>sn_last_command_id := c\<rparr>) = gen_room s"
  "gen_room (s\<lparr>sn_sandbox := x\<rparr>) = gen_room s"
  "gen_room (s\<lparr>sn_execution_gate := g\<rparr>) = gen_room s"
  "gen_room (s\<lparr>sn_inherited_sandbox := b\<rparr>) = gen_room s"
  "gen_room (s\<lparr>sn_target := t\<rparr>) = gen_room s"
  "gen_room (s\<lparr>sn_host_risk_leases := h\<rparr>) = gen_room s"
  "gen_room (s\<lparr>sn_sandbox_ownership_leases := l\<rparr>) = gen_room s"
  by (simp_all add: gen_room_def)

lemma next_token_run:
  "and_then sn_next_state_token f s =
     (if gen_room s then f (next_token s) s else (Inl (SeProtocol PeStateGenerationOverflow), s))"
proof (cases "gen_room s")
  case True
  then have "checked_add (tk_generation (state_tok s)) 1 = Some (tk_generation (state_tok s) + 1)"
    by (simp add: checked_add_unat gen_room_def)
  then have "state_generation_checked_next (tk_generation (state_tok s))
      = Inr (tk_generation (state_tok s) + 1)"
    by (simp add: checked_next_Inr_iff)
  then show ?thesis using True
    by (simp add: sn_next_state_token_def and_then_def lift_result_def next_token_def state_tok_def)
next
  case False
  then have "checked_add (tk_generation (state_tok s)) 1 = None"
    by (simp add: checked_add_None gen_room_def)
  then have "state_generation_checked_next (tk_generation (state_tok s)) = Inl PeStateGenerationOverflow"
    by (simp add: checked_next_error)
  then show ?thesis using False
    by (simp add: sn_next_state_token_def and_then_def lift_result_def state_tok_def)
qed

definition stop_room :: "session_machine \<Rightarrow> bool" where
  "stop_room s \<longleftrightarrow> unat (sn_last_stop_id s) + 1 < 2 ^ 64"

definition run_room :: "session_machine \<Rightarrow> bool" where
  "run_room s \<longleftrightarrow> unat (sn_last_run_id s) + 1 < 2 ^ 64"

lemma stop_token_run:
  "and_then (sn_allocate_stop_token k) f s =
     (if stop_room s
      then f \<lparr>sk_state = k, sk_stop_id = sn_last_stop_id s + 1\<rparr>
             (s\<lparr>sn_last_stop_id := sn_last_stop_id s + 1\<rparr>)
      else (Inl SeStopIdOverflow, s))"
proof (cases "stop_room s")
  case True
  then have c: "checked_add (sn_last_stop_id s) 1 = Some (sn_last_stop_id s + 1)"
    by (simp add: checked_add_unat stop_room_def)
  then have "sn_last_stop_id s + 1 \<noteq> 0" by (rule checked_add_one_nonzero(1))
  then show ?thesis using True c
    by (simp add: sn_allocate_stop_token_def and_then_def sm_defs nonzero_id_new_def)
next
  case False
  then have "checked_add (sn_last_stop_id s) 1 = None" by (simp add: checked_add_None stop_room_def)
  then show ?thesis using False by (simp add: sn_allocate_stop_token_def and_then_def sm_defs)
qed

lemma run_token_run:
  "and_then (sn_allocate_run_token k) f s =
     (if run_room s
      then f \<lparr>rk_state = k, rk_run_id = sn_last_run_id s + 1\<rparr>
             (s\<lparr>sn_last_run_id := sn_last_run_id s + 1\<rparr>)
      else (Inl SeRunIdOverflow, s))"
proof (cases "run_room s")
  case True
  then have c: "checked_add (sn_last_run_id s) 1 = Some (sn_last_run_id s + 1)"
    by (simp add: checked_add_unat run_room_def)
  then have "sn_last_run_id s + 1 \<noteq> 0" by (rule checked_add_one_nonzero(1))
  then show ?thesis using True c
    by (simp add: sn_allocate_run_token_def and_then_def sm_defs nonzero_id_new_def)
next
  case False
  then have "checked_add (sn_last_run_id s) 1 = None" by (simp add: checked_add_None run_room_def)
  then show ?thesis using False by (simp add: sn_allocate_run_token_def and_then_def sm_defs)
qed

lemma require_state_run:
  "and_then (sn_require_state act allowed) f s =
     (if session_kind (sn_state s) \<in> set allowed then f () s
      else (Inl (SeInvalidTransition (session_kind (sn_state s)) act), s))"
  by (simp add: sn_require_state_def guard_run)

text \<open>A transition to a state that carries the next token succeeds on every allowed kind.\<close>

lemma transition_eq:
  assumes "tk_session_id (state_tok s) = sn_session_id s" "gen_room s"
    and "session_state_token n = next_token s"
  shows "sn_transition_to n s =
    (if session_kind n \<in> set (successor_kinds (session_kind (sn_state s)))
     then (Inr (), s\<lparr>sn_state := n\<rparr>)
     else (Inl (SeProtocol (PeInvalidSessionStateTransition (session_kind (sn_state s)) (session_kind n))), s))"
proof -
  have "checked_add (tk_generation (state_tok s)) 1 = Some (tk_generation (state_tok s) + 1)"
    using assms(2) by (simp add: checked_add_unat gen_room_def)
  then show ?thesis
    using assms(1,3)
    by (simp add: sn_transition_to_def and_then_run validate_successor_def Let_def modify_def
        next_token_def flip: state_tok_def)
qed

lemma transition_run:
  assumes "tk_session_id (state_tok s) = sn_session_id s" "gen_room s"
    and "session_state_token n = next_token s"
  shows "and_then (sn_transition_to n) f s =
    (if session_kind n \<in> set (successor_kinds (session_kind (sn_state s)))
     then f () (s\<lparr>sn_state := n\<rparr>)
     else (Inl (SeProtocol (PeInvalidSessionStateTransition (session_kind (sn_state s)) (session_kind n))), s))"
  by (simp add: and_then_def transition_eq [OF assms])

lemma on_sandbox_None: "sn_sandbox s = None \<Longrightarrow> on_sandbox op s = (Inr (), s)"
  by (simp add: on_sandbox_def)

lemma on_sandbox_run:
  "and_then (on_sandbox op) f s = (case sn_sandbox s of
     None \<Rightarrow> f () s
   | Some x \<Rightarrow> (case op x of
        (Inl e, y) \<Rightarrow> (Inl (SeSandbox e), s\<lparr>sn_sandbox := Some y\<rparr>)
      | (Inr _, y) \<Rightarrow> f () (s\<lparr>sn_sandbox := Some y\<rparr>)))"
  by (simp add: and_then_def on_sandbox_def split: option.splits prod.splits sum.splits)

section \<open>The visible invariant\<close>

text \<open>The gates that allow execution, and the gates each accepted target can have.\<close>

definition exec_gates :: "execution_gate set" where
  "exec_gates = {HostRiskAccepted, InheritedSandbox, SandboxAccepted}"

definition gates_for :: "debug_target option \<Rightarrow> execution_gate set" where
  "gates_for target = (case target of
     None \<Rightarrow> {NotApplicable}
   | Some (DtLaunch t) \<Rightarrow> (case la_environment t of
        LeSandboxed _ \<Rightarrow> {SandboxPending, SandboxAccepted} | LeHost _ \<Rightarrow> {HostRiskAccepted})
   | Some (DtAttach t) \<Rightarrow> (case aa_scope t of
        AsHost _ _ \<Rightarrow> {HostRiskAccepted} | AsOwnedSandbox _ _ \<Rightarrow> {InheritedSandbox})
   | Some (DtDump _) \<Rightarrow> {NotApplicable}
   | Some (DtOffline _) \<Rightarrow> {NotApplicable})"

text \<open>
  What each kind of state says about the target, the gate and the lifecycle of the owned sandbox
  (\<open>None\<close> when there is none).
\<close>

primrec phase_ok ::
    "session_state_kind \<Rightarrow> debug_target option \<Rightarrow> execution_gate \<Rightarrow> lifecycle_state option \<Rightarrow> bool" where
  "phase_ok KIdle target gate life \<longleftrightarrow> target = None"
| "phase_ok KOpening target gate life \<longleftrightarrow> target \<noteq> None \<and> life \<in> {None, Some LsProvisioning}"
| "phase_ok KAwaitingAttestation target gate life \<longleftrightarrow> life = Some LsTargetCreatedSuspended"
| "phase_ok KAttestationAccepted target gate life \<longleftrightarrow> life = Some LsAttestationAccepted"
| "phase_ok KOffline target gate life \<longleftrightarrow> target \<noteq> None \<and> gate = NotApplicable"
| "phase_ok KDump target gate life \<longleftrightarrow> target \<noteq> None \<and> gate = NotApplicable"
| "phase_ok KSnapshot target gate life \<longleftrightarrow> False"
| "phase_ok KObserving target gate life \<longleftrightarrow>
     target \<noteq> None \<and> gate \<in> {HostRiskAccepted, InheritedSandbox}"
| "phase_ok KStopped target gate life \<longleftrightarrow>
     gate \<in> exec_gates \<and> life \<in> {None, Some LsAttestationAccepted, Some LsRunning}"
| "phase_ok KRunning target gate life \<longleftrightarrow> gate \<in> exec_gates \<and> life \<in> {None, Some LsRunning}"
| "phase_ok KPausing target gate life \<longleftrightarrow> gate \<in> exec_gates \<and> life \<in> {None, Some LsRunning}"
| "phase_ok KClosing target gate life \<longleftrightarrow> life \<in> {None, Some LsCleanup}"
| "phase_ok KDetached target gate life \<longleftrightarrow> gate = HostRiskAccepted"
| "phase_ok KExited target gate life \<longleftrightarrow> gate \<in> exec_gates \<and> life \<in> {None, Some LsCleanup}"
| "phase_ok KFailed target gate life \<longleftrightarrow> life \<in> {None, Some LsCleanup}"
| "phase_ok KClosed target gate life \<longleftrightarrow> life \<in> {None, Some LsClosed}"

text \<open>Identifiers carried by the state are real and covered by the watermarks.\<close>

definition state_bound :: "session_machine \<Rightarrow> bool" where
  "state_bound s \<longleftrightarrow>
     tk_session_id (state_tok s) = sn_session_id s \<and> tk_generation (state_tok s) \<noteq> 0
     \<and> (case sn_state s of
          StStopped k _ _ \<Rightarrow> sk_stop_id k \<noteq> 0 \<and> sk_stop_id k \<le> sn_last_stop_id s
        | StRunning r \<Rightarrow> rk_run_id r \<noteq> 0 \<and> rk_run_id r \<le> sn_last_run_id s
        | StOpening _ t \<Rightarrow> sn_target s = Some t
        | StAwaitingAttestation _ p \<Rightarrow> sn_created_sandbox_process s = Some p
        | _ \<Rightarrow> True)"

definition sandbox_bound :: "session_machine \<Rightarrow> sandbox_machine \<Rightarrow> bool" where
  "sandbox_bound s x \<longleftrightarrow>
     sx_inv x \<and> ea_session_id (sx_expected x) = sn_session_id s
     \<and> ea_provisioning_epoch (sx_expected x) = sn_provisioning_epoch s
     \<and> ea_helper_build (sx_expected x) = sn_helper_build s
     \<and> (sn_execution_gate s = SandboxAccepted \<longleftrightarrow> sx_accepted_attestation x \<noteq> None)"

definition ownership_ok :: "session_machine \<Rightarrow> bool" where
  "ownership_ok s \<longleftrightarrow>
     sn_execution_gate s \<in> gates_for (sn_target s)
     \<and> (case sn_sandbox s of
          None \<Rightarrow> sn_execution_gate s \<notin> {SandboxPending, SandboxAccepted}
        | Some x \<Rightarrow> sn_execution_gate s \<in> {SandboxPending, SandboxAccepted} \<and> sandbox_bound s x)
     \<and> (case sn_inherited_sandbox s of
          None \<Rightarrow> sn_execution_gate s \<noteq> InheritedSandbox
        | Some b \<Rightarrow> sn_execution_gate s = InheritedSandbox \<and> so_session_id b = sn_session_id s
            \<and> so_provisioning_epoch b = sn_provisioning_epoch s)"

definition sn_vis :: "session_machine \<Rightarrow> bool" where
  "sn_vis s \<longleftrightarrow> state_bound s \<and> ownership_ok s
     \<and> phase_ok (session_kind (sn_state s)) (sn_target s) (sn_execution_gate s)
         (map_option sx_state (sn_sandbox s))"

lemma sn_vis_token: "sn_vis s \<Longrightarrow> tk_session_id (state_tok s) = sn_session_id s"
  by (simp add: sn_vis_def state_bound_def)

lemma next_generation_nonzero: "gen_room s \<Longrightarrow> tk_generation (next_token s) \<noteq> 0"
proof -
  assume "gen_room s"
  then have "unat (tk_generation (state_tok s) + 1) = unat (tk_generation (state_tok s)) + 1"
    by (simp add: gen_room_def unat_word_ariths)
  then have "unat (tk_generation (next_token s)) \<noteq> 0" by (simp add: next_token_def)
  then show ?thesis by (metis unat_0)
qed

lemma next_token_session [simp]: "tk_session_id (next_token s) = sn_session_id s"
  by (simp add: next_token_def)

text \<open>Changing the state alone, to one that carries the next token.\<close>

lemma state_bound_next:
  assumes "gen_room s" "session_state_token n = next_token s"
    and "\<And>k r t. n \<noteq> StStopped k r t" "\<And>r. n \<noteq> StRunning r"
    and "\<And>tok t. n = StOpening tok t \<Longrightarrow> sn_target s = Some t"
    and "\<And>tok p. n = StAwaitingAttestation tok p \<Longrightarrow> sn_created_sandbox_process s = Some p"
  shows "state_bound (s\<lparr>sn_state := n\<rparr>)"
  using assms next_generation_nonzero [OF assms(1)]
  by (cases n) (auto simp: state_bound_def sn_created_sandbox_process_def)

lemma ownership_ok_state [simp]: "ownership_ok (s\<lparr>sn_state := n\<rparr>) = ownership_ok s"
  by (simp add: ownership_ok_def sandbox_bound_def cong: option.case_cong)

lemma ownership_ok_stop [simp]: "ownership_ok (s\<lparr>sn_last_stop_id := n\<rparr>) = ownership_ok s"
  by (simp add: ownership_ok_def sandbox_bound_def cong: option.case_cong)

lemma ownership_ok_run [simp]: "ownership_ok (s\<lparr>sn_last_run_id := n\<rparr>) = ownership_ok s"
  by (simp add: ownership_ok_def sandbox_bound_def cong: option.case_cong)

lemma sn_vis_state:
  assumes "sn_vis s" "gen_room s" "session_state_token n = next_token s"
    and "session_kind n \<notin> {KStopped, KRunning, KOpening, KAwaitingAttestation}"
    and "phase_ok (session_kind n) (sn_target s) (sn_execution_gate s) (map_option sx_state (sn_sandbox s))"
  shows "sn_vis (s\<lparr>sn_state := n\<rparr>)"
proof -
  have "state_bound (s\<lparr>sn_state := n\<rparr>)"
    using assms(2-4) by (intro state_bound_next) auto
  then show ?thesis using assms(1,5) by (simp add: sn_vis_def)
qed

lemma stop_id_fresh: "stop_room s \<Longrightarrow> sn_last_stop_id s < sn_last_stop_id s + 1 \<and> sn_last_stop_id s + 1 \<noteq> 0"
  using checked_add_one_nonzero [of "sn_last_stop_id s" "sn_last_stop_id s + 1"]
  by (simp add: stop_room_def checked_add_unat)

lemma run_id_fresh: "run_room s \<Longrightarrow> sn_last_run_id s < sn_last_run_id s + 1 \<and> sn_last_run_id s + 1 \<noteq> 0"
  using checked_add_one_nonzero [of "sn_last_run_id s" "sn_last_run_id s + 1"]
  by (simp add: run_room_def checked_add_unat)

definition stopped_update :: "session_machine \<Rightarrow> stop_reason \<Rightarrow> thread_id \<Rightarrow> session_machine" where
  "stopped_update s reason thread =
     s\<lparr>sn_last_stop_id := sn_last_stop_id s + 1,
       sn_state := StStopped \<lparr>sk_state = next_token s, sk_stop_id = sn_last_stop_id s + 1\<rparr> reason thread\<rparr>"

lemma sn_vis_stopped:
  assumes "sn_vis s" "gen_room s" "stop_room s"
    and "phase_ok KStopped (sn_target s) (sn_execution_gate s) (map_option sx_state (sn_sandbox s))"
  shows "sn_vis (stopped_update s reason thread)"
  using assms next_generation_nonzero [OF assms(2)] stop_id_fresh [OF assms(3)]
  by (simp add: sn_vis_def stopped_update_def state_bound_def)

definition running_update :: "session_machine \<Rightarrow> session_machine" where
  "running_update s =
     s\<lparr>sn_last_run_id := sn_last_run_id s + 1,
       sn_state := StRunning \<lparr>rk_state = next_token s, rk_run_id = sn_last_run_id s + 1\<rparr>\<rparr>"

text \<open>Updates of the owned sandbox that keep it bound.\<close>

lemma ownership_ok_sandbox:
  assumes "ownership_ok s" "sn_sandbox s = Some x" "sx_inv y" "sx_expected y = sx_expected x"
    and "sx_accepted_attestation y = sx_accepted_attestation x"
  shows "ownership_ok (s\<lparr>sn_sandbox := Some y\<rparr>)"
  using assms
  by (cases "sn_inherited_sandbox s") (auto simp: ownership_ok_def sandbox_bound_def)

lemma sn_vis_sandbox:
  assumes "sn_vis s" "sn_sandbox s = Some x"
  shows "sx_inv x" "sn_execution_gate s \<in> {SandboxPending, SandboxAccepted}"
    and "sn_execution_gate s = SandboxAccepted \<longleftrightarrow> sx_accepted_attestation x \<noteq> None"
    and "phase_ok (session_kind (sn_state s)) (sn_target s) (sn_execution_gate s) (Some (sx_state x))"
  using assms by (auto simp: sn_vis_def ownership_ok_def sandbox_bound_def)

lemma sn_vis_idle:
  assumes "sn_vis s" "session_kind (sn_state s) = KIdle"
  shows "sn_target s = None" "sn_execution_gate s = NotApplicable" "sn_sandbox s = None"
    "sn_inherited_sandbox s = None"
  using assms
  by (auto simp: sn_vis_def ownership_ok_def gates_for_def split: option.splits)

text \<open>The owned sandbox moved to another lifecycle state.\<close>

definition with_life :: "lifecycle_state \<Rightarrow> session_machine \<Rightarrow> session_machine" where
  "with_life l s = s\<lparr>sn_sandbox := map_option (\<lambda>x. x\<lparr>sx_state := l\<rparr>) (sn_sandbox s)\<rparr>"

lemma with_life_None: "sn_sandbox s = None \<Longrightarrow> with_life l s = s"
  by (simp add: with_life_def)

lemma with_life_Some: "sn_sandbox s = Some x \<Longrightarrow> with_life l s = s\<lparr>sn_sandbox := Some (x\<lparr>sx_state := l\<rparr>)\<rparr>"
  by (simp add: with_life_def)

lemma with_life_simps [simp]:
  "sn_state (with_life l s) = sn_state s" "sn_session_id (with_life l s) = sn_session_id s"
  "sn_target (with_life l s) = sn_target s" "sn_execution_gate (with_life l s) = sn_execution_gate s"
  "sn_inherited_sandbox (with_life l s) = sn_inherited_sandbox s"
  "sn_last_stop_id (with_life l s) = sn_last_stop_id s"
  "sn_last_run_id (with_life l s) = sn_last_run_id s"
  "sn_last_command_id (with_life l s) = sn_last_command_id s"
  "sn_host_risk_leases (with_life l s) = sn_host_risk_leases s"
  "sn_sandbox_ownership_leases (with_life l s) = sn_sandbox_ownership_leases s"
  "sn_pending_remote_command (with_life l s) = sn_pending_remote_command s"
  "sn_reducer_instance (with_life l s) = sn_reducer_instance s"
  "sn_provisioning_epoch (with_life l s) = sn_provisioning_epoch s"
  "sn_helper_build (with_life l s) = sn_helper_build s"
  "map_option sx_state (sn_sandbox (with_life l s)) = map_option (\<lambda>_. l) (sn_sandbox s)"
  "state_tok (with_life l s) = state_tok s" "next_token (with_life l s) = next_token s"
  "gen_room (with_life l s) = gen_room s" "stop_room (with_life l s) = stop_room s"
  "run_room (with_life l s) = run_room s"
  by (simp_all add: with_life_def comp_def option.map_comp stop_room_def run_room_def)

lemma begin_cleanup_run:
  assumes "sn_vis s" "session_kind (sn_state s) \<noteq> KClosed"
  shows "and_then (on_sandbox sx_begin_cleanup) f s = f () (with_life LsCleanup s)"
proof (cases "sn_sandbox s")
  case None
  then show ?thesis by (simp add: on_sandbox_run with_life_None)
next
  case (Some x)
  have "sx_state x \<noteq> LsClosed"
    using sn_vis_sandbox(2,4) [OF assms(1) Some] assms(2) sn_vis_idle [OF assms(1)] Some
    by (cases "session_kind (sn_state s)") auto
  then show ?thesis using Some by (simp add: on_sandbox_run sx_begin_cleanup_eq with_life_Some)
qed

lemma mark_running_run:
  assumes "sn_vis s" "session_kind (sn_state s) = KStopped"
  shows "and_then (on_sandbox sx_mark_running) f s = f () (with_life LsRunning s)"
proof (cases "sn_sandbox s")
  case None
  then show ?thesis by (simp add: on_sandbox_run with_life_None)
next
  case (Some x)
  have "sx_state x \<in> {LsAttestationAccepted, LsRunning}" "sn_execution_gate s \<in> exec_gates"
    using sn_vis_sandbox(4) [OF assms(1) Some] assms(2) by auto
  moreover have "sx_accepted_attestation x \<noteq> None"
    using sn_vis_sandbox [OF assms(1) Some] calculation(2) by (auto simp: exec_gates_def)
  ultimately have "sx_mark_running x = (Inr LsRunning, x\<lparr>sx_state := LsRunning\<rparr>)"
    by (auto simp: sx_mark_running_eq)
  then show ?thesis using Some by (simp add: on_sandbox_run with_life_Some)
qed

lemma with_life_commute:
  "with_life l (s\<lparr>sn_last_run_id := a\<rparr>) = (with_life l s)\<lparr>sn_last_run_id := a\<rparr>"
  by (simp add: with_life_def)

lemma ownership_ok_life:
  assumes "ownership_ok s" "\<And>x. sn_sandbox s = Some x \<Longrightarrow> sx_inv (x\<lparr>sx_state := l\<rparr>)"
  shows "ownership_ok (with_life l s)"
proof (cases "sn_sandbox s")
  case (Some x)
  then show ?thesis
    unfolding with_life_Some [OF Some]
    using assms(2) by (intro ownership_ok_sandbox [OF assms(1) Some]) simp_all
qed (use assms(1) in \<open>simp add: with_life_None\<close>)

text \<open>Everything that is not part of the visible state: watermarks, registries, the pending command.\<close>

lemma sn_vis_quiet:
  assumes "sn_vis s" "sn_last_stop_id s \<le> a" "sn_last_run_id s \<le> b"
  shows "sn_vis (s\<lparr>sn_last_command_id := c, sn_last_stop_id := a, sn_last_run_id := b,
     sn_host_risk_leases := h, sn_sandbox_ownership_leases := l, sn_pending_remote_command := p\<rparr>)"
proof -
  let ?t = "s\<lparr>sn_last_command_id := c, sn_last_stop_id := a, sn_last_run_id := b,
     sn_host_risk_leases := h, sn_sandbox_ownership_leases := l, sn_pending_remote_command := p\<rparr>"
  have "state_bound ?t"
    using assms
    by (cases "sn_state s") (auto simp: sn_vis_def state_bound_def sn_created_sandbox_process_def)
  moreover have "ownership_ok ?t"
    using assms(1) unfolding sn_vis_def
    by (simp add: ownership_ok_def sandbox_bound_def cong: option.case_cong)
  ultimately show ?thesis using assms(1) by (simp add: sn_vis_def)
qed

lemma sn_vis_life:
  assumes "sn_vis s" "gen_room s" "session_state_token n = next_token s"
    and "session_kind n \<notin> {KStopped, KRunning, KOpening, KAwaitingAttestation}"
    and "phase_ok (session_kind n) (sn_target s) (sn_execution_gate s) (map_option (\<lambda>_. l) (sn_sandbox s))"
    and "\<And>x. sn_sandbox s = Some x \<Longrightarrow> sx_inv (x\<lparr>sx_state := l\<rparr>)"
  shows "sn_vis ((with_life l s)\<lparr>sn_state := n\<rparr>)"
proof -
  have "state_bound ((with_life l s)\<lparr>sn_state := n\<rparr>)"
    using assms(2-4) by (intro state_bound_next) auto
  moreover have "ownership_ok (with_life l s)"
    using assms(1,6) by (intro ownership_ok_life) (auto simp: sn_vis_def)
  ultimately show ?thesis using assms(5) by (simp add: sn_vis_def)
qed

text \<open>Cleanup of the owned sandbox is always possible before the session is closed.\<close>

lemma sn_vis_cleanup_inv:
  assumes "sn_vis s" "sn_sandbox s = Some x"
  shows "sx_inv (x\<lparr>sx_state := LsCleanup\<rparr>)"
  using sn_vis_sandbox(1) [OF assms] by (intro sx_inv_state) simp_all

section \<open>Commands\<close>

lemma sn_accept_run_eq:
  assumes "sn_vis s" "session_kind (sn_state s) = KStopped"
  shows "sn_accept_run s =
    (if \<not> gen_room s then (Inl (SeProtocol PeStateGenerationOverflow), s)
     else if \<not> run_room s then (Inl SeRunIdOverflow, s)
     else (Inr (), running_update (with_life LsRunning s)))"
proof -
  have gate: "sn_execution_gate s \<in> exec_gates" using assms by (simp add: sn_vis_def)
  let ?u = "s\<lparr>sn_last_run_id := sn_last_run_id s + 1\<rparr>"
  have vis: "sn_vis ?u" if "run_room s"
    using sn_vis_quiet [OF assms(1), where a = "sn_last_stop_id s" and b = "sn_last_run_id s + 1"
        and c = "sn_last_command_id s" and h = "sn_host_risk_leases s"
        and l = "sn_sandbox_ownership_leases s" and p = "sn_pending_remote_command s"] run_id_fresh [OF that]
    by (simp add: order.strict_implies_order)
  show ?thesis
  proof (cases "gen_room s \<and> run_room s")
    case True
    let ?w = "(with_life LsRunning s)\<lparr>sn_last_run_id := sn_last_run_id s + 1\<rparr>"
    have "sn_transition_to (StRunning \<lparr>rk_state = next_token s, rk_run_id = sn_last_run_id s + 1\<rparr>) ?w
        = (Inr (), running_update (with_life LsRunning s))"
      using True assms sn_vis_token [OF assms(1)]
      by (subst transition_eq) (simp_all add: running_update_def)
    then show ?thesis
      using True gate assms(2)
      by (auto simp: sn_accept_run_def sn_ensure_execution_allowed_def and_then_run exec_gates_def
          next_token_run run_token_run mark_running_run [OF vis] with_life_commute)
  qed (use gate in \<open>auto simp: sn_accept_run_def sn_ensure_execution_allowed_def and_then_run
        exec_gates_def next_token_run run_token_run\<close>)
qed

lemma sn_vis_running:
  assumes "sn_vis s" "session_kind (sn_state s) = KStopped" "gen_room s" "run_room s"
  shows "sn_vis (running_update (with_life LsRunning s))"
proof -
  have gate: "sn_execution_gate s \<in> exec_gates" using assms by (simp add: sn_vis_def)
  have "sx_inv (x\<lparr>sx_state := LsRunning\<rparr>)" if x: "sn_sandbox s = Some x" for x
  proof (rule sx_inv_running)
    show "sx_inv x" by (rule sn_vis_sandbox(1) [OF assms(1) x])
    show "sx_accepted_attestation x \<noteq> None"
      using sn_vis_sandbox(2,3) [OF assms(1) x] gate by (auto simp: exec_gates_def)
  qed
  then have "ownership_ok (with_life LsRunning s)"
    using assms(1) by (intro ownership_ok_life) (auto simp: sn_vis_def)
  then have "ownership_ok (running_update (with_life LsRunning s))"
    by (simp add: running_update_def)
  moreover have "state_bound (running_update (with_life LsRunning s))"
    using next_generation_nonzero [OF assms(3)] run_id_fresh [OF assms(4)]
    by (simp add: running_update_def state_bound_def)
  ultimately show ?thesis
    using gate by (cases "sn_sandbox s") (simp_all add: sn_vis_def running_update_def with_life_def)
qed

lemma sn_accept_pause_eq:
  assumes "sn_vis s" "session_kind (sn_state s) = KRunning"
  shows "sn_accept_pause s =
    (if gen_room s then (Inr (), s\<lparr>sn_state := StPausing (next_token s)\<rparr>)
     else (Inl (SeProtocol PeStateGenerationOverflow), s))"
  using assms sn_vis_token [OF assms(1)]
  by (simp add: sn_accept_pause_def next_token_run transition_eq)

lemma sn_accept_detach_eq:
  assumes "sn_vis s" "session_kind (sn_state s) \<in> {KStopped, KRunning, KObserving}"
  shows "sn_accept_detach s =
    (if sn_execution_gate s \<in> {InheritedSandbox, SandboxPending, SandboxAccepted}
     then (Inl SeSandboxDetachForbidden, s)
     else if gen_room s then (Inr (), s\<lparr>sn_state := StDetached (next_token s)\<rparr>)
     else (Inl (SeProtocol PeStateGenerationOverflow), s))"
  using assms sn_vis_token [OF assms(1)]
  by (auto simp: sn_accept_detach_def guard_run next_token_run transition_eq)

lemma sn_accept_shutdown_eq:
  assumes "sn_vis s" "session_kind (sn_state s) \<noteq> KClosed"
  shows "sn_accept_shutdown s =
    (if \<not> gen_room s then (Inl (SeProtocol PeStateGenerationOverflow), s)
     else if session_kind (sn_state s) = KClosing
     then (Inl (SeProtocol (PeInvalidSessionStateTransition KClosing KClosing)), with_life LsCleanup s)
     else (Inr (), (with_life LsCleanup s)\<lparr>sn_state := StClosing (next_token s)\<rparr>))"
proof -
  have "KClosing \<in> set (successor_kinds k)" if "k \<notin> {KClosing, KClosed}" for k
    using that by (cases k) auto
  then show ?thesis
    using assms sn_vis_token [OF assms(1)]
    by (auto simp: sn_accept_shutdown_def next_token_run begin_cleanup_run transition_eq)
qed

lemma with_life_same:
  "map_option sx_state (sn_sandbox s) \<in> {None, Some l} \<Longrightarrow> with_life l s = s"
  by (cases "sn_sandbox s") (simp_all add: with_life_def)

lemma sn_vis_shutdown:
  assumes "sn_vis s" "session_kind (sn_state s) \<noteq> KClosed" "gen_room s"
  shows "sn_vis ((with_life LsCleanup s)\<lparr>sn_state := StClosing (next_token s)\<rparr>)"
  using assms
  by (intro sn_vis_life) (auto intro: sn_vis_cleanup_inv simp: map_option_case split: option.splits)

lemma sn_refresh_eq:
  assumes "sn_vis s"
  shows "sn_refresh_stopped_token s = (case sn_state s of
     StStopped _ reason thread \<Rightarrow>
       (if \<not> gen_room s then (Inl (SeProtocol PeStateGenerationOverflow), s)
        else if \<not> stop_room s then (Inl SeStopIdOverflow, s)
        else (Inr (), stopped_update s reason thread))
   | _ \<Rightarrow> (Inl (SeInvalidTransition (session_kind (sn_state s)) ''refresh stopped token''), s))"
  using sn_vis_token [OF assms]
  by (cases "sn_state s")
    (simp_all add: sn_refresh_stopped_token_def fail_def next_token_run stop_token_run transition_eq
      stopped_update_def)

lemma sn_vis_run_op: "sn_vis s \<Longrightarrow> session_kind (sn_state s) = KStopped \<Longrightarrow> sn_accept_run s = (r, t) \<Longrightarrow> sn_vis t"
  by (auto simp: sn_accept_run_eq sn_vis_running split: if_splits)

lemma sn_vis_pause:
  assumes "sn_vis s" "session_kind (sn_state s) = KRunning" "sn_accept_pause s = (r, t)"
  shows "sn_vis t"
proof -
  have "sn_vis (s\<lparr>sn_state := StPausing (next_token s)\<rparr>)" if "gen_room s"
    using assms(1,2) that by (intro sn_vis_state) (auto simp: sn_vis_def)
  then show ?thesis using assms by (auto simp: sn_accept_pause_eq split: if_splits)
qed

lemma sn_vis_detach:
  assumes "sn_vis s" "session_kind (sn_state s) \<in> {KStopped, KRunning, KObserving}"
    and "sn_accept_detach s = (r, t)"
  shows "sn_vis t"
proof -
  have "sn_vis (s\<lparr>sn_state := StDetached (next_token s)\<rparr>)"
    if "gen_room s" "sn_execution_gate s \<notin> {InheritedSandbox, SandboxPending, SandboxAccepted}"
    using assms(1,2) that by (intro sn_vis_state) (auto simp: sn_vis_def exec_gates_def)
  then show ?thesis using assms by (auto simp: sn_accept_detach_eq split: if_splits)
qed

lemma sn_vis_shutdown_op:
  assumes "sn_vis s" "session_kind (sn_state s) \<noteq> KClosed" "sn_accept_shutdown s = (r, t)"
  shows "sn_vis t"
proof -
  have "with_life LsCleanup s = s" if "session_kind (sn_state s) = KClosing"
    using assms(1) that by (intro with_life_same) (auto simp: sn_vis_def)
  then show ?thesis
    using assms by (auto simp: sn_accept_shutdown_eq sn_vis_shutdown split: if_splits)
qed

lemma sn_vis_refresh:
  assumes "sn_vis s" "sn_refresh_stopped_token s = (r, t)"
  shows "sn_vis t"
proof (cases "sn_state s")
  case (StStopped k reason thread)
  then have "phase_ok KStopped (sn_target s) (sn_execution_gate s) (map_option sx_state (sn_sandbox s))"
    using assms(1) by (simp add: sn_vis_def)
  then show ?thesis
    using assms StStopped by (auto simp: sn_refresh_eq sn_vis_stopped split: if_splits)
qed (use assms in \<open>simp_all add: sn_refresh_eq\<close>)

subsection \<open>Open\<close>

definition with_authority ::
    "debug_target \<Rightarrow> sandbox_machine option \<Rightarrow> execution_gate \<Rightarrow> sandbox_ownership_binding option
     \<Rightarrow> session_machine \<Rightarrow> session_machine" where
  "with_authority target sandbox gate inherited s =
     s\<lparr>sn_execution_gate := gate, sn_sandbox := sandbox, sn_inherited_sandbox := inherited,
       sn_target := Some target\<rparr>"

definition authority_ok ::
    "debug_target \<Rightarrow> sandbox_machine option \<times> execution_gate \<times> sandbox_ownership_binding option
     \<Rightarrow> session_machine \<Rightarrow> bool" where
  "authority_ok target a s = (case a of (sandbox, gate, inherited) \<Rightarrow>
     ownership_ok (with_authority target sandbox gate inherited s)
     \<and> map_option sx_state sandbox \<in> {None, Some LsProvisioning})"

definition with_leases where
  "with_leases h l s = s\<lparr>sn_host_risk_leases := h, sn_sandbox_ownership_leases := l\<rparr>"

lemma with_leases_id: "with_leases (sn_host_risk_leases s) (sn_sandbox_ownership_leases s) s = s"
  by (simp add: with_leases_def)

lemma ownership_ok_leases [simp]: "ownership_ok (with_leases h l s) = ownership_ok s"
  by (simp add: ownership_ok_def sandbox_bound_def with_leases_def cong: option.case_cong)

lemma sn_vis_leases [simp]: "sn_vis (with_leases h l s) = sn_vis s"
proof -
  have "state_bound (with_leases h l s) = state_bound s"
    by (cases "sn_state s") (simp_all add: state_bound_def with_leases_def sn_created_sandbox_process_def)
  then show ?thesis by (simp add: sn_vis_def) (simp add: with_leases_def)
qed

lemma authority_ok_leases [simp]: "authority_ok t a (with_leases h l s) = authority_ok t a s"
proof -
  have "with_authority t x g i (with_leases h l s) = with_leases h l (with_authority t x g i s)" for x g i
    by (simp add: with_authority_def with_leases_def)
  then show ?thesis by (simp add: authority_ok_def)
qed

lemma begin_provisioning_value:
  "(case sx_begin_provisioning y of (Inl e, z) \<Rightarrow> Inl (SeSandbox e) | (Inr _, z) \<Rightarrow> Inr z) = Inr x
     \<longleftrightarrow> sx_state y = LsRequested \<and> x = y\<lparr>sx_state := LsProvisioning\<rparr>"
  by (cases "sx_state y = LsRequested") (auto simp: sx_begin_provisioning_def sx_transition_eq)

lemma sn_open_sandboxed_ok:
  assumes "sn_open_sandboxed sha t policy s = (Inr x, u)"
  shows "u = s \<and> sx_inv x \<and> sx_state x = LsProvisioning \<and> sx_accepted_attestation x = None
    \<and> ea_session_id (sx_expected x) = sn_session_id s
    \<and> ea_provisioning_epoch (sx_expected x) = sn_provisioning_epoch s
    \<and> ea_helper_build (sx_expected x) = sn_helper_build s
    \<and> expected_from_policy sha (la_binary_id t) policy (sn_helper_build s) (sn_provisioning_epoch s)
        = Inr (sx_expected x)"
proof -
  obtain e y where u: "u = s" and sid: "sp_session_id policy = sn_session_id s"
    and e: "expected_from_policy sha (la_binary_id t) policy (sn_helper_build s) (sn_provisioning_epoch s) = Inr e"
    and y: "sandbox_machine_new e = Inr y"
    and x: "sx_state y = LsRequested" "x = y\<lparr>sx_state := LsProvisioning\<rparr>"
    using assms
    by (auto simp: sn_open_sandboxed_def and_then_Inr_iff sm_defs sn_require_session_def
        begin_provisioning_value)
  have y': "y = \<lparr>sx_expected = e, sx_state = LsRequested, sx_target_creation = None,
      sx_accepted_attestation = None\<rparr>"
    using y by (simp add: sandbox_machine_new_Inr_iff)
  have "sx_initial y" using y by (simp add: sx_initial_def y')
  then have "sx_inv x" using x sx_inv_initial sx_inv_provisioning by blast
  moreover have "ea_session_id e = sp_session_id policy" "ea_helper_build e = sn_helper_build s"
    "ea_provisioning_epoch e = sn_provisioning_epoch s"
    using e by (auto simp: expected_from_policy_def)
  ultimately show ?thesis using u sid e y' x(2) by simp
qed

lemma sn_open_sandboxed_state: "snd (sn_open_sandboxed sha t policy s) = s"
  by (simp add: sn_open_sandboxed_def and_then_def lift_result_def sn_require_session_def
      split: sum.splits prod.splits)

lemma with_leases_one:
  "s\<lparr>sn_host_risk_leases := h\<rparr> = with_leases h (sn_sandbox_ownership_leases s) s"
  "s\<lparr>sn_sandbox_ownership_leases := l\<rparr> = with_leases (sn_host_risk_leases s) l s"
  by (simp_all add: with_leases_def)

lemma sn_consume_host_state:
  "\<exists>h l. snd (sn_consume_host_risk_lease i op s) = with_leases h l s"
  by (auto simp: sn_consume_host_risk_lease_def sn_take_host_risk_def and_then_def lift_result_def
      with_leases_one split: sum.splits prod.splits)

lemma sn_consume_ownership_state:
  "\<exists>h l. snd (sn_consume_sandbox_ownership_lease i p m s) = with_leases h l s"
  by (auto simp: sn_consume_sandbox_ownership_lease_def sn_take_ownership_def and_then_def
      lift_result_def ok_def Let_def with_leases_one split: sum.splits prod.splits)

lemma snd_and_then_ok: "snd (and_then m (\<lambda>a. ok (f a)) s) = snd (m s)"
  by (auto simp: and_then_def ok_def split: prod.splits sum.splits)

lemma sn_consume_ownership_value:
  assumes "sn_consume_sandbox_ownership_lease i p m s = (Inr b, t)"
  shows "so_session_id b = sn_session_id s \<and> so_provisioning_epoch b = sn_provisioning_epoch s
    \<and> so_process b = p \<and> so_mode b = m"
  using assms
  by (auto simp: sn_consume_sandbox_ownership_lease_def sn_take_ownership_def and_then_Inr_iff
      sm_defs Let_def split: prod.splits)

text \<open>What \<open>Open\<close> has established before it writes anything but spent leases.\<close>

lemma sn_open_authority_state:
  "\<exists>h l. snd (sn_open_authority sha target s) = with_leases h l s"
proof -
  have none: "\<exists>h l. s = with_leases h l s" by (metis with_leases_id)
  show ?thesis
    by (cases target)
      (auto simp: sn_open_authority_def none snd_and_then_ok sn_consume_host_state
        sn_consume_ownership_state sn_open_sandboxed_state and_then_run ok_def
        split: launch_environment.split attach_scope.split sum.split)
qed

lemma authority_ok_plain:
  "gate \<in> gates_for (Some target) \<Longrightarrow> gate \<in> {NotApplicable, HostRiskAccepted}
     \<Longrightarrow> authority_ok target (None, gate, None) s"
  by (auto simp: authority_ok_def with_authority_def ownership_ok_def)

lemma sn_open_authority_ok:
  assumes "sn_open_authority sha target s = (Inr a, t)"
  shows "authority_ok target a s"
proof (cases target)
  case (DtLaunch l)
  show ?thesis
  proof (cases "la_environment l")
    case (LeSandboxed policy)
    then obtain x where a: "a = (Some x, SandboxPending, None)"
      and x: "sn_open_sandboxed sha l policy s = (Inr x, t)"
      using assms DtLaunch by (auto simp: sn_open_authority_def and_then_Inr_iff ok_def)
    show ?thesis
      using sn_open_sandboxed_ok [OF x] a LeSandboxed DtLaunch
      by (simp add: authority_ok_def with_authority_def ownership_ok_def sandbox_bound_def gates_for_def)
  next
    case (LeHost i)
    then have "a = (None, HostRiskAccepted, None)"
      using assms DtLaunch by (auto simp: sn_open_authority_def and_then_Inr_iff ok_def)
    then show ?thesis using LeHost DtLaunch by (simp add: authority_ok_plain gates_for_def)
  qed
next
  case (DtAttach l)
  show ?thesis
  proof (cases "aa_scope l")
    case (AsHost p i)
    then have "a = (None, HostRiskAccepted, None)"
      using assms DtAttach by (auto simp: sn_open_authority_def and_then_Inr_iff ok_def)
    then show ?thesis using AsHost DtAttach by (simp add: authority_ok_plain gates_for_def)
  next
    case (AsOwnedSandbox p i)
    then obtain b where a: "a = (None, InheritedSandbox, Some b)"
      and b: "sn_consume_sandbox_ownership_lease i p (aa_mode l) s = (Inr b, t)"
      using assms DtAttach by (auto simp: sn_open_authority_def and_then_Inr_iff ok_def)
    show ?thesis
      using sn_consume_ownership_value [OF b] a AsOwnedSandbox DtAttach
      by (simp add: authority_ok_def with_authority_def ownership_ok_def gates_for_def)
  qed
qed (use assms in \<open>auto simp: sn_open_authority_def ok_def authority_ok_plain gates_for_def\<close>)

definition opened :: "debug_target \<Rightarrow> sandbox_machine option \<times> execution_gate \<times> sandbox_ownership_binding option
    \<Rightarrow> session_machine \<Rightarrow> session_machine" where
  "opened target a s = (case a of (sandbox, gate, inherited) \<Rightarrow>
     with_leases [] [] ((with_authority target sandbox gate inherited s)\<lparr>sn_state := StOpening (next_token s) target\<rparr>))"

lemma sn_vis_opened:
  assumes "gen_room s" "authority_ok target a s"
  shows "sn_vis (opened target a s)"
proof -
  obtain x g i where a: "a = (x, g, i)" by (cases a)
  let ?w = "with_authority target x g i s"
  have w: "next_token ?w = next_token s" "gen_room ?w" "sn_target ?w = Some target" "sn_sandbox ?w = x"
    using assms(1) by (simp_all add: with_authority_def)
  have "state_bound (?w\<lparr>sn_state := StOpening (next_token s) target\<rparr>)"
    using w by (intro state_bound_next) simp_all
  then show ?thesis
    using assms(2) w(3,4) by (simp add: opened_def a authority_ok_def) (simp add: sn_vis_def)
qed

lemma sn_accept_open_eq:
  assumes "sn_vis s" "session_kind (sn_state s) = KIdle"
  shows "sn_accept_open sha target s = (case sn_open_authority sha target s of
     (Inl e, t) \<Rightarrow> (Inl e, t)
   | (Inr a, t) \<Rightarrow> if gen_room s then (Inr (), opened target a t)
       else (Inl (SeProtocol PeStateGenerationOverflow), t))"
proof -
  obtain h l where t: "snd (sn_open_authority sha target s) = with_leases h l s"
    using sn_open_authority_state by blast
  let ?t = "with_leases h l s"
  have tok: "gen_room ?t = gen_room s" "tk_session_id (state_tok ?t) = sn_session_id ?t"
    using sn_vis_token [OF assms(1)] by (simp_all add: with_leases_def)
  have kind: "session_kind (sn_state ?t) = KIdle" using assms(2) by (simp add: with_leases_def)
  have "and_then sn_next_state_token (\<lambda>next.
      and_then (modify (\<lambda>s. s\<lparr>sn_execution_gate := gate\<rparr>)) (\<lambda>_.
      and_then (modify (\<lambda>s. s\<lparr>sn_sandbox := sandbox\<rparr>)) (\<lambda>_.
      and_then (modify (\<lambda>s. s\<lparr>sn_inherited_sandbox := inherited\<rparr>)) (\<lambda>_.
      and_then (modify (\<lambda>s. s\<lparr>sn_target := Some target\<rparr>)) (\<lambda>_.
      and_then (modify (\<lambda>s. s\<lparr>sn_host_risk_leases := []\<rparr>)) (\<lambda>_.
      and_then (modify (\<lambda>s. s\<lparr>sn_sandbox_ownership_leases := []\<rparr>)) (\<lambda>_.
      sn_transition_to (StOpening next target)))))))) ?t =
    (if gen_room s then (Inr (), opened target (sandbox, gate, inherited) ?t)
     else (Inl (SeProtocol PeStateGenerationOverflow), ?t))" for sandbox gate inherited
    using tok kind
    by (simp add: next_token_run and_then_run transition_eq)
      (simp add: opened_def with_leases_def with_authority_def)
  then show ?thesis
    using t unfolding sn_accept_open_def
    by (cases "sn_open_authority sha target s"; cases "fst (sn_open_authority sha target s)")
      (auto simp: and_then_def split: prod.splits)
qed

lemma sn_vis_open:
  assumes "sn_vis s" "session_kind (sn_state s) = KIdle" "sn_accept_open sha target s = (r, t)"
  shows "sn_vis t"
proof -
  obtain h l where u: "snd (sn_open_authority sha target s) = with_leases h l s"
    using sn_open_authority_state by blast
  have "gen_room (with_leases h l s) = gen_room s" by (simp add: with_leases_def)
  then show ?thesis
    using assms u sn_open_authority_ok [of sha target s] sn_vis_opened [of "with_leases h l s" target]
    by (cases "sn_open_authority sha target s"; cases "fst (sn_open_authority sha target s)")
      (auto simp: sn_accept_open_eq split: if_splits)
qed

end
