(* ===== verification/Session_Frames.thy ===== *)
theory Session_Frames
  imports Session_Invariant
begin

text \<open>
  What the operations of the session reducer leave alone.  An operation \<open>moves\<close> the state along
  a preorder; the locale \<open>session_frame\<close> lists the writes the operations make, and derives that
  every operation moves along any preorder that allows those writes.  It is interpreted for the
  identity and watermarks of the reducer, for its command bookkeeping, for its lease registries and
  for the protocol's successor relation.
\<close>

section \<open>Operations along a preorder\<close>

definition moves :: "('s \<Rightarrow> 's \<Rightarrow> bool) \<Rightarrow> ('s, 'e, 'a) sm \<Rightarrow> bool" where
  "moves R m = (\<forall>s. R s (snd (m s)))"

lemma movesD: "moves R m \<Longrightarrow> m s = (r, t) \<Longrightarrow> R s t"
  by (metis moves_def snd_conv)

lemma moves_weaken: "moves R m \<Longrightarrow> (\<And>s t. R s t \<Longrightarrow> Q s t) \<Longrightarrow> moves Q m"
  by (auto simp: moves_def)

lemma moves_prod3: "(\<And>x y z. moves R (f x y z)) \<Longrightarrow> moves R (case a of (x, y, z) \<Rightarrow> f x y z)"
  by (cases a) simp

lemma moves_if: "moves R f \<Longrightarrow> moves R g \<Longrightarrow> moves R (\<lambda>s. if c s then f s else g s)"
  by (simp add: moves_def)

lemma moves_state_case:
  "(\<And>k r t. moves R (f k r t)) \<Longrightarrow> (\<And>s. moves R (g s)) \<Longrightarrow>
     moves R (\<lambda>s. case sn_state s of StStopped k r t \<Rightarrow> f k r t s | _ \<Rightarrow> g s s)"
  by (auto simp: moves_def split: session_state.split)

lemma checked_add_mono: "checked_add a (1 :: u64) = Some b \<Longrightarrow> a \<le> b"
  by (blast dest: checked_add_one_nonzero(2) intro: order.strict_implies_order)

locale frame =
  fixes R :: "'s \<Rightarrow> 's \<Rightarrow> bool"
  assumes frame_refl: "R s s" and frame_trans: "R s t \<Longrightarrow> R t u \<Longrightarrow> R s u"
begin

lemma moves_and_then: "moves R m \<Longrightarrow> (\<And>a. moves R (f a)) \<Longrightarrow> moves R (and_then m f)"
  unfolding moves_def and_then_def
  by (auto split: prod.splits sum.splits) (metis frame_trans snd_conv)+

lemma moves_pure: "moves R (ok a)" "moves R (fail e)" "moves R (gets g)" "moves R (lift_result k)"
  by (simp_all add: moves_def sm_defs frame_refl)

lemma moves_modify: "(\<And>s. R s (g s)) \<Longrightarrow> moves R (modify g)"
  by (simp add: moves_def sm_defs)

text \<open>An operation that either does nothing or behaves like a member of a framed family.\<close>

lemma moves_via:
  assumes "\<And>s r t. m s = (r, t) \<Longrightarrow> t = s \<or> (\<exists>i q. f i s = (q, t))"
    and "\<And>i. moves R (f i)"
  shows "moves R m"
  unfolding moves_def
proof
  fix s
  consider "snd (m s) = s" | i q where "f i s = (q, snd (m s))"
    using assms(1) [of s "fst (m s)" "snd (m s)"] by auto
  then show "R s (snd (m s))"
  proof cases
    case 1
    then show ?thesis by (simp add: frame_refl)
  next
    case 2
    then show ?thesis using movesD [OF assms(2)] by blast
  qed
qed

end

section \<open>Operations as members of families\<close>

lemma close_ownership_cases:
  "sn_close_ownership receipt s = (q, t) \<Longrightarrow> t = s \<or> (\<exists>r p. on_sandbox (sx_close r) s = (p, t))"
  by (auto simp: sn_close_ownership_def sm_defs split: option.splits)

lemma record_not_created_cases:
  "sn_record_sandbox_target_not_created s = (r, t) \<Longrightarrow>
     t = s \<or> (\<exists>u :: unit. \<exists>q. on_sandbox sx_record_target_not_created s = (q, t))"
  by (auto simp: sn_record_sandbox_target_not_created_def fail_def split: option.splits)

lemma retain_failure_cases:
  "sn_retain_sandbox_failure_target_creation f s = (r, t) \<Longrightarrow>
     t = s \<or> (\<exists>c q. on_sandbox (sx_retain_failure_target_creation c) s = (q, t))"
  by (auto simp: sn_retain_sandbox_failure_target_creation_def and_then_def sm_defs
      split: sum.splits option.splits if_splits failure_context.splits)

definition mark_observed :: "(stop_reason \<times> thread_id) + u32 \<Rightarrow> session_state session_op" where
  "mark_observed i = (case i of Inl (reason, thread) \<Rightarrow> sn_mark_stopped reason thread
     | Inr code \<Rightarrow> sn_mark_exited code)"

lemma apply_observation_mark:
  assumes "sn_apply_observation ob s = (r, t)"
  shows "t = s \<or> (\<exists>i q. mark_observed i s = (q, t))"
proof -
  have "mark_observed (Inl (reason, thread)) = sn_mark_stopped reason thread"
    "mark_observed (Inr code) = sn_mark_exited code" for reason thread code
    by (simp_all add: mark_observed_def)
  moreover have "t = s \<or> (\<exists>reason thread q. sn_mark_stopped reason thread s = (q, t))
    \<or> (\<exists>code q. sn_mark_exited code s = (q, t))"
    using assms by (cases ob) (auto simp: sn_apply_observation_def Let_def split: prod.splits)
  ultimately show ?thesis by metis
qed

section \<open>Stops and exits\<close>

text \<open>They write the state, the stop watermark and the sandbox, nothing else.\<close>

definition only_observed :: "session_machine \<Rightarrow> session_machine \<Rightarrow> bool" where
  "only_observed s t \<longleftrightarrow>
     t\<lparr>sn_state := sn_state s, sn_last_stop_id := sn_last_stop_id s, sn_sandbox := sn_sandbox s\<rparr> = s"

lemma only_observed_trans:
  assumes "only_observed s t" "only_observed t u"
  shows "only_observed s u"
proof -
  let ?undo = "\<lambda>a b. b\<lparr>sn_state := sn_state a, sn_last_stop_id := sn_last_stop_id a, sn_sandbox := sn_sandbox a\<rparr>"
  have "?undo s u = ?undo s (?undo t u)" by simp
  also have "\<dots> = ?undo s t" using assms(2) unfolding only_observed_def by (rule arg_cong)
  also have "\<dots> = s" using assms(1) unfolding only_observed_def .
  finally show ?thesis unfolding only_observed_def .
qed

interpretation oo: frame only_observed
  by unfold_locales (simp add: only_observed_def, rule only_observed_trans)

lemma moves_on_sandbox:
  assumes "\<And>s x. R s (s\<lparr>sn_sandbox := x\<rparr>)" "\<And>s. R s s"
  shows "moves R (on_sandbox op)"
  unfolding moves_def on_sandbox_def
  by (auto split: option.splits prod.splits sum.splits intro: assms)

lemma observed_basics:
  "moves only_observed (sn_transition_to n)" "moves only_observed (sn_allocate_stop_token k)"
  "moves only_observed (on_sandbox op)" "moves only_observed sn_next_state_token"
  "moves only_observed (sn_require_state a ks)" "moves only_observed (sn_require_open_target a p)"
proof -
  have w: "moves only_observed (modify (\<lambda>s. s\<lparr>sn_state := n\<rparr>))"
    "moves only_observed (modify (\<lambda>s. s\<lparr>sn_last_stop_id := i\<rparr>))" for n i
    by (auto intro!: oo.moves_modify simp: only_observed_def)
  show "moves only_observed (on_sandbox op)"
    by (rule moves_on_sandbox) (simp_all add: only_observed_def)
  show "moves only_observed (sn_transition_to n)" "moves only_observed (sn_allocate_stop_token k)"
    "moves only_observed sn_next_state_token" "moves only_observed (sn_require_state a ks)"
    "moves only_observed (sn_require_open_target a p)"
    unfolding sn_transition_to_def sn_allocate_stop_token_def sn_next_state_token_def
      sn_require_state_def sn_require_open_target_def
    by (intro oo.moves_and_then oo.moves_pure w)+
qed

lemma observed_marks: "moves only_observed (mark_observed i)"
proof -
  have "moves only_observed (sn_mark_stopped reason thread)" "moves only_observed (sn_mark_exited code)"
    for reason thread code
    unfolding sn_mark_stopped_def sn_mark_exited_def
    by (intro oo.moves_and_then oo.moves_pure observed_basics moves_if)+
  then show ?thesis by (auto simp: mark_observed_def split: sum.split prod.split)
qed

lemma observed_apply_each: "moves only_observed (sn_apply_each obs)"
proof (induction obs)
  case (Cons ob obs)
  have "moves only_observed (sn_apply_observation ob)"
    by (rule oo.moves_via [where f = mark_observed], rule apply_observation_mark, assumption,
        rule observed_marks)
  then show ?case using Cons by (simp add: oo.moves_and_then)
qed (simp add: oo.moves_pure)

text \<open>A failed batch leaves no trace.\<close>

lemma unsolicited_error_restores:
  assumes "sn_apply_unsolicited_observations obs s = (Inl e, t)"
  shows "t = s"
proof -
  obtain u where "sn_apply_each obs s = (Inl e, u)"
    and t: "t = u\<lparr>sn_state := sn_state s, sn_last_stop_id := sn_last_stop_id s, sn_sandbox := sn_sandbox s\<rparr>"
    using assms by (auto simp: sn_apply_unsolicited_observations_def split: prod.splits sum.splits)
  then show ?thesis using movesD [OF observed_apply_each] by (simp add: only_observed_def)
qed

lemma unsolicited_cases:
  assumes "sn_apply_unsolicited_observations obs s = (r, t)"
  shows "t = s \<or> (\<exists>u :: unit. \<exists>q. sn_apply_each obs s = (q, t))"
  using assms unsolicited_error_restores [of obs s]
  by (cases r) (auto simp: sn_apply_unsolicited_observations_def split: prod.splits sum.splits)

section \<open>The writes of the reducer\<close>

locale session_frame = frame R for R :: "session_machine \<Rightarrow> session_machine \<Rightarrow> bool" +
  assumes write_state: "validate_successor (sn_state s) n = Inr () \<Longrightarrow> R s (s\<lparr>sn_state := n\<rparr>)"
    and write_sandbox: "R s (s\<lparr>sn_sandbox := x\<rparr>)"
    and write_gate: "R s (s\<lparr>sn_execution_gate := g\<rparr>)"
    and write_inherited: "R s (s\<lparr>sn_inherited_sandbox := i\<rparr>)"
    and write_target: "R s (s\<lparr>sn_target := t\<rparr>)"
    and write_stop: "sn_last_stop_id s \<le> a \<Longrightarrow> R s (s\<lparr>sn_last_stop_id := a\<rparr>)"
    and write_run: "sn_last_run_id s \<le> b \<Longrightarrow> R s (s\<lparr>sn_last_run_id := b\<rparr>)"
    and spend_host: "bt_spend j (sn_host_risk_leases s) = (v, h) \<Longrightarrow> R s (s\<lparr>sn_host_risk_leases := h\<rparr>)"
    and spend_ownership:
      "bt_spend k (sn_sandbox_ownership_leases s) = (w, l) \<Longrightarrow> R s (s\<lparr>sn_sandbox_ownership_leases := l\<rparr>)"
    and clear_host: "R s (s\<lparr>sn_host_risk_leases := []\<rparr>)"
    and clear_ownership: "R s (s\<lparr>sn_sandbox_ownership_leases := []\<rparr>)"
begin

lemmas composed = moves_and_then moves_pure moves_prod3 moves_if moves_state_case

lemma writes:
  "moves R (modify (\<lambda>s. s\<lparr>sn_sandbox := x\<rparr>))"
  "moves R (modify (\<lambda>s. s\<lparr>sn_execution_gate := g\<rparr>))" "moves R (modify (\<lambda>s. s\<lparr>sn_inherited_sandbox := i\<rparr>))"
  "moves R (modify (\<lambda>s. s\<lparr>sn_target := t\<rparr>))" "moves R (modify (\<lambda>s. s\<lparr>sn_host_risk_leases := []\<rparr>))"
  "moves R (modify (\<lambda>s. s\<lparr>sn_sandbox_ownership_leases := []\<rparr>))"
  by (intro moves_modify write_sandbox write_gate write_inherited write_target
      clear_host clear_ownership)+

lemma sandbox_frame: "moves R (on_sandbox op)" "moves R (on_pending_sandbox op)"
proof -
  show "moves R (on_sandbox op)" by (rule moves_on_sandbox) (rule write_sandbox, rule frame_refl)
  then show "moves R (on_pending_sandbox op)"
    unfolding on_pending_sandbox_def by (intro moves_and_then moves_pure)
qed

lemma tokens:
  "moves R (sn_allocate_stop_token k)" "moves R (sn_allocate_run_token k)" "moves R sn_next_state_token"
proof -
  show "moves R (sn_allocate_stop_token k)"
    by (auto simp: moves_def sn_allocate_stop_token_def and_then_def sm_defs frame_refl
        split: sum.splits intro!: write_stop dest: checked_add_mono)
  show "moves R (sn_allocate_run_token k)"
    by (auto simp: moves_def sn_allocate_run_token_def and_then_def sm_defs frame_refl
        split: sum.splits intro!: write_run dest: checked_add_mono)
  show "moves R sn_next_state_token" unfolding sn_next_state_token_def by (rule moves_pure)
qed

lemma guards:
  "moves R (sn_transition_to n)" "moves R (sn_require_state a ks)" "moves R (sn_require_session i)"
  "moves R (sn_require_open_target a p)"
proof -
  show "moves R (sn_transition_to n)"
    by (auto simp: moves_def sn_transition_to_def and_then_def sm_defs frame_refl write_state
        split: sum.splits)
  show "moves R (sn_require_state a ks)" "moves R (sn_require_session i)" "moves R (sn_require_open_target a p)"
    unfolding sn_require_state_def sn_require_session_def sn_require_open_target_def
    by (intro composed)+
qed

lemma consume:
  "moves R (sn_consume_host_risk_lease i op)" "moves R (sn_consume_sandbox_ownership_lease k p m)"
proof -
  have t: "moves R (sn_take_host_risk i)" "moves R (sn_take_ownership k)" for i k
    by (auto simp: moves_def sn_take_host_risk_def sn_take_ownership_def
        intro: spend_host spend_ownership split: prod.split)
  show "moves R (sn_consume_host_risk_lease i op)" "moves R (sn_consume_sandbox_ownership_lease k p m)"
    unfolding sn_consume_host_risk_lease_def sn_consume_sandbox_ownership_lease_def Let_def
    by (intro composed t)+
qed

lemma open_frame: "moves R (sn_open_authority sha target)" "moves R (sn_accept_open sha target)"
proof -
  have "moves R (sn_open_sandboxed sha t p)" for t p
    by (simp add: moves_def sn_open_sandboxed_state frame_refl)
  then show a: "moves R (sn_open_authority sha target)"
    by (auto simp: sn_open_authority_def
        split: debug_target.split launch_environment.split attach_scope.split
        intro!: composed consume)
  show "moves R (sn_accept_open sha target)"
    unfolding sn_accept_open_def by (intro composed writes tokens guards a)
qed

lemma execution_frame:
  "moves R sn_accept_run" "moves R sn_accept_pause" "moves R sn_accept_detach"
  "moves R sn_accept_shutdown" "moves R sn_refresh_stopped_token"
  unfolding sn_accept_run_def sn_accept_pause_def sn_accept_detach_def sn_accept_shutdown_def
    sn_ensure_execution_allowed_def sn_refresh_stopped_token_def [abs_def]
  by (intro composed tokens guards sandbox_frame)+

lemma dispatch_frame: "moves R (sn_dispatch sha c)"
  by (cases c; simp add: sn_dispatch_def moves_pure open_frame execution_frame)

lemma observation_frame:
  "moves R (sn_target_created_suspended p)" "moves R (sn_accept_sandbox_attestation a)"
  "moves R sn_complete_open_offline" "moves R sn_complete_open_dump" "moves R (sn_complete_open_observing pid)"
  "moves R (sn_mark_stopped reason thread)" "moves R (sn_mark_exited code)" "moves R (sn_mark_failed m)"
  unfolding sn_target_created_suspended_def sn_accept_sandbox_attestation_def sn_complete_open_offline_def
    sn_complete_open_dump_def sn_complete_open_observing_def sn_mark_stopped_def sn_mark_exited_def
    sn_mark_failed_def
  by (intro composed writes tokens guards sandbox_frame)+

lemma close_frame: "moves R (sn_complete_close receipt)"
proof -
  have "moves R (sn_close_ownership receipt)"
    by (rule moves_via [where f = "\<lambda>r. on_sandbox (sx_close r)"], rule close_ownership_cases,
        assumption, rule sandbox_frame)
  then show ?thesis unfolding sn_complete_close_def by (intro composed tokens guards)
qed

lemma creation_frame:
  "moves R sn_record_sandbox_target_not_created" "moves R (sn_retain_sandbox_failure_target_creation f)"
  subgoal by (rule moves_via [where f = "\<lambda>_ :: unit. on_sandbox sx_record_target_not_created"])
      (rule record_not_created_cases, assumption, rule sandbox_frame)
  subgoal by (rule moves_via [where f = "\<lambda>c. on_sandbox (sx_retain_failure_target_creation c)"])
      (rule retain_failure_cases, assumption, rule sandbox_frame)
  done

lemma unsolicited_frame: "moves R (sn_apply_unsolicited_observations obs)"
proof -
  have m: "moves R (mark_observed i)" for i
    by (auto simp: mark_observed_def observation_frame split: sum.split prod.split)
  have ob: "moves R (sn_apply_observation ob)" for ob
    by (rule moves_via [where f = mark_observed], rule apply_observation_mark, assumption, rule m)
  have "moves R (sn_apply_each obs)" for obs
    by (induction obs) (simp_all add: moves_pure moves_and_then ob)
  then show ?thesis
    by (intro moves_via [where f = "\<lambda>_ :: unit. sn_apply_each obs" and m = "sn_apply_unsolicited_observations obs"]
        unsolicited_cases)
qed

end

section \<open>The frames\<close>

definition cmd_mark :: "session_machine \<Rightarrow> nat" where
  "cmd_mark s = (case sn_last_command_id s of None \<Rightarrow> 0 | Some c \<Rightarrow> Suc (unat c))"

definition sn_frame :: "session_machine \<Rightarrow> session_machine \<Rightarrow> bool" where
  "sn_frame s t \<longleftrightarrow>
     sn_reducer_instance t = sn_reducer_instance s \<and> sn_session_id t = sn_session_id s
     \<and> sn_provisioning_epoch t = sn_provisioning_epoch s \<and> sn_helper_build t = sn_helper_build s
     \<and> cmd_mark s \<le> cmd_mark t \<and> sn_last_stop_id s \<le> sn_last_stop_id t
     \<and> sn_last_run_id s \<le> sn_last_run_id t"

definition same_command :: "session_machine \<Rightarrow> session_machine \<Rightarrow> bool" where
  "same_command s t \<longleftrightarrow>
     sn_last_command_id t = sn_last_command_id s
     \<and> sn_pending_remote_command t = sn_pending_remote_command s"

text \<open>A registry only loses live entries.\<close>

definition registry_shrinks :: "('k::linorder, 'v option) btree_map \<Rightarrow> ('k, 'v option) btree_map \<Rightarrow> bool" where
  "registry_shrinks m n \<longleftrightarrow> (bt_sorted m \<longrightarrow> bt_sorted n \<and> length n \<le> length m
     \<and> (\<forall>k v. bt_lookup n k = Some (Some v) \<longrightarrow> bt_lookup m k = Some (Some v)))"

lemma registry_shrinks_refl: "registry_shrinks m m"
  by (simp add: registry_shrinks_def)

lemma registry_shrinks_trans: "registry_shrinks l m \<Longrightarrow> registry_shrinks m n \<Longrightarrow> registry_shrinks l n"
  by (auto simp: registry_shrinks_def)

lemma registry_shrinks_Nil: "registry_shrinks m []"
  by (simp add: registry_shrinks_def bt_lookup_def)

lemma registry_shrinks_spend:
  assumes "bt_spend k m = (r, n)"
  shows "registry_shrinks m n"
  unfolding registry_shrinks_def
proof (intro impI conjI allI)
  assume m: "bt_sorted m"
  show "bt_sorted n" by (rule bt.invar_spend [OF m assms])
  show "length n \<le> length m" using bt.size_spend [OF m assms] by simp
  fix j v assume "bt_lookup n j = Some (Some v)"
  then show "bt_lookup m j = Some (Some v)"
    using bt.spend_not_live [OF m assms] bt.spend_other [OF m assms] by (cases "j = k") auto
qed

definition leases_shrink :: "session_machine \<Rightarrow> session_machine \<Rightarrow> bool" where
  "leases_shrink s t \<longleftrightarrow>
     registry_shrinks (sn_host_risk_leases s) (sn_host_risk_leases t)
     \<and> registry_shrinks (sn_sandbox_ownership_leases s) (sn_sandbox_ownership_leases t)
     \<and> sn_session_id t = sn_session_id s \<and> sn_provisioning_epoch t = sn_provisioning_epoch s"

lemma sn_frame_trans: "sn_frame s t \<Longrightarrow> sn_frame t u \<Longrightarrow> sn_frame s u"
  by (auto simp: sn_frame_def)

lemma leases_shrink_trans: "leases_shrink s t \<Longrightarrow> leases_shrink t u \<Longrightarrow> leases_shrink s u"
  unfolding leases_shrink_def by (metis registry_shrinks_trans)

interpretation fr: session_frame sn_frame
proof
  show "sn_frame s u" if "sn_frame s t" "sn_frame t u" for s t u by (rule sn_frame_trans [OF that])
qed (simp_all add: sn_frame_def cmd_mark_def)

interpretation pc: session_frame same_command
  by unfold_locales (simp_all add: same_command_def)

interpretation ls: session_frame leases_shrink
proof
  show "leases_shrink s u" if "leases_shrink s t" "leases_shrink t u" for s t u
    by (rule leases_shrink_trans [OF that])
qed (simp_all add: leases_shrink_def registry_shrinks_refl registry_shrinks_Nil registry_shrinks_spend)

text \<open>The state follows the protocol's successor relation.\<close>

definition legal_step :: "session_state \<Rightarrow> session_state \<Rightarrow> bool" where
  "legal_step a b \<longleftrightarrow> validate_successor a b = Inr ()"

definition legal_path :: "session_machine \<Rightarrow> session_machine \<Rightarrow> bool" where
  "legal_path s t \<longleftrightarrow> legal_step\<^sup>*\<^sup>* (sn_state s) (sn_state t)"

interpretation lg: session_frame legal_path
proof
  show "legal_path s u" if "legal_path s t" "legal_path t u" for s t u
    using that unfolding legal_path_def by (rule rtranclp_trans)
qed (auto simp: legal_path_def legal_step_def)

section \<open>Commands\<close>

lemma sn_observe_command_eq:
  "sn_observe_command_id c s =
     (case sn_last_command_id s of
        Some prev \<Rightarrow> if c \<le> prev then (Inl (SeNonMonotonicCommandId prev c), s)
          else (Inr (), s\<lparr>sn_last_command_id := Some c\<rparr>)
      | None \<Rightarrow> (Inr (), s\<lparr>sn_last_command_id := Some c\<rparr>))"
  by (auto simp: sn_observe_command_id_def and_then_def sm_defs split: option.splits)

definition same_pending :: "session_machine \<Rightarrow> session_machine \<Rightarrow> bool" where
  "same_pending s t \<longleftrightarrow> sn_pending_remote_command t = sn_pending_remote_command s"

interpretation pp: frame same_pending
  by unfold_locales (auto simp: same_pending_def)

lemma observe_command_frames:
  "moves sn_frame (sn_observe_command_id c)" "moves same_pending (sn_observe_command_id c)"
  "moves leases_shrink (sn_observe_command_id c)" "moves legal_path (sn_observe_command_id c)"
  by (auto simp: moves_def sn_observe_command_eq sn_frame_def cmd_mark_def same_pending_def
      legal_path_def leases_shrink_def registry_shrinks_refl word_le_nat_alt split: option.splits)

lemma accept_inner_frames:
  "moves sn_frame (sn_accept_command_inner sha e)" "moves same_pending (sn_accept_command_inner sha e)"
  "moves leases_shrink (sn_accept_command_inner sha e)" "moves legal_path (sn_accept_command_inner sha e)"
proof -
  have d: "moves same_pending (sn_dispatch sha c)" for c
    by (rule moves_weaken [OF pc.dispatch_frame]) (simp add: same_command_def same_pending_def)
  show "moves sn_frame (sn_accept_command_inner sha e)" "moves same_pending (sn_accept_command_inner sha e)"
    "moves leases_shrink (sn_accept_command_inner sha e)" "moves legal_path (sn_accept_command_inner sha e)"
    unfolding sn_accept_command_inner_def
    by (intro fr.moves_and_then fr.moves_pure fr.dispatch_frame d ls.moves_and_then ls.moves_pure
        ls.dispatch_frame lg.moves_and_then lg.moves_pure lg.dispatch_frame observe_command_frames pp.moves_and_then pp.moves_pure)+
qed

end
