(* ===== verification/Session_Operations.thy ===== *)
theory Session_Operations
  imports Session_Frames
begin

text \<open>
  Every public operation of \<open>session_machine.rs\<close>, as one conditional equation each, and that
  it keeps the visible invariant whether it succeeds or fails.
\<close>

section \<open>Commands keep the visible invariant\<close>

lemma sn_vis_command [simp]:
  "sn_vis (s\<lparr>sn_last_command_id := c\<rparr>) = sn_vis s" "sn_vis (s\<lparr>sn_pending_remote_command := p\<rparr>) = sn_vis s"
proof -
  have "state_bound (s\<lparr>sn_last_command_id := c\<rparr>) = state_bound s"
    "state_bound (s\<lparr>sn_pending_remote_command := p\<rparr>) = state_bound s"
    by (cases "sn_state s", simp_all add: state_bound_def sn_created_sandbox_process_def)+
  moreover have "ownership_ok (s\<lparr>sn_last_command_id := c\<rparr>) = ownership_ok s"
    "ownership_ok (s\<lparr>sn_pending_remote_command := p\<rparr>) = ownership_ok s"
    by (simp_all add: ownership_ok_def sandbox_bound_def cong: option.case_cong)
  ultimately show "sn_vis (s\<lparr>sn_last_command_id := c\<rparr>) = sn_vis s"
    "sn_vis (s\<lparr>sn_pending_remote_command := p\<rparr>) = sn_vis s"
    by (simp_all add: sn_vis_def)
qed

text \<open>The kinds of state in which each command that changes state is allowed.\<close>

lemma stopped_at_kind: "stopped_at k st \<Longrightarrow> session_kind st = KStopped"
  by (cases st) (simp_all add: stopped_at_def)

lemma allowed_kinds:
  "command_allowed (CmdOpen t) st \<Longrightarrow> session_kind st = KIdle"
  "command_allowed (CmdPause run) st \<Longrightarrow> session_kind st = KRunning"
  "command_allowed (CmdDetach live) st \<Longrightarrow> session_kind st \<in> {KStopped, KRunning, KObserving}"
  "command_allowed (CmdTerminate ex) st \<Longrightarrow> session_kind st \<in> {KStopped, KRunning}"
  "command_allowed (CmdClose tok) st \<Longrightarrow> session_kind st \<noteq> KClosed"
  subgoal by (cases st) simp_all
  subgoal by (cases st) simp_all
  subgoal by (cases st; cases live) simp_all
  subgoal by (cases st; cases ex) simp_all
  subgoal by (cases st) simp_all
  done

lemma sn_vis_dispatch:
  assumes "sn_vis s" "command_allowed c (sn_state s)" "sn_dispatch sha c s = (r, t)"
  shows "sn_vis t"
proof (cases c)
  case (CmdOpen target)
  then show ?thesis
    using assms allowed_kinds(1) by (auto simp: sn_dispatch_def intro: sn_vis_open)
next
  case (CmdPause run)
  then show ?thesis
    using assms allowed_kinds(2) by (auto simp: sn_dispatch_def intro: sn_vis_pause)
next
  case (CmdDetach live)
  then have "session_kind (sn_state s) \<in> {KStopped, KRunning, KObserving}"
    using assms(2) allowed_kinds(3) by simp
  then show ?thesis
    using assms(1,3) CmdDetach sn_vis_detach by (simp add: sn_dispatch_def)
next
  case (CmdTerminate ex)
  then have "session_kind (sn_state s) \<in> {KStopped, KRunning}"
    using assms(2) allowed_kinds(4) by simp
  then have "session_kind (sn_state s) \<noteq> KClosed" by auto
  then show ?thesis
    using assms(1,3) CmdTerminate sn_vis_shutdown_op by (simp add: sn_dispatch_def)
next
  case (CmdClose tok)
  then show ?thesis
    using assms allowed_kinds(5) sn_vis_shutdown_op by (simp add: sn_dispatch_def)
qed (use assms stopped_at_kind in
    \<open>auto simp: sn_dispatch_def sm_defs intro: sn_vis_run_op sn_vis_refresh\<close>)

text \<open>What a command that reaches the dispatcher has passed.\<close>

definition command_admitted :: "session_machine \<Rightarrow> command_envelope \<Rightarrow> bool" where
  "command_admitted s e \<longleftrightarrow>
     command_envelope_validate e = Inr ()
     \<and> (\<forall>c. sn_last_command_id s = Some c \<longrightarrow> c < ce_command_id e)
     \<and> ce_command e \<noteq> CmdProbeCapabilities \<and> command_validate_against e (sn_state s) = Inr ()"

lemma accept_inner_admitted:
  assumes "command_admitted s e"
  shows "sn_accept_command_inner sha e s =
    and_then (sn_dispatch sha (ce_command e)) (\<lambda>_. gets sn_state)
      (s\<lparr>sn_last_command_id := Some (ce_command_id e)\<rparr>)"
proof -
  have "sn_observe_command_id (ce_command_id e) s = (Inr (), s\<lparr>sn_last_command_id := Some (ce_command_id e)\<rparr>)"
    using assms by (auto simp: sn_observe_command_eq command_admitted_def split: option.splits)
  then show ?thesis
    using assms by (simp add: sn_accept_command_inner_def and_then_def sm_defs command_admitted_def)
qed

lemma accept_inner_refused:
  assumes "\<not> command_admitted s e"
  shows "\<exists>err. sn_accept_command_inner sha e s = (Inl err, s)
     \<or> sn_accept_command_inner sha e s = (Inl err, s\<lparr>sn_last_command_id := Some (ce_command_id e)\<rparr>)"
  using assms
  by (auto simp: sn_accept_command_inner_def and_then_def sm_defs command_admitted_def
      sn_observe_command_eq guard_def split: sum.splits option.splits if_splits prod.splits)

lemma sn_vis_accept_inner:
  assumes "sn_vis s" "sn_accept_command_inner sha e s = (r, t)"
  shows "sn_vis t"
proof (cases "command_admitted s e")
  case True
  let ?s = "s\<lparr>sn_last_command_id := Some (ce_command_id e)\<rparr>"
  have "command_allowed (ce_command e) (sn_state ?s)"
    using True by (auto simp: command_admitted_def validate_against_iff)
  moreover have "snd (sn_dispatch sha (ce_command e) ?s) = t"
    using assms(2) accept_inner_admitted [OF True]
    by (auto simp: and_then_def gets_def split: prod.splits sum.splits)
  ultimately show ?thesis
    using sn_vis_dispatch [of ?s "ce_command e" sha] assms(1) by (metis prod.collapse sn_vis_command(1))
next
  case False
  then show ?thesis using assms accept_inner_refused [OF False, of sha] by auto
qed

section \<open>Host observations\<close>

lemma require_open_target_run:
  assumes "sn_vis s"
  shows "and_then (sn_require_open_target act p) f s =
    (if session_kind (sn_state s) = KOpening \<and> p (the (sn_target s)) then f () s
     else (Inl (SeInvalidTransition (session_kind (sn_state s)) act), s))"
proof (cases "session_kind (sn_state s) = KOpening")
  case True
  then obtain t where "sn_target s = Some t" using assms by (auto simp: sn_vis_def)
  then show ?thesis using True
    by (simp add: sn_require_open_target_def sn_require_state_def and_then_def lift_result_def)
next
  case False
  then show ?thesis
    by (simp add: sn_require_open_target_def sn_require_state_def and_then_def lift_result_def)
qed

lemma gates_for_dump: "gates_for (Some (DtDump d)) = {NotApplicable}" "gates_for (Some (DtOffline f)) = {NotApplicable}"
  by (simp_all add: gates_for_def)

lemma gates_for_attach: "gates_for (Some (DtAttach a)) \<subseteq> {HostRiskAccepted, InheritedSandbox}"
  by (simp add: gates_for_def split: attach_scope.split)

lemma sn_vis_gate: "sn_vis s \<Longrightarrow> sn_execution_gate s \<in> gates_for (sn_target s)"
  by (simp add: sn_vis_def ownership_ok_def)

text \<open>Completing an open: one equation for the three observations that need no token of their own.\<close>

lemma complete_open_eq:
  assumes "sn_vis s" "session_state_token (n (next_token s)) = next_token s"
    and "session_kind (n (next_token s)) \<in> {KOffline, KDump, KObserving}"
  shows "and_then (sn_require_open_target act p) (\<lambda>_.
      and_then sn_next_state_token (\<lambda>next. and_then (sn_transition_to (n next)) (\<lambda>_. gets sn_state))) s =
    (if session_kind (sn_state s) \<noteq> KOpening \<or> \<not> p (the (sn_target s))
     then (Inl (SeInvalidTransition (session_kind (sn_state s)) act), s)
     else if \<not> gen_room s then (Inl (SeProtocol PeStateGenerationOverflow), s)
     else (Inr (n (next_token s)), s\<lparr>sn_state := n (next_token s)\<rparr>))"
  using assms(2,3) sn_vis_token [OF assms(1)]
  by (auto simp: require_open_target_run [OF assms(1)] next_token_run transition_run gets_def)

lemmas complete_open_defs = sn_complete_open_offline_def sn_complete_open_dump_def
  sn_complete_open_observing_def

lemma sn_vis_complete_open:
  assumes "sn_vis s"
  shows "sn_complete_open_offline s = (r, t) \<Longrightarrow> sn_vis t"
    "sn_complete_open_dump s = (r, t) \<Longrightarrow> sn_vis t"
    "sn_complete_open_observing pid s = (r, t) \<Longrightarrow> sn_vis t"
proof -
  have target: "sn_target s \<noteq> None" if "session_kind (sn_state s) = KOpening"
    using assms that by (auto simp: sn_vis_def)
  have gate: "sn_execution_gate s \<in> gates_for (sn_target s)" by (rule sn_vis_gate [OF assms])
  show "sn_vis t" if "sn_complete_open_offline s = (r, t)"
  proof (cases "t = s")
    case False
    then have t: "t = s\<lparr>sn_state := StOffline (next_token s)\<rparr>" "gen_room s"
      "sn_target s \<noteq> None" "case the (sn_target s) of DtOffline _ \<Rightarrow> True | _ \<Rightarrow> False"
      using that target unfolding sn_complete_open_offline_def
      by (auto simp: complete_open_eq [where n = StOffline, OF assms] split: if_splits)
    moreover have "sn_execution_gate s = NotApplicable"
      using gate t(3,4) by (auto simp: gates_for_dump split: debug_target.splits)
    ultimately show ?thesis using assms by (simp add: sn_vis_state)
  qed (use assms in simp)
  show "sn_vis t" if "sn_complete_open_dump s = (r, t)"
  proof (cases "t = s")
    case False
    then have t: "t = s\<lparr>sn_state := StDump (next_token s)\<rparr>" "gen_room s"
      "sn_target s \<noteq> None" "case the (sn_target s) of DtDump _ \<Rightarrow> True | _ \<Rightarrow> False"
      using that target unfolding sn_complete_open_dump_def
      by (auto simp: complete_open_eq [where n = StDump, OF assms] split: if_splits)
    moreover have "sn_execution_gate s = NotApplicable"
      using gate t(3,4) by (auto simp: gates_for_dump split: debug_target.splits)
    ultimately show ?thesis using assms by (simp add: sn_vis_state)
  qed (use assms in simp)
  show "sn_vis t" if "sn_complete_open_observing pid s = (r, t)"
  proof (cases "t = s")
    case False
    then have t: "t = s\<lparr>sn_state := StObserving (next_token s) pid\<rparr>" "gen_room s"
      "sn_target s \<noteq> None" "case the (sn_target s) of DtAttach a \<Rightarrow> aa_mode a = AmObserveReadOnly | _ \<Rightarrow> False"
      using that target unfolding sn_complete_open_observing_def
      by (auto simp: complete_open_eq [where n = "\<lambda>k. StObserving k pid", OF assms] split: if_splits)
    moreover have "sn_execution_gate s \<in> {HostRiskAccepted, InheritedSandbox}"
      using gate t(3,4) gates_for_attach by (fastforce split: debug_target.splits)
    ultimately show ?thesis using assms by (simp add: sn_vis_state)
  qed (use assms in simp)
qed

lemma opening_not_accepted:
  assumes "sn_vis s" "session_kind (sn_state s) = KOpening" "sn_sandbox s = Some x"
  shows "sn_execution_gate s = SandboxPending"
proof -
  have x: "sx_inv x" "sx_state x = LsProvisioning"
    using assms sn_vis_sandbox [OF assms(1,3)] by auto
  then have "sx_accepted_attestation x = None"
    by (intro sx_inv_no_attestation) (auto simp: sx_inv_def)
  then show ?thesis using sn_vis_sandbox(2,3) [OF assms(1,3)] by auto
qed

text \<open>The states from which an observed stop is a legal successor.\<close>

definition may_stop :: "session_machine \<Rightarrow> bool" where
  "may_stop s \<longleftrightarrow>
     session_kind (sn_state s) \<in> {KOpening, KAttestationAccepted, KRunning, KPausing}
     \<and> sn_execution_gate s \<noteq> SandboxPending
     \<and> (session_kind (sn_state s) = KOpening \<longrightarrow> stops_on_open (the (sn_target s)))"

lemma sn_mark_stopped_eq:
  assumes "sn_vis s"
  shows "sn_mark_stopped reason thread s =
    (if may_stop s then
       if \<not> gen_room s then (Inl (SeProtocol PeStateGenerationOverflow), s)
       else if \<not> stop_room s then (Inl SeStopIdOverflow, s)
       else (Inr (sn_state (stopped_update s reason thread)), stopped_update s reason thread)
     else (Inl (if sn_execution_gate s = SandboxPending
                   \<and> session_kind (sn_state s) \<in> {KOpening, KAttestationAccepted, KRunning, KPausing}
                then SeAttestationNotAccepted
                else SeInvalidTransition (session_kind (sn_state s)) ''mark stopped''), s))"
proof -
  have open_check: "and_then (\<lambda>s. if session_kind (sn_state s) = KOpening
        then sn_require_open_target ''mark stopped'' stops_on_open s else ok () s) f s =
    (if session_kind (sn_state s) = KOpening \<and> \<not> stops_on_open (the (sn_target s))
     then (Inl (SeInvalidTransition KOpening ''mark stopped''), s) else f () s)" for f
    using require_open_target_run [OF assms, of "''mark stopped''" stops_on_open f]
    by (auto simp: and_then_def ok_def)
  let ?k = "\<lparr>sk_state = next_token s, sk_stop_id = sn_last_stop_id s + 1\<rparr>"
  have "and_then (sn_transition_to (StStopped ?k reason thread)) (\<lambda>_. gets sn_state)
      (s\<lparr>sn_last_stop_id := sn_last_stop_id s + 1\<rparr>) =
    (Inr (sn_state (stopped_update s reason thread)), stopped_update s reason thread)"
    if "gen_room s" "session_kind (sn_state s) \<in> {KOpening, KAttestationAccepted, KRunning, KPausing}"
    using that sn_vis_token [OF assms]
    by (subst transition_run) (auto simp: gets_def stopped_update_def)
  then show ?thesis
    by (auto simp: sn_mark_stopped_def require_state_run guard_run open_check next_token_run
        stop_token_run may_stop_def)
qed

lemma may_stop_phase:
  assumes "sn_vis s" "may_stop s"
  shows "phase_ok KStopped (sn_target s) (sn_execution_gate s) (map_option sx_state (sn_sandbox s))"
proof -
  let ?k = "session_kind (sn_state s)"
  have gate: "sn_execution_gate s \<noteq> SandboxPending" using assms(2) by (simp add: may_stop_def)
  have ph: "phase_ok ?k (sn_target s) (sn_execution_gate s) (map_option sx_state (sn_sandbox s))"
    using assms(1) by (simp add: sn_vis_def)
  consider "?k = KOpening" | "?k = KAttestationAccepted" | "?k \<in> {KRunning, KPausing}"
    using assms(2) by (auto simp: may_stop_def)
  then show ?thesis
  proof cases
    case 1
    then have "sn_sandbox s = None"
      using opening_not_accepted [OF assms(1)] gate by (cases "sn_sandbox s") auto
    moreover obtain t where "sn_target s = Some t" "stops_on_open t"
      using 1 ph assms(2) by (auto simp: may_stop_def)
    ultimately show ?thesis
      using sn_vis_gate [OF assms(1)] gate gates_for_attach
      by (cases t) (auto simp: gates_for_def stops_on_open_def exec_gates_def
          split: launch_environment.splits attach_scope.splits)
  next
    case 2
    then obtain x where "sn_sandbox s = Some x" "sx_state x = LsAttestationAccepted" using ph by auto
    then show ?thesis using sn_vis_sandbox(2) [OF assms(1)] gate by (auto simp: exec_gates_def)
  next
    case 3
    then show ?thesis using ph by auto
  qed
qed

lemma sn_vis_mark_stopped:
  assumes "sn_vis s" "sn_mark_stopped reason thread s = (r, t)"
  shows "sn_vis t"
  using assms may_stop_phase [OF assms(1)]
  by (auto simp: sn_mark_stopped_eq [OF assms(1)] sn_vis_stopped split: if_splits)

definition may_exit :: "session_machine \<Rightarrow> bool" where
  "may_exit s \<longleftrightarrow> session_kind (sn_state s) \<in> {KAttestationAccepted, KStopped, KRunning, KPausing}"

definition exited_update :: "session_machine \<Rightarrow> u32 \<Rightarrow> session_machine" where
  "exited_update s code = (with_life LsCleanup s)\<lparr>sn_state := StExited (next_token s) code\<rparr>"

lemma sn_mark_exited_eq:
  assumes "sn_vis s"
  shows "sn_mark_exited code s =
    (if \<not> may_exit s then (Inl (SeInvalidTransition (session_kind (sn_state s)) ''mark exited''), s)
     else if \<not> gen_room s then (Inl (SeProtocol PeStateGenerationOverflow), s)
     else (Inr (StExited (next_token s) code), exited_update s code))"
  using sn_vis_token [OF assms]
  by (auto simp: sn_mark_exited_def require_state_run next_token_run begin_cleanup_run [OF assms]
      transition_run gets_def may_exit_def exited_update_def)

lemma sn_vis_exited:
  assumes "sn_vis s" "may_exit s" "gen_room s"
  shows "sn_vis (exited_update s code)"
  unfolding exited_update_def
proof (rule sn_vis_life [OF assms(1,3)])
  have "sn_execution_gate s \<in> exec_gates"
    using assms sn_vis_sandbox(2,3) [OF assms(1)]
    by (auto simp: sn_vis_def may_exit_def exec_gates_def ownership_ok_def sandbox_bound_def sx_inv_def
        split: option.splits)
  then show "phase_ok (session_kind (StExited (next_token s) code)) (sn_target s) (sn_execution_gate s)
      (map_option (\<lambda>_. LsCleanup) (sn_sandbox s))"
    by (cases "sn_sandbox s") simp_all
qed (use assms(1) in \<open>auto intro: sn_vis_cleanup_inv\<close>)

lemma sn_vis_mark_exited:
  "sn_vis s \<Longrightarrow> sn_mark_exited code s = (r, t) \<Longrightarrow> sn_vis t"
  by (auto simp: sn_mark_exited_eq sn_vis_exited split: if_splits)

lemma sandbox_not_closed:
  assumes "sn_vis s" "session_kind (sn_state s) \<noteq> KClosed" "sn_sandbox s = Some x"
  shows "sx_state x \<noteq> LsClosed"
  using sn_vis_sandbox(2,4) [OF assms(1,3)] assms(2,3) sn_vis_idle [OF assms(1)]
  by (cases "session_kind (sn_state s)") auto

definition failure_message_ok :: "string \<Rightarrow> bool" where
  "failure_message_ok m \<longleftrightarrow> \<not> trim_is_empty m \<and> length m \<le> MAX_REASON_BYTES \<and> \<not> has_control m"

definition creation_known :: "session_machine \<Rightarrow> bool" where
  "creation_known s \<longleftrightarrow> (\<forall>x. sn_sandbox s = Some x \<longrightarrow> sx_target_creation x \<noteq> None)"

definition failed_update :: "session_machine \<Rightarrow> string \<Rightarrow> session_machine" where
  "failed_update s m = (with_life LsCleanup s)\<lparr>sn_state := StFailed (next_token s) m\<rparr>"

lemma sn_mark_failed_eq:
  assumes "sn_vis s"
  shows "sn_mark_failed m s =
    (if session_kind (sn_state s) = KClosed then (Inl (SeInvalidTransition KClosed ''mark failed''), s)
     else if \<not> failure_message_ok m then (Inl SeInvalidFailureMessage, s)
     else if \<not> gen_room s then (Inl (SeProtocol PeStateGenerationOverflow), s)
     else if \<not> creation_known s then (Inl (SeSandbox SxeTargetCreationOutcomeMissing), s)
     else (Inr (StFailed (next_token s) m), failed_update s m))"
proof -
  have sand: "and_then (on_sandbox sx_mark_failed) (\<lambda>_. and_then (on_sandbox sx_begin_cleanup) f) s =
    (if creation_known s then f () (with_life LsCleanup s)
     else (Inl (SeSandbox SxeTargetCreationOutcomeMissing), s))"
    if "session_kind (sn_state s) \<noteq> KClosed" for f
  proof (cases "sn_sandbox s")
    case (Some x)
    then show ?thesis
      using sandbox_not_closed [OF assms that Some]
      by (cases "sx_target_creation x")
        (simp_all add: on_sandbox_run creation_known_def sx_mark_failed_eq sx_begin_cleanup_eq with_life_Some)
  qed (simp add: on_sandbox_run creation_known_def with_life_None)
  have "KFailed \<in> set (successor_kinds k)" if "k \<noteq> KClosed" for k
    using that by (cases k) auto
  then show ?thesis
    using sn_vis_token [OF assms]
    by (auto simp: sn_mark_failed_def guard_run next_token_run sand transition_run gets_def
        failure_message_ok_def failed_update_def)
qed

lemma sn_vis_failed:
  assumes "sn_vis s" "gen_room s"
  shows "sn_vis (failed_update s m)"
  unfolding failed_update_def
proof (rule sn_vis_life [OF assms])
  show "phase_ok (session_kind (StFailed (next_token s) m)) (sn_target s) (sn_execution_gate s)
      (map_option (\<lambda>_. LsCleanup) (sn_sandbox s))"
    by (cases "sn_sandbox s") simp_all
qed (use assms(1) in \<open>auto intro: sn_vis_cleanup_inv\<close>)

lemma sn_vis_mark_failed: "sn_vis s \<Longrightarrow> sn_mark_failed m s = (r, t) \<Longrightarrow> sn_vis t"
  by (auto simp: sn_mark_failed_eq sn_vis_failed split: if_splits)

subsection \<open>Sandbox evidence\<close>

lemma pending_sandbox_run:
  assumes "sn_sandbox s = Some x"
  shows "and_then (on_pending_sandbox op) f s = (case op x of
      (Inl e, y) \<Rightarrow> (Inl (SeSandbox e), s\<lparr>sn_sandbox := Some y\<rparr>)
    | (Inr _, y) \<Rightarrow> f () (s\<lparr>sn_sandbox := Some y\<rparr>))"
  using assms
  by (simp add: on_pending_sandbox_def and_then_def lift_result_def on_sandbox_def
      split: prod.splits sum.splits)

lemma gate_pending_sandbox:
  "sn_vis s \<Longrightarrow> sn_execution_gate s \<in> {SandboxPending, SandboxAccepted} \<Longrightarrow> \<exists>x. sn_sandbox s = Some x"
  by (auto simp: sn_vis_def ownership_ok_def split: option.splits)

lemma same_sandbox: "sn_sandbox s = x \<Longrightarrow> s\<lparr>sn_sandbox := x\<rparr> = s"
  by auto

lemma sn_created_suspended_eq:
  assumes "sn_vis s"
  shows "sn_target_created_suspended p s =
    (if session_kind (sn_state s) \<noteq> KOpening
     then (Inl (SeInvalidTransition (session_kind (sn_state s)) ''record suspended target''), s)
     else if sn_execution_gate s \<noteq> SandboxPending then (Inl SeSandboxNotPending, s)
     else if \<not> gen_room s then (Inl (SeProtocol PeStateGenerationOverflow), s)
     else (let x = the (sn_sandbox s) in
       if sx_target_creation x \<noteq> None then (Inl (SeSandbox SxeTargetCreationOutcomeMismatch), s)
       else if pi_binary_id p \<noteq> ea_binary_id (sx_expected x)
       then (Inl (SeSandbox SxeCreatedProcessIdentityMismatch), s)
       else (Inr (StAwaitingAttestation (next_token s) p),
             s\<lparr>sn_sandbox := Some (x\<lparr>sx_state := LsTargetCreatedSuspended,
                  sx_target_creation := Some (Created p)\<rparr>),
               sn_state := StAwaitingAttestation (next_token s) p\<rparr>)))"
proof (cases "session_kind (sn_state s) = KOpening \<and> sn_execution_gate s = SandboxPending \<and> gen_room s")
  case True
  then obtain x where x: "sn_sandbox s = Some x" using gate_pending_sandbox [OF assms] by auto
  have life: "sx_state x = LsProvisioning"
    using sn_vis_sandbox(4) [OF assms x] True by auto
  show ?thesis
    using True x life sn_vis_token [OF assms]
    by (auto simp: sn_target_created_suspended_def require_state_run guard_run next_token_run
        pending_sandbox_run [OF x] sx_created_suspended_eq transition_run gets_def same_sandbox Let_def)
qed (auto simp: sn_target_created_suspended_def require_state_run guard_run next_token_run)

lemma sn_vis_created_suspended:
  assumes "sn_vis s" "sn_target_created_suspended p s = (r, t)"
  shows "sn_vis t"
proof (cases "t = s")
  case False
  let ?k = "StAwaitingAttestation (next_token s) p"
  let ?y = "\<lambda>x. x\<lparr>sx_state := LsTargetCreatedSuspended, sx_target_creation := Some (Created p)\<rparr>"
  have c: "session_kind (sn_state s) = KOpening" "sn_execution_gate s = SandboxPending" "gen_room s"
    "sx_target_creation (the (sn_sandbox s)) = None"
    "pi_binary_id p = ea_binary_id (sx_expected (the (sn_sandbox s)))"
    "t = s\<lparr>sn_sandbox := Some (?y (the (sn_sandbox s))), sn_state := ?k\<rparr>"
    using assms(2) False by (auto simp: sn_created_suspended_eq [OF assms(1)] Let_def split: if_splits)
  obtain x where x: "sn_sandbox s = Some x" using gate_pending_sandbox [OF assms(1)] c(2) by auto
  let ?w = "s\<lparr>sn_sandbox := Some (?y x)\<rparr>"
  have "sx_inv (?y x)" using c(4,5) x sn_vis_sandbox(1) [OF assms(1) x] by (simp add: sx_inv_created)
  then have own: "ownership_ok ?w"
    using assms(1) x by (intro ownership_ok_sandbox [of _ x]) (simp_all add: sn_vis_def)
  have "state_bound (?w\<lparr>sn_state := ?k\<rparr>)"
    using c(3) by (intro state_bound_next)
      (auto simp: sn_created_sandbox_process_def sx_created_process_def)
  then show ?thesis using own c(6) x by (simp add: sn_vis_def)
qed (use assms in simp)

lemma awaiting_sandbox:
  assumes "sn_vis s" "session_kind (sn_state s) = KAwaitingAttestation"
  obtains x p where "sn_sandbox s = Some x" "sx_inv x" "sx_state x = LsTargetCreatedSuspended"
    "sx_target_creation x = Some (Created p)"
proof -
  obtain x where x: "sn_sandbox s = Some x" "sx_state x = LsTargetCreatedSuspended"
    using assms by (auto simp: sn_vis_def)
  then show ?thesis using that sn_vis_sandbox(1) [OF assms(1)] by (auto simp: sx_inv_def)
qed

lemma sole_ownership:
  assumes "sn_vis s" "sn_sandbox s = Some x"
  shows "sn_inherited_sandbox s = None"
  using assms by (cases "sn_inherited_sandbox s") (auto simp: sn_vis_def ownership_ok_def)

lemma gates_for_sandbox:
  "g \<in> gates_for t \<Longrightarrow> g \<in> {SandboxPending, SandboxAccepted} \<Longrightarrow> gates_for t = {SandboxPending, SandboxAccepted}"
  by (auto simp: gates_for_def
      split: option.splits debug_target.splits launch_environment.splits attach_scope.splits)

definition attested_update :: "session_machine \<Rightarrow> sandbox_attestation \<Rightarrow> session_machine" where
  "attested_update s a =
     s\<lparr>sn_sandbox := map_option (\<lambda>x. x\<lparr>sx_accepted_attestation := Some a, sx_state := LsAttestationAccepted\<rparr>)
         (sn_sandbox s),
       sn_execution_gate := SandboxAccepted, sn_state := StAttestationAccepted (next_token s)\<rparr>"

lemma sn_accept_attestation_eq:
  assumes "sn_vis s" "session_kind (sn_state s) = KAwaitingAttestation" "gen_room s"
    and x: "sn_sandbox s = Some x" and p: "sx_target_creation x = Some (Created p)"
  shows "sn_accept_sandbox_attestation a s =
    (case validate_exact (sx_expected x) a p of
       Inl m \<Rightarrow> (Inl (SeSandbox (SxeAttestation m)), s)
     | Inr _ \<Rightarrow> (Inr (StAttestationAccepted (next_token s)), attested_update s a))"
proof -
  have "sx_state x = LsTargetCreatedSuspended"
    using sn_vis_sandbox(4) [OF assms(1) x] assms(2) by simp
  moreover have "sx_created_process x = Some p" using p by (simp add: sx_created_process_Some)
  ultimately show ?thesis
    using assms(2,3) sn_vis_token [OF assms(1)] x
    by (auto simp: sn_accept_sandbox_attestation_def require_state_run next_token_run
        pending_sandbox_run [OF x] sx_accept_eq and_then_run transition_run gets_def same_sandbox
        attested_update_def split: sum.split)
qed

lemma sn_accept_attestation_refused:
  assumes "session_kind (sn_state s) \<noteq> KAwaitingAttestation \<or> \<not> gen_room s"
  shows "\<exists>e. sn_accept_sandbox_attestation a s = (Inl e, s)"
  using assms by (auto simp: sn_accept_sandbox_attestation_def require_state_run next_token_run)

lemma sn_vis_attested:
  assumes "sn_vis s" "sn_accept_sandbox_attestation a s = (r, t)"
  shows "sn_vis t"
proof (cases "session_kind (sn_state s) = KAwaitingAttestation \<and> gen_room s")
  case True
  then obtain x p where x: "sn_sandbox s = Some x" "sx_inv x" "sx_target_creation x = Some (Created p)"
    using awaiting_sandbox [OF assms(1)] by metis
  let ?y = "x\<lparr>sx_accepted_attestation := Some a, sx_state := LsAttestationAccepted\<rparr>"
  have "sn_vis (attested_update s a)" if v: "validate_exact (sx_expected x) a p = Inr ()"
  proof -
    have inv: "sx_inv ?y" using x v by (simp add: validate_exact_iff sx_inv_accepted)
    have own: "ownership_ok s" using assms(1) by (simp add: sn_vis_def)
    have "sn_execution_gate s \<in> gates_for (sn_target s)" by (rule sn_vis_gate [OF assms(1)])
    then have "gates_for (sn_target s) = {SandboxPending, SandboxAccepted}"
      by (rule gates_for_sandbox) (rule sn_vis_sandbox(2) [OF assms(1) x(1)])
    then have own': "ownership_ok (attested_update s a)"
      using own x(1) inv sole_ownership [OF assms(1) x(1)]
      by (simp add: ownership_ok_def sandbox_bound_def attested_update_def)
    have "state_bound (attested_update s a)"
      using next_generation_nonzero [of s] True by (simp add: attested_update_def state_bound_def)
    then show ?thesis using own' x(1) by (simp add: sn_vis_def) (simp add: attested_update_def)
  qed
  then show ?thesis
    using assms True sn_accept_attestation_eq [OF assms(1) _ _ x(1,3), of a]
    by (cases "validate_exact (sx_expected x) a p") auto
next
  case False
  then show ?thesis using assms sn_accept_attestation_refused [of s a] by auto
qed

subsection \<open>Closing\<close>

text \<open>The cleanup evidence that the ownership of the session demands.\<close>

definition cleanup_proven :: "session_machine \<Rightarrow> cleanup_receipt option \<Rightarrow> bool" where
  "cleanup_proven s receipt = (case sn_sandbox s of
     Some x \<Rightarrow> (case receipt of None \<Rightarrow> False | Some r \<Rightarrow> receipt_closes x r)
   | None \<Rightarrow> (case sn_inherited_sandbox s of
        Some b \<Rightarrow> (case receipt of None \<Rightarrow> False
          | Some r \<Rightarrow> sn_validate_inherited_cleanup b r = Inr ())
      | None \<Rightarrow> receipt = None))"

definition closed_update :: "session_machine \<Rightarrow> session_machine" where
  "closed_update s = (with_life LsClosed s)\<lparr>sn_state := StClosed (next_token s)\<rparr>"

lemma sn_close_ownership_run:
  assumes "sn_vis s" "session_kind (sn_state s) = KClosing"
  shows "sn_close_ownership receipt s = (Inr (), with_life LsClosed s) \<and> cleanup_proven s receipt
    \<or> (\<exists>e. sn_close_ownership receipt s = (Inl e, s)) \<and> \<not> cleanup_proven s receipt"
proof (cases "sn_sandbox s")
  case (Some x)
  have life: "sx_state x = LsCleanup" using sn_vis_sandbox(4) [OF assms(1) Some] assms(2) by simp
  have "sn_inherited_sandbox s = None" by (rule sole_ownership [OF assms(1) Some])
  then show ?thesis
  proof (cases receipt)
    case (Some r)
    show ?thesis
    proof (cases "receipt_closes x r")
      case True
      then have "sx_close r x = (Inr LsClosed, x\<lparr>sx_state := LsClosed\<rparr>)"
        using life by (simp add: sx_close_Inr_iff)
      then show ?thesis
        using True Some \<open>sn_sandbox s = Some x\<close> \<open>sn_inherited_sandbox s = None\<close>
        by (simp add: sn_close_ownership_def on_sandbox_def cleanup_proven_def with_life_Some)
    next
      case False
      then obtain e where "sx_close r x = (Inl e, x)"
        using sx_close_Inl [of r x] sx_close_Inr_iff [of r x] by (metis old.sum.exhaust prod.exhaust)
      then show ?thesis
        using False Some \<open>sn_sandbox s = Some x\<close> \<open>sn_inherited_sandbox s = None\<close>
        by (simp add: sn_close_ownership_def on_sandbox_def cleanup_proven_def same_sandbox)
    qed
  qed (use Some in \<open>simp add: sn_close_ownership_def fail_def cleanup_proven_def\<close>)
next
  case None
  note own = sn_close_ownership_def sm_defs cleanup_proven_def with_life_None [OF None] None
  show ?thesis
  proof (cases "sn_inherited_sandbox s")
    case (Some b)
    show ?thesis
    proof (cases receipt)
      case (Some r)
      then show ?thesis using \<open>sn_inherited_sandbox s = Some b\<close>
        by (cases "sn_validate_inherited_cleanup b r") (simp_all add: own)
    qed (simp add: own Some)
  qed (cases receipt; simp add: own)
qed

lemma sn_complete_close_run:
  assumes "sn_vis s"
  shows "sn_complete_close receipt s = (Inr (StClosed (next_token s)), closed_update s)
      \<and> session_kind (sn_state s) = KClosing \<and> gen_room s \<and> cleanup_proven s receipt
    \<or> (\<exists>e. sn_complete_close receipt s = (Inl e, s))
      \<and> \<not> (session_kind (sn_state s) = KClosing \<and> gen_room s \<and> cleanup_proven s receipt)"
proof (cases "session_kind (sn_state s) = KClosing \<and> gen_room s")
  case True
  have "and_then (sn_transition_to (StClosed (next_token s))) (\<lambda>_. gets sn_state) (with_life LsClosed s)
      = (Inr (StClosed (next_token s)), closed_update s)"
    using True sn_vis_token [OF assms] by (subst transition_run) (simp_all add: gets_def closed_update_def)
  then show ?thesis
    using True sn_close_ownership_run [OF assms, of receipt]
    by (auto simp: sn_complete_close_def require_state_run next_token_run
        and_then_def [of "sn_close_ownership receipt"])
qed (auto simp: sn_complete_close_def require_state_run next_token_run)

lemma receipt_closes_creation: "receipt_closes x r \<Longrightarrow> sx_target_creation x \<noteq> None"
  by (auto simp: receipt_closes_def sx_validate_cleanup_receipt_def)

lemma sn_vis_closed:
  assumes "sn_vis s" "gen_room s" "cleanup_proven s receipt"
  shows "sn_vis (closed_update s)"
  unfolding closed_update_def
proof (rule sn_vis_life [OF assms(1,2)])
  show "phase_ok (session_kind (StClosed (next_token s))) (sn_target s) (sn_execution_gate s)
      (map_option (\<lambda>_. LsClosed) (sn_sandbox s))"
    by (cases "sn_sandbox s") simp_all
  fix x assume x: "sn_sandbox s = Some x"
  then have "sx_target_creation x \<noteq> None"
    using assms(3) receipt_closes_creation by (auto simp: cleanup_proven_def split: option.splits)
  then show "sx_inv (x\<lparr>sx_state := LsClosed\<rparr>)"
    using sn_vis_sandbox(1) [OF assms(1) x] by (intro sx_inv_state) simp_all
qed simp_all

lemma sn_vis_complete_close: "sn_vis s \<Longrightarrow> sn_complete_close receipt s = (r, t) \<Longrightarrow> sn_vis t"
  using sn_complete_close_run [of s receipt] sn_vis_closed [of s receipt] by auto

text \<open>Updates of the recorded creation outcome.\<close>

lemma sn_vis_creation:
  assumes "sn_vis s" "sn_sandbox s = Some x" "sx_inv y" "sx_expected y = sx_expected x"
    and "sx_accepted_attestation y = sx_accepted_attestation x" "sx_state y = sx_state x"
    and "sx_created_process y = sx_created_process x"
  shows "sn_vis (s\<lparr>sn_sandbox := Some y\<rparr>)"
proof -
  have "ownership_ok (s\<lparr>sn_sandbox := Some y\<rparr>)"
    using assms by (intro ownership_ok_sandbox [of s x]) (simp_all add: sn_vis_def)
  moreover have "state_bound (s\<lparr>sn_sandbox := Some y\<rparr>)"
    using assms
    by (cases "sn_state s") (simp_all add: sn_vis_def state_bound_def sn_created_sandbox_process_def)
  ultimately show ?thesis using assms(1,2,6) by (simp add: sn_vis_def)
qed

lemma sn_vis_retain:
  assumes "sn_vis s" "on_sandbox (sx_retain_failure_target_creation c) s = (r, t)"
  shows "sn_vis t"
proof (cases "sn_sandbox s")
  case (Some x)
  show ?thesis
  proof (cases "sx_target_creation x = None \<and> c = NotCreated")
    case True
    have "sn_vis (s\<lparr>sn_sandbox := Some (x\<lparr>sx_target_creation := Some NotCreated\<rparr>)\<rparr>)"
      using True sn_vis_sandbox(1) [OF assms(1) Some]
      by (intro sn_vis_creation [OF assms(1) Some])
        (simp_all add: sx_inv_not_created sx_created_process_def)
    then show ?thesis using assms(2) Some True by (simp add: on_sandbox_def sx_retain_eq)
  next
    case False
    then have "t = s\<lparr>sn_sandbox := Some x\<rparr>"
      using assms(2) Some by (auto simp: on_sandbox_def sx_retain_eq split: if_splits)
    then show ?thesis using assms(1) Some by (simp add: same_sandbox)
  qed
qed (use assms in \<open>simp add: on_sandbox_def\<close>)

lemma on_sandbox_record:
  "on_sandbox sx_record_target_not_created s = (r, t) \<Longrightarrow>
     (\<exists>r. on_sandbox (sx_retain_failure_target_creation NotCreated) s = (r, t)) \<or> t = s"
  by (auto simp: on_sandbox_def sx_record_not_created_eq same_sandbox
      split: option.splits prod.splits sum.splits if_splits)

lemma sn_vis_record_not_created:
  assumes "sn_vis s" "sn_record_sandbox_target_not_created s = (r, t)"
  shows "sn_vis t"
proof (cases "on_sandbox sx_record_target_not_created s = (r, t)")
  case True
  then show ?thesis using on_sandbox_record [OF True] assms(1) by (auto intro: sn_vis_retain)
next
  case False
  then have "t = s"
    using assms(2) by (auto simp: sn_record_sandbox_target_not_created_def fail_def split: option.splits)
  then show ?thesis using assms(1) by simp
qed

lemma sn_vis_retain_failure:
  assumes "sn_vis s" "sn_retain_sandbox_failure_target_creation f s = (r, t)"
  shows "sn_vis t"
proof (cases "\<exists>c. on_sandbox (sx_retain_failure_target_creation c) s = (r, t)")
  case True
  then show ?thesis using assms(1) by (auto intro: sn_vis_retain)
next
  case False
  then have "t = s"
    using assms(2)
    by (auto simp: sn_retain_sandbox_failure_target_creation_def and_then_def sm_defs
        split: sum.splits option.splits if_splits failure_context.splits)
  then show ?thesis using assms(1) by simp
qed

subsection \<open>Unsolicited observations\<close>

lemma sn_vis_mark_observed: "sn_vis s \<Longrightarrow> mark_observed i s = (r, t) \<Longrightarrow> sn_vis t"
  by (cases i)
    (simp_all add: mark_observed_def split: prod.splits, blast intro: sn_vis_mark_stopped,
      blast intro: sn_vis_mark_exited)

lemma sn_vis_apply_each:
  "sn_vis s \<Longrightarrow> sn_apply_each obs s = (r, t) \<Longrightarrow> sn_vis t"
proof (induction obs arbitrary: s r)
  case (Cons ob obs)
  have one: "sn_vis u" if "sn_apply_observation ob s = (q, u)" for q u
    using apply_observation_mark [OF that] Cons.prems(1) sn_vis_mark_observed by blast
  show ?case
  proof (cases "sn_apply_observation ob s")
    case (Pair q u)
    then show ?thesis
      using one [OF Pair] Cons.prems(2) Cons.IH [of u] by (cases q) (auto simp: and_then_def)
  qed
qed (simp add: ok_def)

lemma sn_vis_unsolicited:
  "sn_vis s \<Longrightarrow> sn_apply_unsolicited_observations obs s = (r, t) \<Longrightarrow> sn_vis t"
  using unsolicited_cases [of obs s r t] sn_vis_apply_each [of s obs] by blast

lemma sn_vis_register:
  assumes "sn_vis s"
  shows "sn_register_host_risk_verifier v s = (r, t) \<Longrightarrow> sn_vis t"
    "sn_register_sandbox_ownership_verifier w s = (r, t) \<Longrightarrow> sn_vis t"
  using assms
  by (auto simp: sn_register_host_risk_verifier_def sn_register_sandbox_ownership_verifier_def
      sn_require_state_def sn_require_session_def and_then_def sm_defs with_leases_one
      split: sum.splits)

end
