(* ===== verification/Session_World.thy ===== *)
theory Session_World
  imports Session_Operations
begin

text \<open>
  The session reducer as its callers can drive it: a world is the reducer with the unforgeable
  tickets it has issued (checkpoints of remote commands, receipt identities of live writes), an
  input is one call of a public method, and \<open>sw_exec\<close> makes the call.  Tickets are named by their
  position in the order of issue and are never withdrawn, so a caller may try any of them at any
  time; a position that was never issued is refused.  The world's invariant is shown for every
  input, which makes \<open>sw_step\<close> a reducer with an invariant in the sense of the prelude.
\<close>

section \<open>Calls\<close>

record session_world =
  sw_machine :: session_machine
  sw_tickets :: "remote_checkpoint list"
  sw_receipts :: "live_write_receipt_identity list"

datatype (plugins only: code size) session_input =
    InRegisterHostRisk host_risk_verifier
  | InRegisterOwnership sandbox_ownership_verifier
  | InAccept command_envelope
  | InBegin command_envelope
  | InBeginLive command_envelope live_target_binding
  | InCommit nat command_id
  | InReject nat command_id
  | InLiveSuccess nat nat
  | InLiveNoEffect nat nat
  | InCreatedSuspended process_identity
  | InAttestation sandbox_attestation
  | InOpenOffline
  | InOpenDump
  | InOpenObserving process_id
  | InStopped stop_reason thread_id
  | InExited u32
  | InUnsolicited "session_state list"
  | InFailed string
  | InCompleteClose "cleanup_receipt option"
  | InNotCreated
  | InRetain sandbox_failure

datatype (plugins only: code size) session_outcome =
    Done
  | Refused session_error
  | RefusedBatch unsolicited_error
  | NoSuchTicket

definition sw_call :: "'a session_op \<Rightarrow> session_world \<Rightarrow> session_outcome \<times> session_world" where
  "sw_call m w = (case m (sw_machine w) of
     (Inl e, t) \<Rightarrow> (Refused e, w\<lparr>sw_machine := t\<rparr>)
   | (Inr _, t) \<Rightarrow> (Done, w\<lparr>sw_machine := t\<rparr>))"

definition sw_begin :: "(string \<Rightarrow> string) \<Rightarrow> command_envelope \<Rightarrow> session_world \<Rightarrow> session_outcome \<times> session_world" where
  "sw_begin sha e w = (case sn_begin_remote_command sha e (sw_machine w) of
     (Inl err, t) \<Rightarrow> (Refused err, w\<lparr>sw_machine := t\<rparr>)
   | (Inr c, t) \<Rightarrow> (Done, w\<lparr>sw_machine := t, sw_tickets := sw_tickets w @ [c]\<rparr>))"

text \<open>The allocation of a live write is fresh: the number of receipts issued before.\<close>

definition sw_begin_live ::
    "(string \<Rightarrow> string) \<Rightarrow> command_envelope \<Rightarrow> live_target_binding \<Rightarrow> session_world
     \<Rightarrow> session_outcome \<times> session_world" where
  "sw_begin_live sha e b w =
     (case sn_begin_live_memory_write sha (length (sw_receipts w)) e b (sw_machine w) of
        (Inl err, t) \<Rightarrow> (Refused err, w\<lparr>sw_machine := t\<rparr>)
      | (Inr (c, _, r), t) \<Rightarrow>
          (Done, w\<lparr>sw_machine := t, sw_tickets := sw_tickets w @ [c], sw_receipts := sw_receipts w @ [r]\<rparr>))"

definition sw_with_ticket ::
    "nat \<Rightarrow> (remote_checkpoint \<Rightarrow> session_world \<Rightarrow> session_outcome \<times> session_world)
     \<Rightarrow> session_world \<Rightarrow> session_outcome \<times> session_world" where
  "sw_with_ticket k f w =
     (if k < length (sw_tickets w) then f (sw_tickets w ! k) w else (NoSuchTicket, w))"

definition sw_with_receipt ::
    "nat \<Rightarrow> (live_write_receipt_identity \<Rightarrow> session_world \<Rightarrow> session_outcome \<times> session_world)
     \<Rightarrow> session_world \<Rightarrow> session_outcome \<times> session_world" where
  "sw_with_receipt k f w =
     (if k < length (sw_receipts w) then f (sw_receipts w ! k) w else (NoSuchTicket, w))"

definition sw_exec :: "(string \<Rightarrow> string) \<Rightarrow> session_input \<Rightarrow> session_world \<Rightarrow> session_outcome \<times> session_world" where
  "sw_exec sha i = (case i of
     InRegisterHostRisk v \<Rightarrow> sw_call (sn_register_host_risk_verifier v)
   | InRegisterOwnership v \<Rightarrow> sw_call (sn_register_sandbox_ownership_verifier v)
   | InAccept e \<Rightarrow> sw_call (sn_accept_command sha e)
   | InBegin e \<Rightarrow> sw_begin sha e
   | InBeginLive e b \<Rightarrow> sw_begin_live sha e b
   | InCommit k cid \<Rightarrow> sw_with_ticket k (\<lambda>c. sw_call (sn_commit_remote_command c cid))
   | InReject k cid \<Rightarrow> sw_with_ticket k (\<lambda>c. sw_call (sn_reject_remote_command c cid))
   | InLiveSuccess k j \<Rightarrow> sw_with_ticket k (\<lambda>c. sw_with_receipt j (\<lambda>r.
        sw_call (sn_resolve_live_memory_write_success c r)))
   | InLiveNoEffect k j \<Rightarrow> sw_with_ticket k (\<lambda>c. sw_with_receipt j (\<lambda>r.
        sw_call (sn_resolve_live_memory_write_no_effect c r)))
   | InCreatedSuspended p \<Rightarrow> sw_call (sn_target_created_suspended p)
   | InAttestation a \<Rightarrow> sw_call (sn_accept_sandbox_attestation a)
   | InOpenOffline \<Rightarrow> sw_call sn_complete_open_offline
   | InOpenDump \<Rightarrow> sw_call sn_complete_open_dump
   | InOpenObserving pid \<Rightarrow> sw_call (sn_complete_open_observing pid)
   | InStopped reason thread \<Rightarrow> sw_call (sn_mark_stopped reason thread)
   | InExited code \<Rightarrow> sw_call (sn_mark_exited code)
   | InUnsolicited obs \<Rightarrow> (\<lambda>w. case sn_apply_unsolicited_observations obs (sw_machine w) of
        (Inl e, t) \<Rightarrow> (RefusedBatch e, w\<lparr>sw_machine := t\<rparr>)
      | (Inr _, t) \<Rightarrow> (Done, w\<lparr>sw_machine := t\<rparr>))
   | InFailed m \<Rightarrow> sw_call (sn_mark_failed m)
   | InCompleteClose receipt \<Rightarrow> sw_call (sn_complete_close receipt)
   | InNotCreated \<Rightarrow> sw_call sn_record_sandbox_target_not_created
   | InRetain f \<Rightarrow> sw_call (sn_retain_sandbox_failure_target_creation f))"

fun sw_run :: "(string \<Rightarrow> string) \<Rightarrow> session_input list \<Rightarrow> session_world \<Rightarrow> session_world" where
  "sw_run sha [] w = w"
| "sw_run sha (i # is) w = sw_run sha is (snd (sw_exec sha i w))"

inductive sw_step :: "(string \<Rightarrow> string) \<Rightarrow> session_world \<Rightarrow> session_world \<Rightarrow> bool" for sha where
  call: "sw_exec sha i w = (out, v) \<Longrightarrow> sw_step sha w v"

definition sw_start :: "nat \<Rightarrow> session_id \<Rightarrow> provisioning_epoch \<Rightarrow> string \<Rightarrow> session_world" where
  "sw_start n sid epoch helper =
     \<lparr>sw_machine = session_machine_new n sid epoch helper, sw_tickets = [], sw_receipts = []\<rparr>"

definition sw_initial :: "session_world \<Rightarrow> bool" where
  "sw_initial w \<longleftrightarrow> (\<exists>n sid epoch helper. w = sw_start n sid epoch helper)"

lemma sw_run_steps: "(sw_step sha)\<^sup>*\<^sup>* w (sw_run sha is w)"
proof (induction "is" arbitrary: w)
  case (Cons i "is")
  have "sw_step sha w (snd (sw_exec sha i w))"
    by (rule sw_step.call [of sha i w "fst (sw_exec sha i w)"]) simp
  then show ?case using Cons by (simp add: converse_rtranclp_into_rtranclp)
qed simp

lemma sw_run_reachable:
  "sw_initial w \<Longrightarrow> reachable sw_initial (sw_step sha) (sw_run sha is w)"
proof -
  have "reachable sw_initial (sw_step sha) v" if "(sw_step sha)\<^sup>*\<^sup>* w v" "sw_initial w" for v
    using that by (induction rule: rtranclp_induct) (auto intro: reachable.intros)
  then show "sw_initial w \<Longrightarrow> reachable sw_initial (sw_step sha) (sw_run sha is w)"
    using sw_run_steps by blast
qed

section \<open>Remote commands\<close>

definition ticket_of :: "session_machine \<Rightarrow> session_machine \<Rightarrow> command_envelope \<Rightarrow> remote_checkpoint" where
  "ticket_of s t e =
     \<lparr>ck_reducer_instance = sn_reducer_instance t, ck_local_live_memory_write = None,
      ck_command_id = ce_command_id e, ck_state = sn_state s, ck_target = sn_target s,
      ck_execution_gate = sn_execution_gate s, ck_sandbox = sn_sandbox s,
      ck_inherited_sandbox = sn_inherited_sandbox s, ck_post_accept = sn_post_accept_state t\<rparr>"

lemma post_accept_pending [simp]: "sn_post_accept_state (s\<lparr>sn_pending_remote_command := p\<rparr>) = sn_post_accept_state s"
  by (simp add: sn_post_accept_state_def)

lemma begin_remote_Inr:
  "sn_begin_remote_command sha e s = (Inr c, t) \<longleftrightarrow>
     sn_pending_remote_command s = None
     \<and> (\<exists>st u. sn_accept_command_inner sha e s = (Inr st, u)
          \<and> t = u\<lparr>sn_pending_remote_command := Some (ce_command_id e)\<rparr> \<and> c = ticket_of s u e)"
  by (cases "sn_pending_remote_command s")
    (auto simp: sn_begin_remote_command_def sn_require_no_remote_command_pending_def and_then_Inr_iff
      sm_defs ticket_of_def)

lemma begin_remote_Inl:
  "sn_begin_remote_command sha e s = (Inl err, t) \<Longrightarrow>
     t = s \<or> sn_pending_remote_command s = None \<and> sn_accept_command_inner sha e s = (Inl err, t)"
  by (cases "sn_pending_remote_command s")
    (auto simp: sn_begin_remote_command_def sn_require_no_remote_command_pending_def and_then_Inl_iff
      sm_defs)

lemma begin_live_Inr:
  assumes "sn_begin_live_memory_write sha n e b s = (Inr (c, vw, ri), t)"
  obtains stop address expected replacement c0 where
    "ce_command e = CmdWriteMemory stop address expected replacement"
    "sn_begin_remote_command sha e s = (Inr c0, t)"
    "c = c0\<lparr>ck_local_live_memory_write := Some (ri_write ri)\<rparr>"
    "vw = \<lparr>vw_reducer_instance = ck_reducer_instance c0, vw_write = ri_write ri\<rparr>"
    "ri_write ri = \<lparr>wa_allocation = n, wa_command_id = ce_command_id e, wa_stop = stop, wa_binding = b,
       wa_address = address, wa_expected = expected, wa_replacement = replacement\<rparr>"
    "attached_debug_process (sn_target s) = Some (lt_process b)"
    "is_ok (rva_for_address_span b address (of_nat (length expected)))"
  using assms
  by (cases "ce_command e")
    (auto simp: sn_begin_live_memory_write_def and_then_Inr_iff sm_defs Let_def is_ok_iff)

lemma begin_live_Inl:
  assumes "sn_begin_live_memory_write sha n e b s = (Inl err, t)"
  shows "t = s \<or> sn_begin_remote_command sha e s = (Inl err, t)"
  using assms
  by (cases "ce_command e")
    (auto simp: sn_begin_live_memory_write_def and_then_Inl_iff sm_defs Let_def)

lemma accept_command_cases:
  "sn_accept_command sha e s = (r, t) \<Longrightarrow>
     t = s \<or> sn_pending_remote_command s = None \<and> sn_accept_command_inner sha e s = (r, t)"
  by (cases "sn_pending_remote_command s")
    (auto simp: sn_accept_command_def sn_require_no_remote_command_pending_def and_then_def sm_defs)

lemma validate_checkpoint_Inr:
  "sn_validate_remote_checkpoint c cid s = Inr u \<longleftrightarrow>
     sn_reducer_instance s = ck_reducer_instance c \<and> cid = ck_command_id c
     \<and> sn_pending_remote_command s = Some (ck_command_id c)"
  by (auto simp: sn_validate_remote_checkpoint_def)

lemma commit_cases:
  "sn_commit_remote_command c cid s =
     (case sn_validate_remote_checkpoint c cid s of
        Inl e \<Rightarrow> (Inl e, s)
      | Inr _ \<Rightarrow> (Inr (sn_state s), s\<lparr>sn_pending_remote_command := None\<rparr>))"
  by (auto simp: sn_commit_remote_command_def and_then_def sm_defs split: sum.split)

lemma reject_cases:
  "sn_reject_remote_command c cid s =
     (case sn_validate_remote_checkpoint c cid s of
        Inl e \<Rightarrow> (Inl e, s)
      | Inr _ \<Rightarrow> if sn_post_accept_state s = ck_post_accept c
          then (Inr (ck_state c), restore_checkpoint c s) else (Inl SeRemoteCommandStateChanged, s))"
  by (auto simp: sn_reject_remote_command_def and_then_def sm_defs restore_checkpoint_def split: sum.split)

lemma validate_resolution_Inr:
  assumes "sn_validate_local_resolution c r s = Inr stop"
  shows "sn_validate_remote_checkpoint c (wa_command_id (ri_write r)) s = Inr ()"
    "sn_post_accept_state s = ck_post_accept c"
    "\<exists>w. ck_local_live_memory_write c = Some w \<and> wa_allocation w = wa_allocation (ri_write r)"
    "\<exists>reason thread. ck_state c = StStopped (wa_stop (ri_write r)) reason thread"
    "\<exists>reason thread. sn_state s = StStopped stop reason thread"
  using assms by (auto simp: sn_validate_local_resolution_def split: session_state.splits)

lemma live_success_cases:
  "sn_resolve_live_memory_write_success c r s =
     (case sn_validate_local_resolution c r s of
        Inl e \<Rightarrow> (Inl e, s)
      | Inr stop \<Rightarrow> (Inr \<lparr>lp_write = ri_write r, lp_resolution = LrCommitted stop\<rparr>,
                      s\<lparr>sn_pending_remote_command := None\<rparr>))"
  by (auto simp: sn_resolve_live_memory_write_success_def and_then_def sm_defs split: sum.split)

lemma live_no_effect_cases:
  "sn_resolve_live_memory_write_no_effect c r s =
     (case sn_validate_local_resolution c r s of
        Inl e \<Rightarrow> (Inl e, s)
      | Inr stop \<Rightarrow> (Inr \<lparr>lp_write = ri_write r, lp_resolution = LrRejectedNoEffect\<rparr>,
                      restore_checkpoint c s))"
proof (cases "sn_validate_local_resolution c r s")
  case (Inr stop)
  then show ?thesis
    using validate_resolution_Inr(4) [OF Inr]
    by (auto simp: sn_resolve_live_memory_write_no_effect_def and_then_def sm_defs)
qed (simp add: sn_resolve_live_memory_write_no_effect_def and_then_def sm_defs)

section \<open>The effect of a call\<close>

text \<open>A call on the reducer that neither touches the command bookkeeping nor issues a ticket.\<close>

definition quiet_op :: "'a session_op \<Rightarrow> bool" where
  "quiet_op m \<longleftrightarrow> moves sn_frame m \<and> moves same_command m \<and> moves legal_path m \<and> moves leases_shrink m
     \<and> (\<forall>s r t. sn_vis s \<longrightarrow> m s = (r, t) \<longrightarrow> sn_vis t)"

lemma quiet_ops:
  "quiet_op (sn_target_created_suspended p)" "quiet_op (sn_accept_sandbox_attestation a)"
  "quiet_op sn_complete_open_offline" "quiet_op sn_complete_open_dump" "quiet_op (sn_complete_open_observing pid)"
  "quiet_op (sn_mark_stopped reason thread)" "quiet_op (sn_mark_exited code)" "quiet_op (sn_mark_failed m)"
  "quiet_op (sn_complete_close receipt)" "quiet_op sn_record_sandbox_target_not_created"
  "quiet_op (sn_retain_sandbox_failure_target_creation f)"
  by (simp add: quiet_op_def fr.observation_frame pc.observation_frame lg.observation_frame
      ls.observation_frame fr.close_frame pc.close_frame lg.close_frame ls.close_frame
      fr.creation_frame pc.creation_frame lg.creation_frame ls.creation_frame,
      blast intro: sn_vis_created_suspended sn_vis_attested sn_vis_complete_open sn_vis_mark_stopped
      sn_vis_mark_exited sn_vis_mark_failed sn_vis_complete_close sn_vis_record_not_created
      sn_vis_retain_failure)+

lemma register_host_eq:
  "sn_register_host_risk_verifier v s =
     (if session_kind (sn_state s) \<noteq> KIdle
      then (Inl (SeInvalidTransition (session_kind (sn_state s)) ''register host-risk lease''), s)
      else if hv_session_id v \<noteq> sn_session_id s then (Inl SeSessionBindingMismatch, s)
      else if hv_provisioning_epoch v \<noteq> sn_provisioning_epoch s then (Inl SeProvisioningEpochMismatch, s)
      else if bt_contains (sn_host_risk_leases s) (hv_id v) then (Inl SeDuplicateAuthorizationLease, s)
      else if \<not> length (sn_host_risk_leases s) < MAX_REGISTERED_AUTHORIZATION_LEASES
      then (Inl SeTooManyAuthorizationLeases, s)
      else (Inr (), s\<lparr>sn_host_risk_leases := bt_put (hv_id v) (Some v) (sn_host_risk_leases s)\<rparr>))"
  by (simp add: sn_register_host_risk_verifier_def require_state_run sn_require_session_def guard_run modify_def)

lemma register_ownership_eq:
  "sn_register_sandbox_ownership_verifier v s =
     (if session_kind (sn_state s) \<noteq> KIdle
      then (Inl (SeInvalidTransition (session_kind (sn_state s)) ''register sandbox-ownership lease''), s)
      else if so_session_id (ov_binding v) \<noteq> sn_session_id s then (Inl SeSessionBindingMismatch, s)
      else if so_provisioning_epoch (ov_binding v) \<noteq> sn_provisioning_epoch s
      then (Inl SeProvisioningEpochMismatch, s)
      else if bt_contains (sn_sandbox_ownership_leases s) (ov_id v) then (Inl SeDuplicateAuthorizationLease, s)
      else if \<not> length (sn_sandbox_ownership_leases s) < MAX_REGISTERED_AUTHORIZATION_LEASES
      then (Inl SeTooManyAuthorizationLeases, s)
      else (Inr (), s\<lparr>sn_sandbox_ownership_leases := bt_put (ov_id v) (Some v) (sn_sandbox_ownership_leases s)\<rparr>))"
  by (simp add: sn_register_sandbox_ownership_verifier_def require_state_run sn_require_session_def
      guard_run modify_def)

definition quiet_effect :: "session_world \<Rightarrow> session_world \<Rightarrow> bool" where
  "quiet_effect w v \<longleftrightarrow> sw_tickets v = sw_tickets w \<and> sn_vis (sw_machine v)
     \<and> sn_frame (sw_machine w) (sw_machine v) \<and> same_command (sw_machine w) (sw_machine v)
     \<and> legal_path (sw_machine w) (sw_machine v) \<and> leases_shrink (sw_machine w) (sw_machine v)"

text \<open>A verifier is added to one of the registries of an idle session.\<close>

definition register_effect :: "session_world \<Rightarrow> session_world \<Rightarrow> bool" where
  "register_effect w v \<longleftrightarrow> sw_tickets v = sw_tickets w
     \<and> ((\<exists>x. sn_register_host_risk_verifier x (sw_machine w) = (Inr (), sw_machine v))
        \<or> (\<exists>x. sn_register_sandbox_ownership_verifier x (sw_machine w) = (Inr (), sw_machine v)))"

fun is_register :: "session_input \<Rightarrow> bool" where
  "is_register (InRegisterHostRisk v) = True"
| "is_register (InRegisterOwnership v) = True"
| "is_register _ = False"

lemma register_fields:
  assumes "register_effect w v"
  shows "\<exists>h l. sw_machine v = with_leases h l (sw_machine w)"
  using assms unfolding register_effect_def register_host_eq register_ownership_eq with_leases_one
  by (auto split: if_splits dest: sym)

definition accept_effect :: "(string \<Rightarrow> string) \<Rightarrow> session_world \<Rightarrow> session_world \<Rightarrow> bool" where
  "accept_effect sha w v \<longleftrightarrow> sw_tickets v = sw_tickets w \<and> sn_pending_remote_command (sw_machine w) = None
     \<and> (\<exists>e r. sn_accept_command_inner sha e (sw_machine w) = (r, sw_machine v))"

definition begin_effect :: "(string \<Rightarrow> string) \<Rightarrow> session_world \<Rightarrow> session_world \<Rightarrow> bool" where
  "begin_effect sha w v \<longleftrightarrow> sn_pending_remote_command (sw_machine w) = None
     \<and> (\<exists>e r u l. sn_accept_command_inner sha e (sw_machine w) = (Inr r, u)
          \<and> sw_machine v = u\<lparr>sn_pending_remote_command := Some (ce_command_id e)\<rparr>
          \<and> sw_tickets v = sw_tickets w @ [(ticket_of (sw_machine w) u e)\<lparr>ck_local_live_memory_write := l\<rparr>])"

definition resolve_effect :: "session_world \<Rightarrow> session_world \<Rightarrow> bool" where
  "resolve_effect w v \<longleftrightarrow> sw_tickets v = sw_tickets w
     \<and> (\<exists>c \<in> set (sw_tickets w). sn_reducer_instance (sw_machine w) = ck_reducer_instance c
          \<and> sn_pending_remote_command (sw_machine w) = Some (ck_command_id c)
          \<and> (sw_machine v = (sw_machine w)\<lparr>sn_pending_remote_command := None\<rparr>
             \<or> sn_post_accept_state (sw_machine w) = ck_post_accept c
               \<and> sw_machine v = restore_checkpoint c (sw_machine w)))"

lemma quiet_effect_refl: "sn_vis (sw_machine w) \<Longrightarrow> quiet_effect w w"
  by (simp add: quiet_effect_def fr.frame_refl pc.frame_refl lg.frame_refl ls.frame_refl)

lemma quiet_effect_same:
  "sn_vis (sw_machine w) \<Longrightarrow> sw_tickets v = sw_tickets w \<Longrightarrow> sw_machine v = sw_machine w \<Longrightarrow> quiet_effect w v"
  by (simp add: quiet_effect_def fr.frame_refl pc.frame_refl lg.frame_refl ls.frame_refl)

lemma sw_call_state: "sw_call m w = (out, v) \<Longrightarrow> v = w\<lparr>sw_machine := snd (m (sw_machine w))\<rparr>"
  by (auto simp: sw_call_def split: prod.splits sum.splits)

lemma quiet_call:
  assumes "quiet_op m" "sn_vis (sw_machine w)" "sw_call m w = (out, v)"
  shows "quiet_effect w v"
proof -
  obtain r t where m: "m (sw_machine w) = (r, t)" by (cases "m (sw_machine w)")
  then have v: "v = w\<lparr>sw_machine := t\<rparr>" using sw_call_state [OF assms(3)] by simp
  show ?thesis
    using assms(1,2) m movesD [of sn_frame m] movesD [of same_command m] movesD [of legal_path m]
      movesD [of leases_shrink m]
    unfolding quiet_op_def by (auto simp: quiet_effect_def v)
qed

lemma begin_call:
  assumes "sn_vis (sw_machine w)" "sw_begin sha e w = (out, v)"
  shows "quiet_effect w v \<or> accept_effect sha w v \<or> begin_effect sha w v"
proof (cases "sn_begin_remote_command sha e (sw_machine w)")
  case (Pair r t)
  show ?thesis
  proof (cases r)
    case (Inl err)
    then have "v = w\<lparr>sw_machine := t\<rparr>" using assms(2) Pair by (simp add: sw_begin_def)
    then show ?thesis
      using begin_remote_Inl [of sha e "sw_machine w" err t] Pair Inl quiet_effect_same [OF assms(1)]
      by (auto simp: accept_effect_def)
  next
    case (Inr c)
    then have v: "v = w\<lparr>sw_machine := t, sw_tickets := sw_tickets w @ [c]\<rparr>"
      using assms(2) Pair by (simp add: sw_begin_def)
    have "begin_effect sha w v"
      using Pair Inr unfolding begin_effect_def v
      by (auto simp: begin_remote_Inr ticket_of_def)
    then show ?thesis by simp
  qed
qed

lemma begin_live_call:
  assumes "sn_vis (sw_machine w)" "sw_begin_live sha e b w = (out, v)"
  shows "quiet_effect w v \<or> accept_effect sha w v \<or> begin_effect sha w v"
proof (cases "sn_begin_live_memory_write sha (length (sw_receipts w)) e b (sw_machine w)")
  case (Pair r t)
  show ?thesis
  proof (cases r)
    case (Inl err)
    then have "v = w\<lparr>sw_machine := t\<rparr>" using assms(2) Pair by (simp add: sw_begin_live_def)
    moreover have "t = sw_machine w \<or> sn_begin_remote_command sha e (sw_machine w) = (Inl err, t)"
      using begin_live_Inl Pair Inl by simp
    ultimately show ?thesis
      using begin_remote_Inl [of sha e "sw_machine w" err t] quiet_effect_same [OF assms(1), of v]
      by (cases "t = sw_machine w") (auto simp: accept_effect_def)
  next
    case (Inr a)
    obtain c vw ri where a: "a = (c, vw, ri)" by (cases a)
    then have v: "sw_machine v = t" "sw_tickets v = sw_tickets w @ [c]"
      using assms(2) Pair Inr by (auto simp: sw_begin_live_def)
    obtain c0 where c0: "sn_begin_remote_command sha e (sw_machine w) = (Inr c0, t)"
      "c = c0\<lparr>ck_local_live_memory_write := Some (ri_write ri)\<rparr>"
      using Pair Inr a by (metis begin_live_Inr)
    then have "begin_effect sha w v"
      unfolding begin_effect_def v by (auto simp: begin_remote_Inr)
    then show ?thesis by simp
  qed
qed

lemma ticket_call:
  assumes "sn_vis (sw_machine w)" "sw_with_ticket k f w = (out, v)"
    and "\<And>c. c \<in> set (sw_tickets w) \<Longrightarrow> f c w = (out, v) \<Longrightarrow> quiet_effect w v \<or> resolve_effect w v"
  shows "quiet_effect w v \<or> resolve_effect w v"
proof (cases "k < length (sw_tickets w)")
  case True
  then show ?thesis using assms(2) assms(3) [OF nth_mem [OF True]] by (simp add: sw_with_ticket_def)
next
  case False
  then show ?thesis using assms(2) quiet_effect_refl [OF assms(1)] by (simp add: sw_with_ticket_def)
qed

lemma resolve_call:
  assumes "sn_vis (sw_machine w)" "c \<in> set (sw_tickets w)" "sw_call m w = (out, v)"
    and "snd (m (sw_machine w)) = sw_machine w
      \<or> sn_validate_remote_checkpoint c cid (sw_machine w) = Inr ()
        \<and> (snd (m (sw_machine w)) = (sw_machine w)\<lparr>sn_pending_remote_command := None\<rparr>
           \<or> sn_post_accept_state (sw_machine w) = ck_post_accept c
             \<and> snd (m (sw_machine w)) = restore_checkpoint c (sw_machine w))"
  shows "quiet_effect w v \<or> resolve_effect w v"
  using assms(4)
proof (rule disjE)
  assume "snd (m (sw_machine w)) = sw_machine w"
  then have "quiet_effect w v"
    using sw_call_state [OF assms(3)] by (intro quiet_effect_same [OF assms(1)]) simp_all
  then show ?thesis ..
next
  assume r: "sn_validate_remote_checkpoint c cid (sw_machine w) = Inr ()
        \<and> (snd (m (sw_machine w)) = (sw_machine w)\<lparr>sn_pending_remote_command := None\<rparr>
           \<or> sn_post_accept_state (sw_machine w) = ck_post_accept c
             \<and> snd (m (sw_machine w)) = restore_checkpoint c (sw_machine w))"
  have "sw_machine v = snd (m (sw_machine w))" "sw_tickets v = sw_tickets w"
    using sw_call_state [OF assms(3)] by simp_all
  then have "resolve_effect w v"
    using r assms(2) unfolding resolve_effect_def validate_checkpoint_Inr by auto
  then show ?thesis ..
qed

lemma commit_call:
  assumes "sn_vis (sw_machine w)" "c \<in> set (sw_tickets w)"
    and "sw_call (sn_commit_remote_command c cid) w = (out, v)"
  shows "quiet_effect w v \<or> resolve_effect w v"
  by (rule resolve_call [OF assms, of cid], cases "sn_validate_remote_checkpoint c cid (sw_machine w)")
    (simp_all add: commit_cases)

lemma reject_call:
  assumes "sn_vis (sw_machine w)" "c \<in> set (sw_tickets w)"
    and "sw_call (sn_reject_remote_command c cid) w = (out, v)"
  shows "quiet_effect w v \<or> resolve_effect w v"
  by (rule resolve_call [OF assms, of cid], cases "sn_validate_remote_checkpoint c cid (sw_machine w)")
    (simp_all add: reject_cases)

lemma live_success_call:
  assumes "sn_vis (sw_machine w)" "c \<in> set (sw_tickets w)"
    and "sw_call (sn_resolve_live_memory_write_success c r) w = (out, v)"
  shows "quiet_effect w v \<or> resolve_effect w v"
proof (rule resolve_call [OF assms, of "wa_command_id (ri_write r)"], cases "sn_validate_local_resolution c r (sw_machine w)", goal_cases)
  case (2 stop)
  then show ?case using validate_resolution_Inr(1) [OF 2] by (simp add: live_success_cases)
qed (simp add: live_success_cases)

lemma live_no_effect_call:
  assumes "sn_vis (sw_machine w)" "c \<in> set (sw_tickets w)"
    and "sw_call (sn_resolve_live_memory_write_no_effect c r) w = (out, v)"
  shows "quiet_effect w v \<or> resolve_effect w v"
proof (rule resolve_call [OF assms, of "wa_command_id (ri_write r)"], cases "sn_validate_local_resolution c r (sw_machine w)", goal_cases)
  case (2 stop)
  then show ?case using validate_resolution_Inr(1,2) [OF 2] by (simp add: live_no_effect_cases)
qed (simp add: live_no_effect_cases)

lemma receipt_call:
  assumes "sn_vis (sw_machine w)" "sw_with_receipt j f w = (out, v)"
    and "\<And>r. f r w = (out, v) \<Longrightarrow> quiet_effect w v \<or> resolve_effect w v"
  shows "quiet_effect w v \<or> resolve_effect w v"
proof (cases "j < length (sw_receipts w)")
  case True
  then show ?thesis using assms(2) assms(3) [of "sw_receipts w ! j"] by (simp add: sw_with_receipt_def)
next
  case False
  then show ?thesis using assms(2) quiet_effect_refl [OF assms(1)] by (simp add: sw_with_receipt_def)
qed

lemma unsolicited_call:
  assumes "sn_vis (sw_machine w)" "sw_exec sha (InUnsolicited obs) w = (out, v)"
  shows "quiet_effect w v"
proof (cases "sn_apply_unsolicited_observations obs (sw_machine w)")
  case (Pair r t)
  then have "v = w\<lparr>sw_machine := t\<rparr>" using assms(2) by (auto simp: sw_exec_def split: sum.splits)
  then show ?thesis
    using Pair sn_vis_unsolicited [OF assms(1)] movesD [OF fr.unsolicited_frame Pair]
      movesD [OF pc.unsolicited_frame Pair] movesD [OF lg.unsolicited_frame Pair]
      movesD [OF ls.unsolicited_frame Pair]
    by (auto simp: quiet_effect_def)
qed

lemma accept_call:
  assumes "sn_vis (sw_machine w)" "sw_call (sn_accept_command sha e) w = (out, v)"
  shows "quiet_effect w v \<or> accept_effect sha w v"
proof (cases "sn_accept_command sha e (sw_machine w)")
  case (Pair r t)
  then have "v = w\<lparr>sw_machine := t\<rparr>" using sw_call_state [OF assms(2)] by simp
  then show ?thesis
    using accept_command_cases [OF Pair] quiet_effect_same [OF assms(1)] by (auto simp: accept_effect_def)
qed

lemma register_call:
  assumes "sn_vis (sw_machine w)"
  shows "sw_call (sn_register_host_risk_verifier x) w = (out, v) \<Longrightarrow> quiet_effect w v \<or> register_effect w v"
    "sw_call (sn_register_sandbox_ownership_verifier y) w = (out, v) \<Longrightarrow> quiet_effect w v \<or> register_effect w v"
proof -
  have "quiet_effect w v \<or> register_effect w v"
    if m: "sw_call m w = (out, v)" "m = sn_register_host_risk_verifier x \<or> m = sn_register_sandbox_ownership_verifier y"
    for m
  proof (cases "m (sw_machine w)")
    case (Pair r t)
    show ?thesis
    proof (cases r)
      case (Inl e)
      then have "t = sw_machine w"
        using Pair m(2) by (auto simp: register_host_eq register_ownership_eq split: if_splits)
      then show ?thesis using sw_call_state [OF m(1)] Pair by (simp add: quiet_effect_same [OF assms])
    next
      case (Inr u)
      then show ?thesis using sw_call_state [OF m(1)] Pair m(2) by (auto simp: register_effect_def)
    qed
  qed
  then show "sw_call (sn_register_host_risk_verifier x) w = (out, v) \<Longrightarrow> quiet_effect w v \<or> register_effect w v"
    "sw_call (sn_register_sandbox_ownership_verifier y) w = (out, v) \<Longrightarrow> quiet_effect w v \<or> register_effect w v"
    by blast+
qed

text \<open>Every call has one of the five effects.\<close>

lemma sw_exec_effect:
  assumes "sn_vis (sw_machine w)" "sw_exec sha i w = (out, v)"
  shows "quiet_effect w v \<or> is_register i \<and> register_effect w v \<or> accept_effect sha w v
    \<or> begin_effect sha w v \<or> resolve_effect w v"
proof -
  note vis = assms(1)
  note ex = assms(2) [unfolded sw_exec_def]
  have plain: ?thesis if "sw_call m w = (out, v)" "quiet_op m" for m :: "session_state session_op"
    using quiet_call [OF that(2) vis that(1)] by simp
  have plain_unit: ?thesis if "sw_call m w = (out, v)" "quiet_op m" for m :: "unit session_op"
    using quiet_call [OF that(2) vis that(1)] by simp
  show ?thesis
  proof (cases i)
    case (InAccept e)
    then have "sw_call (sn_accept_command sha e) w = (out, v)" using ex by simp
    then show ?thesis using accept_call [OF vis] by blast
  next
    case (InBegin e)
    then have "sw_begin sha e w = (out, v)" using ex by simp
    then show ?thesis using begin_call [OF vis] by blast
  next
    case (InBeginLive e b)
    then have "sw_begin_live sha e b w = (out, v)" using ex by simp
    then show ?thesis using begin_live_call [OF vis] by blast
  next
    case (InCommit k cid)
    then have "sw_with_ticket k (\<lambda>c. sw_call (sn_commit_remote_command c cid)) w = (out, v)" using ex by simp
    then have "quiet_effect w v \<or> resolve_effect w v"
      by (rule ticket_call [OF vis]) (rule commit_call [OF vis])
    then show ?thesis by blast
  next
    case (InReject k cid)
    then have "sw_with_ticket k (\<lambda>c. sw_call (sn_reject_remote_command c cid)) w = (out, v)" using ex by simp
    then have "quiet_effect w v \<or> resolve_effect w v"
      by (rule ticket_call [OF vis]) (rule reject_call [OF vis])
    then show ?thesis by blast
  next
    case (InLiveSuccess k j)
    then have "sw_with_ticket k (\<lambda>c. sw_with_receipt j (\<lambda>r.
        sw_call (sn_resolve_live_memory_write_success c r))) w = (out, v)" using ex by simp
    then have "quiet_effect w v \<or> resolve_effect w v"
      by (rule ticket_call [OF vis]) (rule receipt_call [OF vis], assumption, rule live_success_call [OF vis])
    then show ?thesis by blast
  next
    case (InLiveNoEffect k j)
    then have "sw_with_ticket k (\<lambda>c. sw_with_receipt j (\<lambda>r.
        sw_call (sn_resolve_live_memory_write_no_effect c r))) w = (out, v)" using ex by simp
    then have "quiet_effect w v \<or> resolve_effect w v"
      by (rule ticket_call [OF vis]) (rule receipt_call [OF vis], assumption, rule live_no_effect_call [OF vis])
    then show ?thesis by blast
  next
    case (InUnsolicited obs)
    then show ?thesis using assms(2) unsolicited_call [OF vis] by blast
  next
    case (InRegisterHostRisk x)
    then have "sw_call (sn_register_host_risk_verifier x) w = (out, v)" using ex by simp
    then show ?thesis using register_call(1) [OF vis] InRegisterHostRisk by auto
  next
    case (InRegisterOwnership x)
    then have "sw_call (sn_register_sandbox_ownership_verifier x) w = (out, v)" using ex by simp
    then show ?thesis using register_call(2) [OF vis] InRegisterOwnership by auto
  next
    case (InCreatedSuspended p)
    then have "sw_call (sn_target_created_suspended p) w = (out, v)" using ex by simp
    then show ?thesis by (rule plain) (rule quiet_ops)
  next
    case (InAttestation a)
    then have "sw_call (sn_accept_sandbox_attestation a) w = (out, v)" using ex by simp
    then show ?thesis by (rule plain) (rule quiet_ops)
  next
    case InOpenOffline
    then have "sw_call (sn_complete_open_offline) w = (out, v)" using ex by simp
    then show ?thesis by (rule plain) (rule quiet_ops)
  next
    case InOpenDump
    then have "sw_call (sn_complete_open_dump) w = (out, v)" using ex by simp
    then show ?thesis by (rule plain) (rule quiet_ops)
  next
    case (InOpenObserving pid)
    then have "sw_call (sn_complete_open_observing pid) w = (out, v)" using ex by simp
    then show ?thesis by (rule plain) (rule quiet_ops)
  next
    case (InStopped reason thread)
    then have "sw_call (sn_mark_stopped reason thread) w = (out, v)" using ex by simp
    then show ?thesis by (rule plain) (rule quiet_ops)
  next
    case (InExited code)
    then have "sw_call (sn_mark_exited code) w = (out, v)" using ex by simp
    then show ?thesis by (rule plain) (rule quiet_ops)
  next
    case (InFailed m)
    then have "sw_call (sn_mark_failed m) w = (out, v)" using ex by simp
    then show ?thesis by (rule plain) (rule quiet_ops)
  next
    case (InCompleteClose receipt)
    then have "sw_call (sn_complete_close receipt) w = (out, v)" using ex by simp
    then show ?thesis by (rule plain) (rule quiet_ops)
  next
    case InNotCreated
    then have "sw_call (sn_record_sandbox_target_not_created) w = (out, v)" using ex by simp
    then show ?thesis by (rule plain_unit) (rule quiet_ops)
  next
    case (InRetain f)
    then have "sw_call (sn_retain_sandbox_failure_target_creation f) w = (out, v)" using ex by simp
    then show ?thesis by (rule plain_unit) (rule quiet_ops)
  qed
qed

section \<open>The invariant of the world\<close>

definition ticket_ok :: "session_machine \<Rightarrow> remote_checkpoint \<Rightarrow> bool" where
  "ticket_ok s c \<longleftrightarrow> ck_reducer_instance c = sn_reducer_instance s
     \<and> sn_vis (restore_checkpoint c s) \<and> unat (ck_command_id c) < cmd_mark s
     \<and> session_kind (pa_state (ck_post_accept c)) \<noteq> KClosed"

definition sw_inv :: "session_world \<Rightarrow> bool" where
  "sw_inv w \<longleftrightarrow> sn_vis (sw_machine w)
     \<and> (\<forall>c \<in> set (sw_tickets w). ticket_ok (sw_machine w) c)
     \<and> sorted_wrt (<) (map ck_command_id (sw_tickets w))
     \<and> (\<forall>cid. sn_pending_remote_command (sw_machine w) = Some cid \<longrightarrow>
          sw_tickets w \<noteq> [] \<and> ck_command_id (last (sw_tickets w)) = cid
          \<and> cmd_mark (sw_machine w) = Suc (unat cid))"

lemma restore_fields [simp]:
  "sn_state (restore_checkpoint c s) = ck_state c" "sn_target (restore_checkpoint c s) = ck_target c"
  "sn_execution_gate (restore_checkpoint c s) = ck_execution_gate c"
  "sn_sandbox (restore_checkpoint c s) = ck_sandbox c"
  "sn_inherited_sandbox (restore_checkpoint c s) = ck_inherited_sandbox c"
  "sn_session_id (restore_checkpoint c s) = sn_session_id s"
  "sn_provisioning_epoch (restore_checkpoint c s) = sn_provisioning_epoch s"
  "sn_helper_build (restore_checkpoint c s) = sn_helper_build s"
  "sn_reducer_instance (restore_checkpoint c s) = sn_reducer_instance s"
  "sn_last_stop_id (restore_checkpoint c s) = sn_last_stop_id s"
  "sn_last_run_id (restore_checkpoint c s) = sn_last_run_id s"
  "sn_last_command_id (restore_checkpoint c s) = sn_last_command_id s"
  "sn_pending_remote_command (restore_checkpoint c s) = None"
  "sn_host_risk_leases (restore_checkpoint c s) = sn_host_risk_leases s"
  "sn_sandbox_ownership_leases (restore_checkpoint c s) = sn_sandbox_ownership_leases s"
  by (simp_all add: restore_checkpoint_def)

lemma sn_frame_restore: "sn_frame s (restore_checkpoint c s)"
  by (simp add: sn_frame_def cmd_mark_def)

lemma sn_frame_pending [simp]: "sn_frame s (t\<lparr>sn_pending_remote_command := p\<rparr>) = sn_frame s t"
  by (simp add: sn_frame_def cmd_mark_def)

lemma sn_vis_restore_frame:
  assumes "sn_vis (restore_checkpoint c s)" "sn_frame s t"
  shows "sn_vis (restore_checkpoint c t)"
proof -
  have "state_bound (restore_checkpoint c t)"
    using assms
    by (cases "ck_state c")
      (auto simp: sn_vis_def state_bound_def sn_frame_def state_tok_def sn_created_sandbox_process_def)
  moreover have "ownership_ok (restore_checkpoint c t)"
    using assms unfolding sn_vis_def
    by (simp add: ownership_ok_def sandbox_bound_def sn_frame_def cong: option.case_cong)
  ultimately show ?thesis using assms(1) by (simp add: sn_vis_def)
qed

lemma ticket_ok_frame: "ticket_ok s c \<Longrightarrow> sn_frame s t \<Longrightarrow> ticket_ok t c"
  using sn_vis_restore_frame [of c s t] by (auto simp: ticket_ok_def sn_frame_def)

lemma accept_inner_Inr:
  assumes "sn_accept_command_inner sha e s = (Inr st, u)"
  shows "command_admitted s e" "sn_last_command_id u = Some (ce_command_id e)"
    "cmd_mark s \<le> unat (ce_command_id e)" "st = sn_state u"
    "sn_dispatch sha (ce_command e) (s\<lparr>sn_last_command_id := Some (ce_command_id e)\<rparr>) = (Inr (), u)"
proof -
  show a: "command_admitted s e"
    using assms accept_inner_refused [of s e sha] by (cases "command_admitted s e") auto
  have "st = sn_state u \<and> sn_dispatch sha (ce_command e) (s\<lparr>sn_last_command_id := Some (ce_command_id e)\<rparr>) = (Inr (), u)"
    using assms unfolding accept_inner_admitted [OF a] by (auto simp: and_then_Inr_iff gets_def)
  then show st: "st = sn_state u"
    and d: "sn_dispatch sha (ce_command e) (s\<lparr>sn_last_command_id := Some (ce_command_id e)\<rparr>) = (Inr (), u)"
    by simp_all
  show "sn_last_command_id u = Some (ce_command_id e)"
    using movesD [OF pc.dispatch_frame d] by (simp add: same_command_def)
  show "cmd_mark s \<le> unat (ce_command_id e)"
    using a by (auto simp: command_admitted_def cmd_mark_def word_less_nat_alt Suc_le_eq split: option.splits)
qed

lemma restore_ticket:
  assumes "sn_frame s u"
  shows "restore_checkpoint ((ticket_of s u e)\<lparr>ck_local_live_memory_write := l\<rparr>)
      (u\<lparr>sn_pending_remote_command := p\<rparr>) =
    s\<lparr>sn_last_command_id := sn_last_command_id u, sn_last_stop_id := sn_last_stop_id u,
      sn_last_run_id := sn_last_run_id u, sn_host_risk_leases := sn_host_risk_leases u,
      sn_sandbox_ownership_leases := sn_sandbox_ownership_leases u, sn_pending_remote_command := None\<rparr>"
  using assms
  by (intro session_machine.equality) (simp_all add: sn_frame_def ticket_of_def)

lemma legal_path_closed:
  assumes "legal_path s t" "session_kind (sn_state s) = KClosed"
  shows "sn_state t = sn_state s"
proof -
  have "legal_step\<^sup>*\<^sup>* a b \<Longrightarrow> session_kind a = KClosed \<Longrightarrow> b = a" for a b
    by (induction rule: converse_rtranclp_induct) (auto simp: legal_step_def validate_successor_iff)
  then show ?thesis using assms by (simp add: legal_path_def)
qed

text \<open>No command closes the session by itself, and a closed session admits none.\<close>

lemma admitted_not_closed: "command_admitted s e \<Longrightarrow> session_kind (sn_state s) \<noteq> KClosed"
proof
  assume a: "command_admitted s e" "session_kind (sn_state s) = KClosed"
  then have "command_allowed (ce_command e) (sn_state s)"
    by (auto simp: command_admitted_def validate_against_iff)
  moreover obtain k where "sn_state s = StClosed k" using a(2) by (cases "sn_state s") auto
  moreover have "\<not> matches_read_view (StClosed k) x" "\<not> matches_live (StClosed k) y"
    "\<not> matches_execution (StClosed k) z" for x y z k
    by (cases x; cases y; cases z; simp)+
  ultimately show False by (cases "ce_command e") (auto simp: stopped_at_def)
qed

text \<open>The state a command leads to.\<close>

fun command_result_kind :: "debug_command \<Rightarrow> session_state_kind \<Rightarrow> session_state_kind" where
  "command_result_kind (CmdOpen t) k = KOpening"
| "command_result_kind (CmdContinue stop) k = KRunning"
| "command_result_kind (CmdStep stop tid kind) k = KRunning"
| "command_result_kind (CmdPause run) k = KPausing"
| "command_result_kind (CmdDetach live) k = KDetached"
| "command_result_kind (CmdTerminate ex) k = KClosing"
| "command_result_kind (CmdClose tok) k = KClosing"
| "command_result_kind _ k = k"

lemma opened_kind: "session_kind (sn_state (opened target a s)) = KOpening"
  by (cases a) (simp add: opened_def with_leases_def)

lemma dispatch_kind:
  assumes "sn_vis s" "command_allowed c (sn_state s)" "sn_dispatch sha c s = (Inr (), u)"
  shows "session_kind (sn_state u) = command_result_kind c (session_kind (sn_state s))"
proof (cases c)
  case (CmdOpen target)
  then show ?thesis
    using assms allowed_kinds(1) [of target]
    by (auto simp: sn_dispatch_def sn_accept_open_eq opened_kind split: prod.splits sum.splits if_splits)
next
  case (CmdPause run)
  then show ?thesis
    using assms allowed_kinds(2) [of run] by (auto simp: sn_dispatch_def sn_accept_pause_eq split: if_splits)
next
  case (CmdDetach live)
  then have "session_kind (sn_state s) \<in> {KStopped, KRunning, KObserving}"
    using assms(2) allowed_kinds(3) by simp
  then show ?thesis
    using assms CmdDetach by (auto simp: sn_dispatch_def sn_accept_detach_eq [OF assms(1)] split: if_splits)
next
  case (CmdTerminate ex)
  then have "session_kind (sn_state s) \<noteq> KClosed" using assms(2) allowed_kinds(4) [of ex "sn_state s"] by auto
  then show ?thesis
    using assms CmdTerminate
    by (auto simp: sn_dispatch_def sn_accept_shutdown_eq [OF assms(1)] split: if_splits)
next
  case (CmdClose tok)
  then have "session_kind (sn_state s) \<noteq> KClosed" using assms(2) allowed_kinds(5) [of tok "sn_state s"] by auto
  then show ?thesis
    using assms CmdClose
    by (auto simp: sn_dispatch_def sn_accept_shutdown_eq [OF assms(1)] split: if_splits)
next
  case (CmdContinue stop)
  then have "session_kind (sn_state s) = KStopped" using assms(2) stopped_at_kind by simp
  then show ?thesis
    using assms CmdContinue
    by (auto simp: sn_dispatch_def sn_accept_run_eq [OF assms(1)] running_update_def split: if_splits)
next
  case (CmdStep stop tid kind)
  then have "session_kind (sn_state s) = KStopped" using assms(2) stopped_at_kind by simp
  then show ?thesis
    using assms CmdStep
    by (auto simp: sn_dispatch_def sn_accept_run_eq [OF assms(1)] running_update_def split: if_splits)
qed (use assms in \<open>auto simp: sn_dispatch_def sm_defs sn_refresh_eq [OF assms(1)] stopped_update_def
      split: session_state.splits if_splits\<close>)

lemma accept_inner_kind:
  assumes "sn_vis s" "sn_accept_command_inner sha e s = (Inr st, u)"
  shows "session_kind st = command_result_kind (ce_command e) (session_kind (sn_state s))"
    "session_kind st \<noteq> KClosed"
proof -
  let ?s = "s\<lparr>sn_last_command_id := Some (ce_command_id e)\<rparr>"
  have a: "command_admitted s e" by (rule accept_inner_Inr(1) [OF assms(2)])
  then have "command_allowed (ce_command e) (sn_state ?s)"
    by (auto simp: command_admitted_def validate_against_iff)
  then show k: "session_kind st = command_result_kind (ce_command e) (session_kind (sn_state s))"
    using dispatch_kind [of ?s, OF _ _ accept_inner_Inr(5) [OF assms(2)]] assms(1) accept_inner_Inr(4) [OF assms(2)]
    by simp
  then show "session_kind st \<noteq> KClosed"
    using admitted_not_closed [OF a] by (cases "ce_command e") auto
qed

lemma ticket_ok_new:
  assumes "sn_vis s" "sn_accept_command_inner sha e s = (Inr st, u)"
  shows "ticket_ok (u\<lparr>sn_pending_remote_command := p\<rparr>) ((ticket_of s u e)\<lparr>ck_local_live_memory_write := l\<rparr>)"
proof -
  have f: "sn_frame s u" by (rule movesD [OF accept_inner_frames(1) assms(2)])
  have "unat (ce_command_id e) < cmd_mark u"
    using accept_inner_Inr(2) [OF assms(2)] by (simp add: cmd_mark_def)
  moreover have "sn_vis (restore_checkpoint ((ticket_of s u e)\<lparr>ck_local_live_memory_write := l\<rparr>)
      (u\<lparr>sn_pending_remote_command := p\<rparr>))"
    unfolding restore_ticket [OF f] using f by (intro sn_vis_quiet [OF assms(1)]) (simp_all add: sn_frame_def)
  moreover have "session_kind (sn_state u) \<noteq> KClosed"
    using accept_inner_kind(2) [OF assms] accept_inner_Inr(4) [OF assms(2)] by simp
  ultimately show ?thesis by (simp add: ticket_ok_def ticket_of_def cmd_mark_def sn_post_accept_state_def)
qed

lemma sw_inv_start: "sw_initial w \<Longrightarrow> sw_inv w"
  by (auto simp: sw_initial_def sw_start_def sw_inv_def session_machine_new_def sn_vis_def
      state_bound_def ownership_ok_def gates_for_def state_tok_def)

lemma effect_frame:
  assumes "sn_vis (sw_machine w)" "sw_exec sha i w = (out, v)"
  shows "sn_frame (sw_machine w) (sw_machine v)"
  using sw_exec_effect [OF assms]
proof (elim disjE)
  assume "is_register i \<and> register_effect w v"
  then show ?thesis using register_fields by (fastforce simp: sn_frame_def cmd_mark_def with_leases_def)
qed (auto simp: quiet_effect_def accept_effect_def begin_effect_def resolve_effect_def
      sn_frame_restore fr.frame_refl dest: movesD [OF accept_inner_frames(1)])

lemma sw_inv_exec:
  assumes "sw_inv w" "sw_exec sha i w = (out, v)"
  shows "sw_inv v"
proof -
  have vis: "sn_vis (sw_machine w)" and tk: "\<forall>c \<in> set (sw_tickets w). ticket_ok (sw_machine w) c"
    and srt: "sorted_wrt (<) (map ck_command_id (sw_tickets w))"
    using assms(1) by (simp_all add: sw_inv_def)
  have fr: "sn_frame (sw_machine w) (sw_machine v)" by (rule effect_frame [OF vis assms(2)])
  then have tk': "\<forall>c \<in> set (sw_tickets w). ticket_ok (sw_machine v) c" using tk ticket_ok_frame by blast
  from sw_exec_effect [OF vis assms(2)] show ?thesis
  proof (elim disjE)
    assume "quiet_effect w v"
    then show ?thesis
      using assms(1) tk' by (auto simp: sw_inv_def quiet_effect_def same_command_def cmd_mark_def)
  next
    assume r: "is_register i \<and> register_effect w v"
    then obtain h l where v: "sw_machine v = with_leases h l (sw_machine w)" using register_fields by blast
    then have "sn_pending_remote_command (sw_machine v) = sn_pending_remote_command (sw_machine w)"
      "cmd_mark (sw_machine v) = cmd_mark (sw_machine w)"
      by (simp_all add: with_leases_def cmd_mark_def)
    then show ?thesis using assms(1) tk' r v by (simp add: sw_inv_def register_effect_def)
  next
    assume a: "accept_effect sha w v"
    then obtain e r where r: "sn_accept_command_inner sha e (sw_machine w) = (r, sw_machine v)"
      by (auto simp: accept_effect_def)
    have "sn_pending_remote_command (sw_machine v) = None"
      using a movesD [OF accept_inner_frames(2) r] by (simp add: accept_effect_def same_pending_def)
    then show ?thesis
      using a srt tk' sn_vis_accept_inner [OF vis r] by (simp add: sw_inv_def accept_effect_def)
  next
    assume "begin_effect sha w v"
    then obtain e r u l where r: "sn_accept_command_inner sha e (sw_machine w) = (Inr r, u)"
      and v: "sw_machine v = u\<lparr>sn_pending_remote_command := Some (ce_command_id e)\<rparr>"
        "sw_tickets v = sw_tickets w @ [(ticket_of (sw_machine w) u e)\<lparr>ck_local_live_memory_write := l\<rparr>]"
      by (auto simp: begin_effect_def)
    have "ck_command_id c < ce_command_id e" if "c \<in> set (sw_tickets w)" for c
      using tk that accept_inner_Inr(3) [OF r] by (auto simp: ticket_ok_def word_less_nat_alt)
    then have "sorted_wrt (<) (map ck_command_id (sw_tickets v))"
      using srt by (simp add: v sorted_wrt_append ticket_of_def)
    moreover have "ticket_ok (sw_machine v) ((ticket_of (sw_machine w) u e)\<lparr>ck_local_live_memory_write := l\<rparr>)"
      unfolding v by (rule ticket_ok_new [OF vis r])
    ultimately show ?thesis
      using tk' sn_vis_accept_inner [OF vis r] accept_inner_Inr(2) [OF r]
      by (simp add: sw_inv_def v ticket_of_def cmd_mark_def)
  next
    assume "resolve_effect w v"
    then show ?thesis
      using vis srt tk tk' by (auto simp: sw_inv_def resolve_effect_def ticket_ok_def)
  qed
qed

section \<open>The lease registries\<close>

definition host_registry_ok :: "session_machine \<Rightarrow> bool" where
  "host_registry_ok s \<longleftrightarrow> bt_sorted (sn_host_risk_leases s)
     \<and> length (sn_host_risk_leases s) \<le> MAX_REGISTERED_AUTHORIZATION_LEASES
     \<and> (\<forall>k v. bt_lookup (sn_host_risk_leases s) k = Some (Some v) \<longrightarrow>
          hv_id v = k \<and> hv_session_id v = sn_session_id s \<and> hv_provisioning_epoch v = sn_provisioning_epoch s)"

definition ownership_registry_ok :: "session_machine \<Rightarrow> bool" where
  "ownership_registry_ok s \<longleftrightarrow> bt_sorted (sn_sandbox_ownership_leases s)
     \<and> length (sn_sandbox_ownership_leases s) \<le> MAX_REGISTERED_AUTHORIZATION_LEASES
     \<and> (\<forall>k v. bt_lookup (sn_sandbox_ownership_leases s) k = Some (Some v) \<longrightarrow>
          ov_id v = k \<and> so_session_id (ov_binding v) = sn_session_id s
          \<and> so_provisioning_epoch (ov_binding v) = sn_provisioning_epoch s)"

lemma registries_shrink:
  assumes "leases_shrink s t"
  shows "host_registry_ok s \<Longrightarrow> host_registry_ok t" "ownership_registry_ok s \<Longrightarrow> ownership_registry_ok t"
  using assms
  by (auto simp: leases_shrink_def registry_shrinks_def host_registry_ok_def ownership_registry_ok_def)

lemma registry_put:
  fixes m :: "('k::linorder, 'v option) btree_map"
  assumes "bt_sorted m" "\<not> bt_contains m k" "length m < n"
  shows "bt_sorted (bt_put k v m)" "length (bt_put k v m) \<le> n"
    "bt_lookup (bt_put k v m) j = (if j = k then Some v else bt_lookup m j)"
  using assms bt.size_put_fresh [of m k v] bt.lookup_put [of m k v]
  by (simp_all add: bt_sorted_put bt_contains_def)

lemma registries_register:
  assumes "register_effect w v"
  shows "host_registry_ok (sw_machine w) \<Longrightarrow> host_registry_ok (sw_machine v)"
    "ownership_registry_ok (sw_machine w) \<Longrightarrow> ownership_registry_ok (sw_machine v)"
proof -
  consider (host) x where "sn_register_host_risk_verifier x (sw_machine w) = (Inr (), sw_machine v)"
    | (own) x where "sn_register_sandbox_ownership_verifier x (sw_machine w) = (Inr (), sw_machine v)"
    using assms by (auto simp: register_effect_def)
  then have "(host_registry_ok (sw_machine w) \<longrightarrow> host_registry_ok (sw_machine v))
      \<and> (ownership_registry_ok (sw_machine w) \<longrightarrow> ownership_registry_ok (sw_machine v))"
  proof cases
    case host
    then have v: "sw_machine v = (sw_machine w)\<lparr>sn_host_risk_leases := bt_put (hv_id x) (Some x) (sn_host_risk_leases (sw_machine w))\<rparr>"
      "hv_session_id x = sn_session_id (sw_machine w)" "hv_provisioning_epoch x = sn_provisioning_epoch (sw_machine w)"
      "\<not> bt_contains (sn_host_risk_leases (sw_machine w)) (hv_id x)"
      "length (sn_host_risk_leases (sw_machine w)) < MAX_REGISTERED_AUTHORIZATION_LEASES"
      by (auto simp: register_host_eq split: if_splits)
    then show ?thesis
      using registry_put [OF _ v(4,5)]
      by (simp add: host_registry_ok_def ownership_registry_ok_def)
  next
    case own
    then have v: "sw_machine v = (sw_machine w)\<lparr>sn_sandbox_ownership_leases := bt_put (ov_id x) (Some x) (sn_sandbox_ownership_leases (sw_machine w))\<rparr>"
      "so_session_id (ov_binding x) = sn_session_id (sw_machine w)"
      "so_provisioning_epoch (ov_binding x) = sn_provisioning_epoch (sw_machine w)"
      "\<not> bt_contains (sn_sandbox_ownership_leases (sw_machine w)) (ov_id x)"
      "length (sn_sandbox_ownership_leases (sw_machine w)) < MAX_REGISTERED_AUTHORIZATION_LEASES"
      by (auto simp: register_ownership_eq split: if_splits)
    then show ?thesis
      using registry_put [OF _ v(4,5)]
      by (simp add: host_registry_ok_def ownership_registry_ok_def)
  qed
  then show "host_registry_ok (sw_machine w) \<Longrightarrow> host_registry_ok (sw_machine v)"
    "ownership_registry_ok (sw_machine w) \<Longrightarrow> ownership_registry_ok (sw_machine v)" by blast+
qed

lemma leases_shrink_same:
  "leases_shrink s (restore_checkpoint c s)" "leases_shrink s (s\<lparr>sn_pending_remote_command := p\<rparr>)"
  by (simp_all add: leases_shrink_def registry_shrinks_refl)

text \<open>Only a registration adds a live lease.\<close>

lemma effect_leases:
  assumes "sn_vis (sw_machine w)" "sw_exec sha i w = (out, v)"
  shows "is_register i \<and> register_effect w v \<or> leases_shrink (sw_machine w) (sw_machine v)"
proof -
  have "leases_shrink (sw_machine w) (sw_machine v)" if b: "begin_effect sha w v"
  proof -
    obtain e r u where u: "sn_accept_command_inner sha e (sw_machine w) = (Inr r, u)"
      and v: "sw_machine v = u\<lparr>sn_pending_remote_command := Some (ce_command_id e)\<rparr>"
      using b unfolding begin_effect_def by blast
    show ?thesis
      unfolding v by (rule leases_shrink_trans [OF movesD [OF accept_inner_frames(3) u] leases_shrink_same(2)])
  qed
  moreover have "leases_shrink (sw_machine w) (sw_machine v)" if "accept_effect sha w v"
    using that movesD [OF accept_inner_frames(3)] by (auto simp: accept_effect_def)
  moreover have "leases_shrink (sw_machine w) (sw_machine v)" if "resolve_effect w v"
    using that leases_shrink_same by (auto simp: resolve_effect_def)
  moreover have "leases_shrink (sw_machine w) (sw_machine v)" if "quiet_effect w v"
    using that by (simp add: quiet_effect_def)
  ultimately show ?thesis using sw_exec_effect [OF assms] by blast
qed

definition session_inv :: "session_world \<Rightarrow> bool" where
  "session_inv w \<longleftrightarrow> sw_inv w \<and> host_registry_ok (sw_machine w) \<and> ownership_registry_ok (sw_machine w)"

lemma session_inv_exec:
  assumes "session_inv w" "sw_exec sha i w = (out, v)"
  shows "session_inv v"
proof -
  have "sn_vis (sw_machine w)" using assms(1) by (simp add: session_inv_def sw_inv_def)
  then show ?thesis
    using effect_leases [OF _ assms(2)] assms(1) sw_inv_exec [OF _ assms(2)] registries_register registries_shrink
    unfolding session_inv_def by blast
qed

lemma session_inv_start: "sw_initial w \<Longrightarrow> session_inv w"
  using sw_inv_start [of w]
  by (auto simp: session_inv_def sw_initial_def sw_start_def session_machine_new_def host_registry_ok_def
      ownership_registry_ok_def bt_lookup_def)

interpretation world: reducer sw_initial "sw_step sha" session_inv for sha
  by unfold_locales (auto intro: session_inv_start session_inv_exec elim!: sw_step.cases)

end
