(* ===== verification/Session_Properties.thy ===== *)
theory Session_Properties
  imports Session_World
begin

text \<open>
  What the session reducer guarantees to everything built on it, for every sequence of calls: the
  state refines the protocol's successor relation, execution is always authorised, commands are
  never replayed, tickets resolve exactly one command, rejected commands leave no trace, leases
  are spent once, closing needs evidence, and a closed session stays closed.
\<close>

section \<open>Shared lemmas\<close>

lemma session_inv_vis: "session_inv w \<Longrightarrow> sn_vis (sw_machine w)"
  by (simp add: session_inv_def sw_inv_def)

lemma reachable_vis: "reachable sw_initial (sw_step sha) w \<Longrightarrow> sn_vis (sw_machine w)"
  by (rule session_inv_vis [OF world.reachable_inv])

lemma sw_exec_step: "sw_step sha w (snd (sw_exec sha i w))"
  by (rule sw_step.call [of sha i w "fst (sw_exec sha i w)"]) simp

lemma run_of_steps:
  assumes "(sw_step sha)\<^sup>*\<^sup>* w v" "reachable sw_initial (sw_step sha) w"
  shows "reachable sw_initial (sw_step sha) v"
  using assms by (induction rule: rtranclp_induct) (auto intro: reachable.next_state)

text \<open>A pending command has exactly one ticket, the last one issued.\<close>

lemma ticket_last:
  assumes "sw_inv w" "c \<in> set (sw_tickets w)"
    and "sn_pending_remote_command (sw_machine w) = Some (ck_command_id c)"
  shows "c = last (sw_tickets w)"
proof -
  have l: "sw_tickets w \<noteq> []" "ck_command_id (last (sw_tickets w)) = ck_command_id c"
    using assms(1,3) by (auto simp: sw_inv_def)
  have "distinct (map ck_command_id (sw_tickets w))"
    using assms(1) by (simp add: sw_inv_def strict_sorted_iff)
  then show ?thesis
    using l assms(2) by (metis (no_types, lifting) distinct_map inj_onD last_in_set)
qed

lemma ticket_index:
  assumes "sw_inv w" "k < length (sw_tickets w)"
    and "sn_pending_remote_command (sw_machine w) = Some (ck_command_id (sw_tickets w ! k))"
  shows "k = length (sw_tickets w) - 1"
proof -
  have "distinct (sw_tickets w)"
    using assms(1) by (auto simp: sw_inv_def strict_sorted_iff distinct_map)
  moreover have "sw_tickets w ! k = sw_tickets w ! (length (sw_tickets w) - 1)"
    using ticket_last [OF assms(1) nth_mem [OF assms(2)] assms(3)] assms(2)
    by (cases "sw_tickets w") (simp_all add: last_conv_nth)
  ultimately show ?thesis using assms(2) by (simp add: nth_eq_iff_index_eq)
qed

lemma effect_path:
  assumes "session_inv w" "sw_exec sha i w = (out, v)"
  shows "legal_path (sw_machine w) (sw_machine v)
    \<or> sw_tickets w \<noteq> [] \<and> sn_pending_remote_command (sw_machine w) = Some (ck_command_id (last (sw_tickets w)))
      \<and> sn_post_accept_state (sw_machine w) = ck_post_accept (last (sw_tickets w))
      \<and> sw_machine v = restore_checkpoint (last (sw_tickets w)) (sw_machine w)"
  using sw_exec_effect [OF session_inv_vis [OF assms(1)] assms(2)]
proof (elim disjE)
  assume "is_register i \<and> register_effect w v"
  then obtain h l where "sw_machine v = with_leases h l (sw_machine w)" using register_fields by blast
  then have "sn_state (sw_machine v) = sn_state (sw_machine w)" by (simp add: with_leases_def)
  then show ?thesis by (simp add: legal_path_def)
next
  assume "accept_effect sha w v"
  then show ?thesis using movesD [OF accept_inner_frames(4)] by (auto simp: accept_effect_def)
next
  assume "begin_effect sha w v"
  then obtain e r u where u: "sn_accept_command_inner sha e (sw_machine w) = (Inr r, u)"
    and v: "sw_machine v = u\<lparr>sn_pending_remote_command := Some (ce_command_id e)\<rparr>"
    unfolding begin_effect_def by blast
  show ?thesis using movesD [OF accept_inner_frames(4) u] by (simp add: v legal_path_def)
next
  assume "resolve_effect w v"
  then obtain c where c: "c \<in> set (sw_tickets w)"
    "sn_pending_remote_command (sw_machine w) = Some (ck_command_id c)"
    "sw_machine v = (sw_machine w)\<lparr>sn_pending_remote_command := None\<rparr>
     \<or> sn_post_accept_state (sw_machine w) = ck_post_accept c \<and> sw_machine v = restore_checkpoint c (sw_machine w)"
    by (auto simp: resolve_effect_def)
  have "c = last (sw_tickets w)"
    using assms(1) by (intro ticket_last [OF _ c(1,2)]) (simp add: session_inv_def)
  then show ?thesis using c by (auto simp: legal_path_def)
qed (simp add: quiet_effect_def)

lemma closed_step:
  assumes "session_inv w" "sn_state (sw_machine w) = StClosed k" "sw_step sha w v"
  shows "sn_state (sw_machine v) = StClosed k"
proof -
  obtain i out where "sw_exec sha i w = (out, v)" using assms(3) by (auto elim: sw_step.cases)
  from effect_path [OF assms(1) this] show ?thesis
  proof
    assume "legal_path (sw_machine w) (sw_machine v)"
    then show ?thesis using legal_path_closed assms(2) by force
  next
    assume l: "sw_tickets w \<noteq> [] \<and> sn_pending_remote_command (sw_machine w) = Some (ck_command_id (last (sw_tickets w)))
      \<and> sn_post_accept_state (sw_machine w) = ck_post_accept (last (sw_tickets w))
      \<and> sw_machine v = restore_checkpoint (last (sw_tickets w)) (sw_machine w)"
    then have "ticket_ok (sw_machine w) (last (sw_tickets w))"
      using assms(1) by (simp add: session_inv_def sw_inv_def)
    then have "session_kind (pa_state (sn_post_accept_state (sw_machine w))) \<noteq> KClosed"
      using l by (simp add: ticket_ok_def)
    then show ?thesis using assms(2) by (simp add: sn_post_accept_state_def)
  qed
qed

lemma step_frame: "session_inv w \<Longrightarrow> sw_step sha w v \<Longrightarrow> sn_frame (sw_machine w) (sw_machine v)"
  by (auto elim!: sw_step.cases intro: effect_frame session_inv_vis)

interpretation commands: watermark sw_initial "sw_step sha" session_inv "\<lambda>w. cmd_mark (sw_machine w)" for sha
  by unfold_locales (simp add: step_frame [unfolded sn_frame_def])

interpretation stops: watermark sw_initial "sw_step sha" session_inv "\<lambda>w. sn_last_stop_id (sw_machine w)" for sha
  by unfold_locales (simp add: step_frame [unfolded sn_frame_def])

interpretation runs: watermark sw_initial "sw_step sha" session_inv "\<lambda>w. sn_last_run_id (sw_machine w)" for sha
  by unfold_locales (simp add: step_frame [unfolded sn_frame_def])

interpretation closed: trap sw_initial "sw_step sha" session_inv "\<lambda>w. sn_state (sw_machine w) = StClosed k" for sha k
  by unfold_locales (rule closed_step)

section \<open>Execution is authorised\<close>

text \<open>
  C2. A session that runs or pauses is authorised by its accepted target: a host launch or host
  attach by the acknowledged host risk and no sandbox, a sandboxed launch by a running sandbox of
  this session, epoch and helper whose accepted attestation is the exact one for the created
  process, an attach inside a sandbox by the inherited binding of this session and epoch; a dump
  or an offline image never runs.
\<close>

theorem session_runs_only_authorised:
  assumes "reachable sw_initial (sw_step sha) w"
    and "session_kind (sn_state (sw_machine w)) \<in> {KRunning, KPausing}"
  shows "case sn_target (sw_machine w) of
      Some (DtLaunch t) \<Rightarrow> (case la_environment t of
         LeHost _ \<Rightarrow> sn_execution_gate (sw_machine w) = HostRiskAccepted \<and> sn_sandbox (sw_machine w) = None
       | LeSandboxed _ \<Rightarrow> (\<exists>x p. sn_sandbox (sw_machine w) = Some x \<and> sx_state x = LsRunning
            \<and> sx_target_creation x = Some (Created p)
            \<and> sx_accepted_attestation x = Some (attestation_of (sx_expected x) p)
            \<and> ea_session_id (sx_expected x) = sn_session_id (sw_machine w)
            \<and> ea_provisioning_epoch (sx_expected x) = sn_provisioning_epoch (sw_machine w)
            \<and> ea_helper_build (sx_expected x) = sn_helper_build (sw_machine w)))
    | Some (DtAttach a) \<Rightarrow> (case aa_scope a of
         AsHost _ _ \<Rightarrow> sn_execution_gate (sw_machine w) = HostRiskAccepted \<and> sn_sandbox (sw_machine w) = None
       | AsOwnedSandbox _ _ \<Rightarrow> (\<exists>b. sn_inherited_sandbox (sw_machine w) = Some b
            \<and> so_session_id b = sn_session_id (sw_machine w)
            \<and> so_provisioning_epoch b = sn_provisioning_epoch (sw_machine w)))
    | _ \<Rightarrow> False"
proof -
  let ?m = "sw_machine w"
  have vis: "sn_vis ?m" by (rule reachable_vis [OF assms(1)])
  have gate: "sn_execution_gate ?m \<in> exec_gates" "sn_execution_gate ?m \<in> gates_for (sn_target ?m)"
    using vis assms(2) sn_vis_gate [OF vis] by (auto simp: sn_vis_def)
  have none: "sn_sandbox ?m = None" if "sn_execution_gate ?m = HostRiskAccepted"
    using vis that by (auto simp: sn_vis_def ownership_ok_def split: option.splits)
  have inherited: "\<exists>b. sn_inherited_sandbox ?m = Some b \<and> so_session_id b = sn_session_id ?m
      \<and> so_provisioning_epoch b = sn_provisioning_epoch ?m" if "sn_execution_gate ?m = InheritedSandbox"
    using vis that by (auto simp: sn_vis_def ownership_ok_def split: option.splits)
  have owned: "\<exists>x p. sn_sandbox ?m = Some x \<and> sx_state x = LsRunning
      \<and> sx_target_creation x = Some (Created p)
      \<and> sx_accepted_attestation x = Some (attestation_of (sx_expected x) p)
      \<and> ea_session_id (sx_expected x) = sn_session_id ?m
      \<and> ea_provisioning_epoch (sx_expected x) = sn_provisioning_epoch ?m
      \<and> ea_helper_build (sx_expected x) = sn_helper_build ?m"
    if g: "sn_execution_gate ?m = SandboxAccepted"
  proof -
    obtain x where x: "sn_sandbox ?m = Some x" using gate_pending_sandbox [OF vis] g by auto
    have "sx_state x = LsRunning" using sn_vis_sandbox(4) [OF vis x] assms(2) by auto
    moreover obtain a where a: "sx_accepted_attestation x = Some a"
      using sn_vis_sandbox(3) [OF vis x] g by auto
    moreover have "sandbox_bound ?m x" using vis x by (simp add: sn_vis_def ownership_ok_def)
    moreover have "\<exists>p. sx_target_creation x = Some (Created p) \<and> a = attestation_of (sx_expected x) p"
      using sn_vis_sandbox(1) [OF vis x] a unfolding sx_inv_def by blast
    ultimately show ?thesis using x by (auto simp: sandbox_bound_def)
  qed
  show ?thesis
    using gate none inherited owned
    by (auto simp: exec_gates_def gates_for_def
        split: option.splits debug_target.splits launch_environment.splits attach_scope.splits)
qed

section \<open>The reducer refines the protocol\<close>

text \<open>
  C3. Whatever the call and whether it succeeds, the visible state either follows the protocol's
  successor relation from its old value, generation by generation, or is exactly the state that the
  one pending remote command found, restored by the resolution that ends that command.
\<close>

theorem session_refines_protocol:
  assumes "reachable sw_initial (sw_step sha) w" "sw_exec sha i w = (out, v)"
  shows "legal_step\<^sup>*\<^sup>* (sn_state (sw_machine w)) (sn_state (sw_machine v))
    \<or> (\<exists>c \<in> set (sw_tickets w). sn_pending_remote_command (sw_machine w) = Some (ck_command_id c)
         \<and> sn_state (sw_machine v) = ck_state c \<and> sn_pending_remote_command (sw_machine v) = None)"
  using effect_path [OF world.reachable_inv [OF assms(1)] assms(2)]
  by (auto simp: legal_path_def intro: last_in_set)

text \<open>
  A closed session is closed for good: after any further calls, the state is still the same
  closed state with the same token, so no later resolution or observation reopens it.
\<close>

theorem closed_is_terminal:
  assumes "reachable sw_initial (sw_step sha) w" "sn_state (sw_machine w) = StClosed k"
  shows "sn_state (sw_machine (sw_run sha is w)) = StClosed k"
  by (rule closed.run_stuck [OF sw_run_steps world.reachable_inv [OF assms(1)] assms(2)])

section \<open>Command identifiers\<close>

lemma refused_replay:
  assumes "sn_last_command_id s = Some c" "ce_command_id e \<le> c"
  shows "\<exists>err. sn_accept_command_inner sha e s = (Inl err, s)"
  using assms
  by (cases "command_envelope_validate e")
    (simp_all add: sn_accept_command_inner_def and_then_def sm_defs sn_observe_command_eq)

text \<open>
  C4. Command identifiers are never reused.  Once a command has been taken notice of, accepted or
  not, then after any further calls every command with that identifier or a smaller one is refused,
  by both entry points, without changing the reducer, even when the first command was rolled back.
\<close>

theorem command_replay_refused:
  assumes "reachable sw_initial (sw_step sha) w" "sn_last_command_id (sw_machine w) = Some c"
    and "ce_command_id e \<le> c"
  shows "(\<exists>err. sw_exec sha (InAccept e) (sw_run sha is w) = (Refused err, sw_run sha is w))
    \<and> (\<exists>err. sw_exec sha (InBegin e) (sw_run sha is w) = (Refused err, sw_run sha is w))"
proof -
  let ?u = "sw_run sha is w"
  have "cmd_mark (sw_machine w) \<le> cmd_mark (sw_machine ?u)"
    by (rule commands.run_mark [OF sw_run_steps world.reachable_inv [OF assms(1)]])
  then obtain c' where c': "sn_last_command_id (sw_machine ?u) = Some c'" "ce_command_id e \<le> c'"
    using assms(2,3) by (auto simp: cmd_mark_def word_le_nat_alt split: option.splits)
  obtain err where r: "sn_accept_command_inner sha e (sw_machine ?u) = (Inl err, sw_machine ?u)"
    using refused_replay [OF c'] by blast
  have same: "?u\<lparr>sw_machine := sw_machine ?u\<rparr> = ?u" by simp
  have "\<exists>err. sn_accept_command sha e (sw_machine ?u) = (Inl err, sw_machine ?u)"
    "\<exists>err. sn_begin_remote_command sha e (sw_machine ?u) = (Inl err, sw_machine ?u)"
    using r by (cases "sn_pending_remote_command (sw_machine ?u)";
        simp add: sn_accept_command_def sn_begin_remote_command_def
          sn_require_no_remote_command_pending_def and_then_def sm_defs)+
  then show ?thesis by (auto simp: sw_exec_def sw_call_def sw_begin_def)
qed

section \<open>Remote commands\<close>

lemma pending_refuses:
  assumes "sn_pending_remote_command (sw_machine w) = Some cid"
  shows "sw_exec sha (InAccept e) w = (Refused (SeRemoteCommandPending cid), w)"
    "sw_exec sha (InBegin e) w = (Refused (SeRemoteCommandPending cid), w)"
  using assms
  by (simp_all add: sw_exec_def sw_call_def sw_begin_def sn_accept_command_def
      sn_begin_remote_command_def sn_require_no_remote_command_pending_def and_then_def sm_defs)

lemma commit_exec:
  "sw_exec sha (InCommit k c) w = (Done, v) \<longleftrightarrow>
     k < length (sw_tickets w) \<and> sn_reducer_instance (sw_machine w) = ck_reducer_instance (sw_tickets w ! k)
     \<and> c = ck_command_id (sw_tickets w ! k)
     \<and> sn_pending_remote_command (sw_machine w) = Some (ck_command_id (sw_tickets w ! k))
     \<and> v = w\<lparr>sw_machine := (sw_machine w)\<lparr>sn_pending_remote_command := None\<rparr>\<rparr>"
proof (cases "k < length (sw_tickets w)")
  case True
  let ?t = "sw_tickets w ! k"
  show ?thesis
  proof (cases "sn_validate_remote_checkpoint ?t c (sw_machine w)")
    case (Inl e)
    then have "\<not> (sn_reducer_instance (sw_machine w) = ck_reducer_instance ?t
        \<and> c = ck_command_id ?t \<and> sn_pending_remote_command (sw_machine w) = Some (ck_command_id ?t))"
      using validate_checkpoint_Inr [of ?t c "sw_machine w" "()"] by auto
    then show ?thesis using True Inl by (auto simp: sw_exec_def sw_with_ticket_def sw_call_def commit_cases)
  next
    case (Inr u)
    then show ?thesis
      using True validate_checkpoint_Inr [of ?t c "sw_machine w" u]
      by (auto simp: sw_exec_def sw_with_ticket_def sw_call_def commit_cases)
  qed
qed (simp add: sw_exec_def sw_with_ticket_def)

text \<open>
  C5. While a remote command is pending the reducer takes no other command, and exactly one call
  commits it: the one with the last ticket issued and the command's own identifier.  That call
  always succeeds, so no pending command is ever stranded.
\<close>

theorem pending_command_resolution:
  assumes "reachable sw_initial (sw_step sha) w" "sn_pending_remote_command (sw_machine w) = Some cid"
  shows "sw_exec sha (InAccept e) w = (Refused (SeRemoteCommandPending cid), w)
    \<and> sw_exec sha (InBegin e) w = (Refused (SeRemoteCommandPending cid), w)
    \<and> sw_tickets w \<noteq> []
    \<and> (fst (sw_exec sha (InCommit k c) w) = Done \<longleftrightarrow> k = length (sw_tickets w) - 1 \<and> c = cid)"
proof -
  have inv: "sw_inv w" using world.reachable_inv [OF assms(1)] by (simp add: session_inv_def)
  then have l: "sw_tickets w \<noteq> []" "ck_command_id (last (sw_tickets w)) = cid"
    "ticket_ok (sw_machine w) (last (sw_tickets w))"
    using assms(2) by (auto simp: sw_inv_def)
  have "fst (sw_exec sha (InCommit k c) w) = Done \<longleftrightarrow> k = length (sw_tickets w) - 1 \<and> c = cid"
  proof
    assume "fst (sw_exec sha (InCommit k c) w) = Done"
    then have "sw_exec sha (InCommit k c) w = (Done, snd (sw_exec sha (InCommit k c) w))"
      by (simp add: prod_eq_iff)
    then show "k = length (sw_tickets w) - 1 \<and> c = cid"
      using assms(2) ticket_index [OF inv, of k] by (auto simp: commit_exec)
  next
    assume "k = length (sw_tickets w) - 1 \<and> c = cid"
    then have "sw_exec sha (InCommit k c) w = (Done, w\<lparr>sw_machine := (sw_machine w)\<lparr>sn_pending_remote_command := None\<rparr>\<rparr>)"
      using l assms(2) by (simp add: commit_exec last_conv_nth ticket_ok_def)
    then show "fst (sw_exec sha (InCommit k c) w) = Done" by simp
  qed
  then show ?thesis using pending_refuses [OF assms(2)] l(1) by simp
qed

text \<open>The state a caller can see.\<close>

definition visible :: "session_machine \<Rightarrow> session_state \<times> debug_target option \<times> execution_gate
    \<times> sandbox_machine option \<times> sandbox_ownership_binding option" where
  "visible s = (sn_state s, sn_target s, sn_execution_gate s, sn_sandbox s, sn_inherited_sandbox s)"

text \<open>
  C6. Beginning a remote command and rejecting it is a round trip: the rejection with the ticket
  of that command succeeds, and the state, the target, the gate and both kinds of sandbox ownership
  are what they were before, while the command's identifier stays consumed.
\<close>

theorem begin_reject_round_trip:
  assumes "sw_exec sha (InBegin e) w = (Done, v)"
  shows "\<exists>u. sw_exec sha (InReject (length (sw_tickets w)) (ce_command_id e)) v = (Done, u)
    \<and> visible (sw_machine u) = visible (sw_machine w)
    \<and> sn_pending_remote_command (sw_machine u) = None
    \<and> sn_last_command_id (sw_machine u) = Some (ce_command_id e)"
proof -
  obtain c t where b: "sn_begin_remote_command sha e (sw_machine w) = (Inr c, t)"
    and v: "v = w\<lparr>sw_machine := t, sw_tickets := sw_tickets w @ [c]\<rparr>"
    using assms by (auto simp: sw_exec_def sw_begin_def split: prod.splits sum.splits)
  then obtain st u where u: "sn_accept_command_inner sha e (sw_machine w) = (Inr st, u)"
    and t: "t = u\<lparr>sn_pending_remote_command := Some (ce_command_id e)\<rparr>" and c: "c = ticket_of (sw_machine w) u e"
    by (auto simp: begin_remote_Inr)
  have "sn_validate_remote_checkpoint c (ce_command_id e) t = Inr ()"
    by (simp add: validate_checkpoint_Inr c t ticket_of_def)
  moreover have "sn_post_accept_state t = ck_post_accept c" by (simp add: t c ticket_of_def)
  ultimately have "sn_reject_remote_command c (ce_command_id e) t = (Inr (ck_state c), restore_checkpoint c t)"
    by (simp add: reject_cases)
  then have "sw_exec sha (InReject (length (sw_tickets w)) (ce_command_id e)) v
      = (Done, v\<lparr>sw_machine := restore_checkpoint c t\<rparr>)"
    by (simp add: sw_exec_def sw_with_ticket_def sw_call_def v)
  then show ?thesis
    using accept_inner_Inr(2) [OF u] by (simp add: visible_def c t ticket_of_def)
qed

section \<open>Calls that run an accepted command\<close>

lemma accept_done:
  assumes "sw_exec sha (InAccept e) w = (Done, v)"
  obtains st where "sn_accept_command_inner sha e (sw_machine w) = (Inr st, sw_machine v)"
proof -
  obtain st t where "sn_accept_command sha e (sw_machine w) = (Inr st, t)" "sw_machine v = t"
    using assms by (auto simp: sw_exec_def sw_call_def split: prod.splits sum.splits)
  then show ?thesis
    using that by (auto simp: sn_accept_command_def sn_require_no_remote_command_pending_def
        and_then_Inr_iff sm_defs split: option.splits)
qed

lemma begin_done:
  assumes "sw_exec sha (InBegin e) w = (Done, v)"
  obtains st u where "sn_accept_command_inner sha e (sw_machine w) = (Inr st, u)"
    "sw_machine v = u\<lparr>sn_pending_remote_command := Some (ce_command_id e)\<rparr>"
    "sw_tickets v = sw_tickets w @ [ticket_of (sw_machine w) u e]" "sn_pending_remote_command (sw_machine w) = None"
proof -
  obtain c t where b: "sn_begin_remote_command sha e (sw_machine w) = (Inr c, t)"
    and v: "v = w\<lparr>sw_machine := t, sw_tickets := sw_tickets w @ [c]\<rparr>"
    using assms by (auto simp: sw_exec_def sw_begin_def split: prod.splits sum.splits)
  then show ?thesis using that by (auto simp: begin_remote_Inr)
qed

lemma accepted_dispatch:
  assumes "sn_vis s" "sn_accept_command_inner sha e s = (Inr st, u)"
  shows "sn_vis (s\<lparr>sn_last_command_id := Some (ce_command_id e)\<rparr>)"
    "command_allowed (ce_command e) (sn_state s)"
    "sn_dispatch sha (ce_command e) (s\<lparr>sn_last_command_id := Some (ce_command_id e)\<rparr>) = (Inr (), u)"
  using assms accept_inner_Inr [OF assms(2)]
  by (auto simp: command_admitted_def validate_against_iff)

text \<open>A call that runs an accepted command, whichever entry point it uses.\<close>

lemma command_call_done:
  assumes "sw_exec sha i w = (Done, v)" "i = InAccept e \<or> i = InBegin e"
  obtains st u where "sn_accept_command_inner sha e (sw_machine w) = (Inr st, u)"
    "sn_state (sw_machine v) = sn_state u" "sn_last_stop_id (sw_machine v) = sn_last_stop_id u"
    "sn_last_run_id (sw_machine v) = sn_last_run_id u"
  using assms(2)
proof
  assume "i = InAccept e"
  then obtain st where "sn_accept_command_inner sha e (sw_machine w) = (Inr st, sw_machine v)"
    using accept_done [of sha e w v] assms(1) by blast
  then show ?thesis using that by blast
next
  assume "i = InBegin e"
  then obtain st u where "sn_accept_command_inner sha e (sw_machine w) = (Inr st, u)"
    "sw_machine v = u\<lparr>sn_pending_remote_command := Some (ce_command_id e)\<rparr>"
    using begin_done [of sha e w v] assms(1) by metis
  then show ?thesis using that by simp
qed

end
