(* ===== verification/Session_Closing.thy ===== *)
theory Session_Closing
  imports Session_Properties
begin

text \<open>
  The end of a session and the observations that lead there: batches of unsolicited observations,
  the exact evidence that closes a session, that a session whose target-creation outcome is known
  can always be closed, and that one whose outcome is unknown never is.
\<close>

section \<open>Unsolicited observations\<close>

lemma transition_Inr:
  "sn_transition_to n s = (Inr (), t) \<longleftrightarrow> validate_successor (sn_state s) n = Inr () \<and> t = s\<lparr>sn_state := n\<rparr>"
  by (auto simp: sn_transition_to_def and_then_Inr_iff sm_defs)

lemma mark_stopped_Inr:
  assumes "sn_mark_stopped reason thread s = (Inr st, t)"
  shows "validate_successor (sn_state s) st = Inr () \<and> sn_state t = st"
  using assms
  by (auto simp: sn_mark_stopped_def require_state_run guard_run next_token_run stop_token_run
      and_then_Inr_iff transition_Inr gets_def sn_require_open_target_def ok_def lift_result_def
      split: if_splits)

lemma mark_exited_Inr:
  assumes "sn_mark_exited code s = (Inr st, t)"
  shows "validate_successor (sn_state s) st = Inr () \<and> sn_state t = st"
proof -
  have "sn_state u = sn_state s" if "on_sandbox op s = (r, u)" for op :: "'a sandbox_op" and r u
    using that by (auto simp: on_sandbox_def split: option.splits prod.splits sum.splits)
  then show ?thesis
    using assms
    by (auto simp: sn_mark_exited_def require_state_run next_token_run and_then_Inr_iff transition_Inr gets_def
        on_sandbox_def split: if_splits option.splits prod.splits sum.splits)
qed

lemma apply_observation_Inr:
  assumes "sn_apply_observation ob s = (Inr u, t)"
  shows "validate_successor (sn_state s) ob = Inr () \<and> sn_state t = ob"
  using assms mark_stopped_Inr mark_exited_Inr
  by (cases ob) (auto simp: sn_apply_observation_def Let_def split: prod.splits)

lemma apply_each_Inr:
  "sn_apply_each obs s = (Inr u, t) \<Longrightarrow> accepted_history (sn_state s # obs) \<and> sn_state t = last (sn_state s # obs)"
proof (induction obs arbitrary: s)
  case (Cons ob obs)
  then obtain v w where "sn_apply_observation ob s = (Inr v, w)" "sn_apply_each obs w = (Inr u, t)"
    by (auto simp: and_then_Inr_iff)
  then show ?case using apply_observation_Inr Cons.IH by force
qed (simp add: ok_def)

text \<open>
  C9. A batch of unsolicited observations is applied completely or not at all: a refused batch
  leaves the reducer exactly as it was, and an accepted one ends in the last observed state, through
  states each of which is a legal successor of the one before, touching nothing but the state, the
  stop watermark and the sandbox.
\<close>

theorem unsolicited_all_or_nothing:
  "case sn_apply_unsolicited_observations obs s of
     (Inl e, t) \<Rightarrow> t = s
   | (Inr _, t) \<Rightarrow> accepted_history (sn_state s # obs) \<and> sn_state t = last (sn_state s # obs)
       \<and> t\<lparr>sn_state := sn_state s, sn_last_stop_id := sn_last_stop_id s, sn_sandbox := sn_sandbox s\<rparr> = s"
proof (cases "sn_apply_each obs s")
  case (Pair r t)
  show ?thesis
  proof (cases r)
    case (Inl e)
    then show ?thesis
      using unsolicited_error_restores [of obs s e] Pair
      by (simp add: sn_apply_unsolicited_observations_def)
  next
    case (Inr u)
    then show ?thesis
      using apply_each_Inr [of obs s u t] movesD [OF observed_apply_each Pair] Pair
      by (simp add: sn_apply_unsolicited_observations_def only_observed_def)
  qed
qed

section \<open>The evidence that closes a session\<close>

definition receipt_matches ::
    "session_id \<Rightarrow> provisioning_epoch \<Rightarrow> sandbox_provider \<Rightarrow> policy_digest \<Rightarrow> process_identity option
     \<Rightarrow> isolation_boundary \<Rightarrow> cleanup_receipt \<Rightarrow> bool" where
  "receipt_matches sid epoch provider digest process boundary r \<longleftrightarrow>
     cr_session_id r = sid \<and> cr_provisioning_epoch r = epoch \<and> cr_provider r = provider
     \<and> cr_policy_digest r = digest \<and> cr_process r = process
     \<and> cr_outcome r = CoComplete \<and> cr_residuals r = [] \<and> receipt_all_clean boundary r"

lemma validate_complete:
  "validate_for_boundary r b = Inr u \<and> cr_outcome r = CoComplete \<longleftrightarrow>
     cr_outcome r = CoComplete \<and> cr_residuals r = [] \<and> receipt_all_clean b r"
  by (auto simp: validate_for_boundary_def)

lemma receipt_closes_iff:
  "receipt_closes x r \<longleftrightarrow> (\<exists>c. sx_target_creation x = Some c
     \<and> receipt_matches (ea_session_id (sx_expected x)) (ea_provisioning_epoch (sx_expected x))
         (ea_provider (sx_expected x)) (ea_policy_digest (sx_expected x)) (target_creation_process c)
         (ea_boundary (sx_expected x)) r)"
  using validate_complete [of r "ea_boundary (sx_expected x)" "()"]
  by (auto simp: receipt_closes_def sx_validate_cleanup_receipt_def receipt_validate_against_def
      receipt_matches_def)

lemma inherited_closes_iff:
  "sn_validate_inherited_cleanup b r = Inr () \<longleftrightarrow>
     receipt_matches (so_session_id b) (so_provisioning_epoch b) (so_provider b) (so_policy_digest b)
       (Some (so_process b)) (provider_boundary (so_provider b)) r"
  using validate_complete [of r "provider_boundary (so_provider b)" "()"]
  by (auto simp: sn_validate_inherited_cleanup_def sn_validate_inherited_cleanup_binding_def
      receipt_matches_def)

text \<open>
  C29. A session closes exactly when it is closing, a generation is left, and the evidence its
  ownership demands is there: for an owned sandbox a complete receipt for its expectation and its
  recorded creation outcome, for an inherited one a complete receipt for its binding, and for
  neither no receipt at all.  It then ends in the closed state, and its sandbox is closed with it.
\<close>

theorem complete_close_exact:
  assumes "reachable sw_initial (sw_step sha) w"
  shows "sw_exec sha (InCompleteClose receipt) w = (Done, v) \<longleftrightarrow>
     session_kind (sn_state (sw_machine w)) = KClosing
     \<and> unat (tk_generation (session_state_token (sn_state (sw_machine w)))) + 1 < 2 ^ 64
     \<and> (case sn_sandbox (sw_machine w) of
          Some x \<Rightarrow> (\<exists>r c. receipt = Some r \<and> sx_target_creation x = Some c
            \<and> receipt_matches (ea_session_id (sx_expected x)) (ea_provisioning_epoch (sx_expected x))
                (ea_provider (sx_expected x)) (ea_policy_digest (sx_expected x))
                (target_creation_process c) (ea_boundary (sx_expected x)) r)
        | None \<Rightarrow> (case sn_inherited_sandbox (sw_machine w) of
            Some b \<Rightarrow> (\<exists>r. receipt = Some r
              \<and> receipt_matches (so_session_id b) (so_provisioning_epoch b) (so_provider b)
                  (so_policy_digest b) (Some (so_process b)) (provider_boundary (so_provider b)) r)
          | None \<Rightarrow> receipt = None))
     \<and> v = w\<lparr>sw_machine := (sw_machine w)\<lparr>
              sn_sandbox := map_option (\<lambda>x. x\<lparr>sx_state := LsClosed\<rparr>) (sn_sandbox (sw_machine w)),
              sn_state := StClosed (next_token (sw_machine w))\<rparr>\<rparr>"
proof -
  let ?m = "sw_machine w"
  have vis: "sn_vis ?m" by (rule reachable_vis [OF assms])
  have ev: "cleanup_proven ?m receipt \<longleftrightarrow> (case sn_sandbox ?m of
          Some x \<Rightarrow> (\<exists>r c. receipt = Some r \<and> sx_target_creation x = Some c
            \<and> receipt_matches (ea_session_id (sx_expected x)) (ea_provisioning_epoch (sx_expected x))
                (ea_provider (sx_expected x)) (ea_policy_digest (sx_expected x))
                (target_creation_process c) (ea_boundary (sx_expected x)) r)
        | None \<Rightarrow> (case sn_inherited_sandbox ?m of
            Some b \<Rightarrow> (\<exists>r. receipt = Some r
              \<and> receipt_matches (so_session_id b) (so_provisioning_epoch b) (so_provider b)
                  (so_policy_digest b) (Some (so_process b)) (provider_boundary (so_provider b)) r)
          | None \<Rightarrow> receipt = None))"
    by (auto simp: cleanup_proven_def receipt_closes_iff inherited_closes_iff split: option.splits)
  have "sw_exec sha (InCompleteClose receipt) w = (Done, v) \<longleftrightarrow>
      session_kind (sn_state ?m) = KClosing \<and> gen_room ?m \<and> cleanup_proven ?m receipt
      \<and> v = w\<lparr>sw_machine := closed_update ?m\<rparr>"
    using sn_complete_close_run [OF vis, of receipt] by (auto simp: sw_exec_def sw_call_def)
  then show ?thesis
    unfolding ev by (simp add: gen_room_def state_tok_def closed_update_def with_life_def)
qed

section \<open>Liveness of closing\<close>

definition close_envelope :: "command_id \<Rightarrow> session_machine \<Rightarrow> command_envelope" where
  "close_envelope cid s =
     \<lparr>ce_version = protocol_version_current, ce_command_id = cid, ce_session_id = Some (sn_session_id s),
      ce_expected_state = Some (session_state_token (sn_state s)),
      ce_command = CmdClose (session_state_token (sn_state s))\<rparr>"

definition clean_receipt ::
    "session_id \<Rightarrow> provisioning_epoch \<Rightarrow> sandbox_provider \<Rightarrow> policy_digest \<Rightarrow> process_identity option
     \<Rightarrow> isolation_boundary \<Rightarrow> cleanup_receipt" where
  "clean_receipt sid epoch provider digest process boundary =
     \<lparr>cr_receipt_id = ''receipt'', cr_session_id = sid, cr_provisioning_epoch = epoch,
      cr_provider = provider, cr_policy_digest = digest, cr_process = process, cr_outcome = CoComplete,
      cr_process_tree_terminated_and_reaped = True, cr_handles_closed = True,
      cr_file_system_rolled_back = True, cr_registry_rolled_back = True, cr_network_torn_down = True,
      cr_owned_paths_deleted = True,
      cr_appcontainer_profile_deleted = (if boundary = UserMode then Some True else None),
      cr_differencing_disk_discarded = (if boundary = UserMode then None else Some True),
      cr_control_channel_closed = (if boundary = UserMode then None else Some True),
      cr_terminated_processes = 0, cr_residuals = []\<rparr>"

lemma clean_receipt_matches:
  "receipt_matches sid epoch provider digest process boundary
     (clean_receipt sid epoch provider digest process boundary)"
  by (cases boundary) (simp_all add: receipt_matches_def clean_receipt_def receipt_all_clean_def)

lemma evidence_exists:
  assumes "creation_known s"
  shows "\<exists>receipt. cleanup_proven s receipt"
proof (cases "sn_sandbox s")
  case (Some x)
  then obtain c where "sx_target_creation x = Some c" using assms by (auto simp: creation_known_def)
  then show ?thesis
    using Some clean_receipt_matches by (auto simp: cleanup_proven_def receipt_closes_iff intro!: exI [of _ "Some r" for r])
next
  case None
  then show ?thesis
    using clean_receipt_matches
    by (cases "sn_inherited_sandbox s")
      (auto simp: cleanup_proven_def inherited_closes_iff intro!: exI [of _ "Some r" for r])
qed

lemma close_admitted:
  assumes "sn_vis s" "session_kind (sn_state s) \<noteq> KClosed"
    and "\<And>c. sn_last_command_id s = Some c \<Longrightarrow> c < cid"
  shows "command_admitted s (close_envelope cid s)"
proof -
  have tok: "tk_session_id (session_state_token (sn_state s)) = sn_session_id s"
    using sn_vis_token [OF assms(1)] by (simp add: state_tok_def)
  have v: "command_envelope_validate (close_envelope cid s) = Inr ()"
    by (simp add: command_envelope_validate_def close_envelope_def protocol_version_validate_def tok)
  have "command_allowed (CmdClose t) (sn_state s)" for t using assms(2) by (cases "sn_state s") auto
  then have "command_validate_against (close_envelope cid s) (sn_state s) = Inr ()"
    using v by (simp add: validate_against_iff close_envelope_def tok)
  then show ?thesis using v assms(3) by (simp add: command_admitted_def) (simp add: close_envelope_def)
qed

lemma close_accepted:
  assumes "sn_vis s" "session_kind (sn_state s) \<notin> {KClosing, KClosed}" "gen_room s"
    and "\<And>c. sn_last_command_id s = Some c \<Longrightarrow> c < cid"
  shows "sn_accept_command_inner sha (close_envelope cid s) s =
    (Inr (StClosing (next_token s)),
     (with_life LsCleanup s)\<lparr>sn_last_command_id := Some cid, sn_state := StClosing (next_token s)\<rparr>)"
proof -
  let ?s = "s\<lparr>sn_last_command_id := Some cid\<rparr>"
  have a: "command_admitted s (close_envelope cid s)" using assms by (intro close_admitted) auto
  have c: "ce_command_id (close_envelope cid s) = cid" "ce_command (close_envelope cid s) = CmdClose (session_state_token (sn_state s))"
    by (simp_all add: close_envelope_def)
  have "sn_accept_shutdown ?s = (Inr (), (with_life LsCleanup ?s)\<lparr>sn_state := StClosing (next_token s)\<rparr>)"
    using assms by (subst sn_accept_shutdown_eq) auto
  moreover have "with_life LsCleanup ?s = (with_life LsCleanup s)\<lparr>sn_last_command_id := Some cid\<rparr>"
    by (simp add: with_life_def)
  ultimately show ?thesis
    unfolding accept_inner_admitted [OF a] c by (simp add: sn_dispatch_def and_then_def gets_def)
qed

lemma closing_closes:
  assumes "session_inv w" "session_kind (sn_state (sw_machine w)) = KClosing" "gen_room (sw_machine w)"
    and "creation_known (sw_machine w)"
  shows "\<exists>receipt. session_kind (sn_state (sw_machine (snd (sw_exec sha (InCompleteClose receipt) w)))) = KClosed"
proof -
  obtain receipt where r: "cleanup_proven (sw_machine w) receipt" using evidence_exists [OF assms(4)] ..
  then have "sn_complete_close receipt (sw_machine w) = (Inr (StClosed (next_token (sw_machine w))), closed_update (sw_machine w))"
    using sn_complete_close_run [OF session_inv_vis [OF assms(1)], of receipt] assms(2,3) by auto
  then show ?thesis by (intro exI [of _ receipt]) (simp add: sw_exec_def sw_call_def closed_update_def)
qed

text \<open>
  C30. Closing is always possible while the target-creation outcome is known: from every reachable
  state with no remote command pending, one accepted close command and one complete receipt lead to
  the closed state, as long as two generations and one command identifier are left.
\<close>

theorem session_can_close:
  assumes "reachable sw_initial (sw_step sha) w" "sn_pending_remote_command (sw_machine w) = None"
    and "creation_known (sw_machine w)" "cmd_mark (sw_machine w) < 2 ^ 64"
    and "unat (tk_generation (session_state_token (sn_state (sw_machine w)))) + 2 < 2 ^ 64"
  shows "\<exists>is. length is \<le> 2 \<and> session_kind (sn_state (sw_machine (sw_run sha is w))) = KClosed"
proof -
  let ?m = "sw_machine w"
  have inv: "session_inv w" by (rule world.reachable_inv [OF assms(1)])
  note vis = session_inv_vis [OF inv]
  have room: "gen_room ?m" using assms(5) by (simp add: gen_room_def state_tok_def)
  consider "session_kind (sn_state ?m) = KClosed" | "session_kind (sn_state ?m) = KClosing"
    | "session_kind (sn_state ?m) \<notin> {KClosing, KClosed}" by auto
  then show ?thesis
  proof cases
    case 1
    then show ?thesis by (intro exI [of _ "[]"]) simp
  next
    case 2
    then obtain receipt where "session_kind (sn_state (sw_machine (snd (sw_exec sha (InCompleteClose receipt) w)))) = KClosed"
      using closing_closes [OF inv _ room assms(3)] by blast
    then show ?thesis by (intro exI [of _ "[InCompleteClose receipt]"]) simp
  next
    case 3
    let ?cid = "of_nat (cmd_mark ?m) :: u64"
    let ?i = "InAccept (close_envelope ?cid ?m)" and ?v = "w\<lparr>sw_machine := (with_life LsCleanup ?m)\<lparr>sn_last_command_id := Some ?cid,
       sn_state := StClosing (next_token ?m)\<rparr>\<rparr>"
    have "c < ?cid" if "sn_last_command_id ?m = Some c" for c
    proof -
      have "unat ?cid = cmd_mark ?m" using assms(4) by (simp add: unat_of_nat take_bit_nat_eq_self)
      then show ?thesis using that by (simp add: word_less_nat_alt cmd_mark_def)
    qed
    then have i: "sw_exec sha ?i w = (Done, ?v)"
      using close_accepted [OF vis 3 room, of ?cid sha] assms(2)
      by (simp add: sw_exec_def sw_call_def sn_accept_command_def sn_require_no_remote_command_pending_def
          and_then_def sm_defs)
    have "unat (tk_generation (next_token ?m)) = unat (tk_generation (state_tok ?m)) + 1"
      using room by (simp add: next_token_def gen_room_def unat_word_ariths)
    then have "gen_room (sw_machine ?v)"
      using assms(5) by (simp add: gen_room_def) (simp add: state_tok_def)
    moreover have "creation_known (sw_machine ?v)"
      using assms(3) by (auto simp: creation_known_def with_life_def)
    ultimately obtain receipt where
      "session_kind (sn_state (sw_machine (snd (sw_exec sha (InCompleteClose receipt) ?v)))) = KClosed"
      using closing_closes [OF session_inv_exec [OF inv i], of sha] by auto
    then show ?thesis using i by (intro exI [of _ "[?i, InCompleteClose receipt]"]) simp
  qed
qed

section \<open>Unknown creation outcomes\<close>

text \<open>A closing session whose sandbox has no recorded creation outcome, with nothing to roll back.\<close>

definition stalled :: "session_machine \<Rightarrow> bool" where
  "stalled s \<longleftrightarrow> session_kind (sn_state s) = KClosing \<and> sn_pending_remote_command s = None
     \<and> (\<exists>x. sn_sandbox s = Some x \<and> sx_target_creation x = None)"

lemma stalled_command [simp]: "stalled (s\<lparr>sn_last_command_id := c\<rparr>) = stalled s"
  by (simp add: stalled_def)

lemma closing_allows_close:
  assumes "command_allowed c st" "session_kind st = KClosing"
  shows "\<exists>k. c = CmdClose k"
proof -
  obtain t where "st = StClosing t" using assms(2) by (cases st) auto
  moreover have "\<not> matches_read_view (StClosing t) x" "\<not> matches_live (StClosing t) y"
    "\<not> matches_execution (StClosing t) z" for x y z t
    by (cases x; cases y; cases z; simp)+
  ultimately show ?thesis using assms(1) by (cases c) (auto simp: stopped_at_def)
qed

lemma closing_refuses_commands:
  assumes "sn_vis s" "session_kind (sn_state s) = KClosing"
  shows "\<exists>err c. sn_accept_command_inner sha e s = (Inl err, s)
     \<or> sn_accept_command_inner sha e s = (Inl err, s\<lparr>sn_last_command_id := c\<rparr>)"
proof (cases "command_admitted s e")
  case True
  let ?s = "s\<lparr>sn_last_command_id := Some (ce_command_id e)\<rparr>"
  obtain k where k: "ce_command e = CmdClose k"
    using True closing_allows_close [of "ce_command e" "sn_state s"] assms(2)
    by (auto simp: command_admitted_def validate_against_iff)
  have "with_life LsCleanup ?s = ?s"
    using assms by (intro with_life_same) (auto simp: sn_vis_def)
  then have "\<exists>err. sn_accept_shutdown ?s = (Inl err, ?s)"
    using assms by (subst sn_accept_shutdown_eq) auto
  then obtain err where "sn_accept_shutdown ?s = (Inl err, ?s)" ..
  then have "sn_accept_command_inner sha e s = (Inl err, ?s)"
    unfolding accept_inner_admitted [OF True] k by (simp add: sn_dispatch_def and_then_def)
  then show ?thesis by blast
next
  case False
  then show ?thesis using accept_inner_refused [OF False, of sha] by blast
qed

lemma closing_refuses_observations:
  assumes "sn_vis s" "session_kind (sn_state s) = KClosing"
  shows "snd (sn_apply_unsolicited_observations obs s) = s"
proof (cases obs)
  case Nil
  then show ?thesis by (simp add: sn_apply_unsolicited_observations_def ok_def)
next
  case (Cons ob obs')
  have "\<exists>e. sn_apply_observation ob s = (Inl e, s)"
    using assms by (cases ob)
      (simp_all add: sn_apply_observation_def sn_mark_stopped_eq may_stop_def sn_mark_exited_eq may_exit_def)
  then obtain e where "sn_apply_observation ob s = (Inl e, s)" ..
  then show ?thesis by (simp add: Cons sn_apply_unsolicited_observations_def and_then_def)
qed

lemma stalled_failed:
  assumes "sn_vis s" "stalled s"
  shows "snd (sn_mark_failed m s) = s" "snd (sn_complete_close receipt s) = s"
    "snd (sn_record_sandbox_target_not_created s) = s"
    "snd (sn_retain_sandbox_failure_target_creation f s) = s"
proof -
  obtain x where x: "sn_sandbox s = Some x" "sx_target_creation x = None" and k: "session_kind (sn_state s) = KClosing"
    using assms(2) by (auto simp: stalled_def)
  have life: "sx_state x = LsCleanup" using sn_vis_sandbox(4) [OF assms(1) x(1)] k by simp
  have inh: "sn_inherited_sandbox s = None" by (rule sole_ownership [OF assms(1) x(1)])
  show "snd (sn_mark_failed m s) = s"
    using x k by (simp add: sn_mark_failed_eq [OF assms(1)] creation_known_def)
  have "\<not> cleanup_proven s receipt" using x by (auto simp: cleanup_proven_def receipt_closes_iff split: option.splits)
  then show "snd (sn_complete_close receipt s) = s"
    using sn_complete_close_run [OF assms(1), of receipt] by auto
  show "snd (sn_record_sandbox_target_not_created s) = s"
    using x inh life by (simp add: sn_record_sandbox_target_not_created_def on_sandbox_def
        sx_record_not_created_eq same_sandbox)
  show "snd (sn_retain_sandbox_failure_target_creation f s) = s"
    using x inh
    by (simp add: sn_retain_sandbox_failure_target_creation_def and_then_def sm_defs
        split: sum.split failure_context.split)
qed

lemma not_pending_refuses:
  assumes "sn_pending_remote_command s = None"
  shows "\<exists>e. sn_validate_remote_checkpoint c cid s = Inl e" "\<exists>e. sn_validate_local_resolution c r s = Inl e"
proof -
  show v: "\<exists>e. sn_validate_remote_checkpoint c cid s = Inl e" for cid
    using assms by (auto simp: sn_validate_remote_checkpoint_def rbind_Inl_iff)
  show "\<exists>e. sn_validate_local_resolution c r s = Inl e"
    using v [of "wa_command_id (ri_write r)"] by (auto simp: sn_validate_local_resolution_def)
qed

lemma stalled_tickets:
  assumes "sn_pending_remote_command s = None"
  shows "snd (sn_commit_remote_command c cid s) = s" "snd (sn_reject_remote_command c cid s) = s"
    "snd (sn_resolve_live_memory_write_success c r s) = s"
    "snd (sn_resolve_live_memory_write_no_effect c r s) = s"
proof -
  obtain e1 where "sn_validate_remote_checkpoint c cid s = Inl e1" using not_pending_refuses(1) [OF assms] ..
  then show "snd (sn_commit_remote_command c cid s) = s" "snd (sn_reject_remote_command c cid s) = s"
    by (simp_all add: commit_cases reject_cases)
  obtain e2 where "sn_validate_local_resolution c r s = Inl e2" using not_pending_refuses(2) [OF assms] ..
  then show "snd (sn_resolve_live_memory_write_success c r s) = s"
    "snd (sn_resolve_live_memory_write_no_effect c r s) = s"
    by (simp_all add: live_success_cases live_no_effect_cases)
qed

lemma stalled_opening:
  assumes "sn_vis s" "session_kind (sn_state s) = KClosing"
  shows "snd (sn_target_created_suspended p s) = s" "snd (sn_accept_sandbox_attestation a s) = s"
    "snd (sn_complete_open_offline s) = s" "snd (sn_complete_open_dump s) = s"
    "snd (sn_complete_open_observing pid s) = s" "snd (sn_mark_stopped reason thread s) = s"
    "snd (sn_mark_exited code s) = s" "snd (sn_register_host_risk_verifier hv s) = s"
    "snd (sn_register_sandbox_ownership_verifier ov s) = s"
  using assms sn_accept_attestation_refused [of s a]
  by (auto simp: sn_created_suspended_eq complete_open_defs require_open_target_run sn_mark_stopped_eq
      may_stop_def sn_mark_exited_eq may_exit_def register_host_eq register_ownership_eq)

lemma stalled_commands:
  assumes "sn_vis s" "stalled s"
  shows "sn_accept_command sha e s = (r1, t) \<Longrightarrow> stalled t"
    "sn_begin_remote_command sha e s = (r2, t) \<Longrightarrow> (\<exists>err. r2 = Inl err) \<and> stalled t"
    "sn_begin_live_memory_write sha n e b s = (r3, t) \<Longrightarrow> (\<exists>err. r3 = Inl err) \<and> stalled t"
proof -
  have k: "session_kind (sn_state s) = KClosing" using assms(2) by (simp add: stalled_def)
  have inner: "(\<exists>err. r = Inl err) \<and> stalled t" if "sn_accept_command_inner sha e s = (r, t)" for r t
    using closing_refuses_commands [OF assms(1) k, of sha e] assms(2) that by auto
  show "sn_accept_command sha e s = (r1, t) \<Longrightarrow> stalled t"
    using accept_command_cases [of sha e s r1 t] inner assms(2) by blast
  show rem: "(\<exists>err. r2 = Inl err) \<and> stalled t" if "sn_begin_remote_command sha e s = (r2, t)" for r2
  proof (cases r2)
    case (Inl err)
    then show ?thesis using begin_remote_Inl [of sha e s err t] that inner assms(2) by blast
  next
    case (Inr c)
    then show ?thesis using that inner by (auto simp: begin_remote_Inr)
  qed
  show "(\<exists>err. r3 = Inl err) \<and> stalled t" if live: "sn_begin_live_memory_write sha n e b s = (r3, t)"
  proof (cases r3)
    case (Inl err)
    then show ?thesis using begin_live_Inl [of sha n e b s err t] live rem assms(2) by blast
  next
    case (Inr c)
    obtain c0 c1 c2 where c: "c = (c0, c1, c2)" by (cases c)
    obtain d where "sn_begin_remote_command sha e s = (Inr d, t)"
      by (rule begin_live_Inr [of sha n e b s c0 c1 c2 t]) (use live Inr c in simp_all)
    then show ?thesis using rem by blast
  qed
qed

lemma sw_call_machine: "sw_call m w = (out, v) \<Longrightarrow> sw_machine v = snd (m (sw_machine w))"
  using sw_call_state by fastforce

lemma stalled_same:
  "sw_call m w = (out, v) \<Longrightarrow> snd (m (sw_machine w)) = sw_machine w \<Longrightarrow> stalled (sw_machine w) \<Longrightarrow>
     stalled (sw_machine v)"
  by (simp add: sw_call_machine)

lemma ticket_call_machine:
  assumes "sw_with_ticket k f w = (out, v)" "\<And>c. f c w = (out, v) \<Longrightarrow> P (sw_machine v)" "P (sw_machine w)"
  shows "P (sw_machine v)"
  using assms by (auto simp: sw_with_ticket_def split: if_splits)

lemma receipt_call_machine:
  assumes "sw_with_receipt k f w = (out, v)" "\<And>c. f c w = (out, v) \<Longrightarrow> P (sw_machine v)" "P (sw_machine w)"
  shows "P (sw_machine v)"
  using assms by (auto simp: sw_with_receipt_def split: if_splits)

lemma stalled_exec:
  assumes "session_inv w" "stalled (sw_machine w)" "sw_exec sha i w = (out, v)"
  shows "stalled (sw_machine v)"
proof -
  let ?m = "sw_machine w"
  have vis: "sn_vis ?m" by (rule session_inv_vis [OF assms(1)])
  have k: "session_kind (sn_state ?m) = KClosing" and none: "sn_pending_remote_command ?m = None"
    using assms(2) by (simp_all add: stalled_def)
  note ex = assms(3) [unfolded sw_exec_def]
  note still = stalled_opening [OF vis k] stalled_failed [OF vis assms(2)] stalled_tickets [OF none]
  show ?thesis
  proof (cases i)
    case (InAccept e)
    then have "sw_call (sn_accept_command sha e) w = (out, v)" using ex by simp
    from sw_call_machine [OF this] show ?thesis
      using stalled_commands(1) [OF vis assms(2), of sha e] by (metis prod.collapse)
  next
    case (InBegin e)
    then show ?thesis
      using ex stalled_commands(2) [OF vis assms(2), of sha e]
      by (auto simp: sw_begin_def split: prod.splits sum.splits)
  next
    case (InBeginLive e b)
    then show ?thesis
      using ex stalled_commands(3) [OF vis assms(2), of sha "length (sw_receipts w)" e b]
      by (auto simp: sw_begin_live_def split: prod.splits sum.splits)
  next
    case (InCommit k cid)
    then have "sw_with_ticket k (\<lambda>c. sw_call (sn_commit_remote_command c cid)) w = (out, v)" using ex by simp
    then show ?thesis
      by (rule ticket_call_machine) (rule stalled_same, assumption, rule still, rule assms(2), rule assms(2))
  next
    case (InReject k cid)
    then have "sw_with_ticket k (\<lambda>c. sw_call (sn_reject_remote_command c cid)) w = (out, v)" using ex by simp
    then show ?thesis
      by (rule ticket_call_machine) (rule stalled_same, assumption, rule still, rule assms(2), rule assms(2))
  next
    case (InLiveSuccess k j)
    then have "sw_with_ticket k (\<lambda>c. sw_with_receipt j (\<lambda>r.
        sw_call (sn_resolve_live_memory_write_success c r))) w = (out, v)" using ex by simp
    then show ?thesis
      by (rule ticket_call_machine, elim receipt_call_machine)
        (rule stalled_same, assumption, rule still, rule assms(2), rule assms(2), rule assms(2))
  next
    case (InLiveNoEffect k j)
    then have "sw_with_ticket k (\<lambda>c. sw_with_receipt j (\<lambda>r.
        sw_call (sn_resolve_live_memory_write_no_effect c r))) w = (out, v)" using ex by simp
    then show ?thesis
      by (rule ticket_call_machine, elim receipt_call_machine)
        (rule stalled_same, assumption, rule still, rule assms(2), rule assms(2), rule assms(2))
  next
    case (InUnsolicited obs)
    then have "sw_machine v = snd (sn_apply_unsolicited_observations obs ?m)"
      using ex by (auto split: prod.splits sum.splits)
    then show ?thesis using closing_refuses_observations [OF vis k] assms(2) by simp
  next
    case (InRegisterHostRisk x)
    then have "sw_call (sn_register_host_risk_verifier x) w = (out, v)" using ex by simp
    then show ?thesis by (rule stalled_same) (rule still, rule assms(2))
  next
    case (InRegisterOwnership x)
    then have "sw_call (sn_register_sandbox_ownership_verifier x) w = (out, v)" using ex by simp
    then show ?thesis by (rule stalled_same) (rule still, rule assms(2))
  next
    case (InCreatedSuspended p)
    then have "sw_call (sn_target_created_suspended p) w = (out, v)" using ex by simp
    then show ?thesis by (rule stalled_same) (rule still, rule assms(2))
  next
    case (InAttestation a)
    then have "sw_call (sn_accept_sandbox_attestation a) w = (out, v)" using ex by simp
    then show ?thesis by (rule stalled_same) (rule still, rule assms(2))
  next
    case InOpenOffline
    then have "sw_call (sn_complete_open_offline) w = (out, v)" using ex by simp
    then show ?thesis by (rule stalled_same) (rule still, rule assms(2))
  next
    case InOpenDump
    then have "sw_call (sn_complete_open_dump) w = (out, v)" using ex by simp
    then show ?thesis by (rule stalled_same) (rule still, rule assms(2))
  next
    case (InOpenObserving pid)
    then have "sw_call (sn_complete_open_observing pid) w = (out, v)" using ex by simp
    then show ?thesis by (rule stalled_same) (rule still, rule assms(2))
  next
    case (InStopped reason thread)
    then have "sw_call (sn_mark_stopped reason thread) w = (out, v)" using ex by simp
    then show ?thesis by (rule stalled_same) (rule still, rule assms(2))
  next
    case (InExited code)
    then have "sw_call (sn_mark_exited code) w = (out, v)" using ex by simp
    then show ?thesis by (rule stalled_same) (rule still, rule assms(2))
  next
    case (InFailed m)
    then have "sw_call (sn_mark_failed m) w = (out, v)" using ex by simp
    then show ?thesis by (rule stalled_same) (rule still, rule assms(2))
  next
    case (InCompleteClose receipt)
    then have "sw_call (sn_complete_close receipt) w = (out, v)" using ex by simp
    then show ?thesis by (rule stalled_same) (rule still, rule assms(2))
  next
    case InNotCreated
    then have "sw_call (sn_record_sandbox_target_not_created) w = (out, v)" using ex by simp
    then show ?thesis by (rule stalled_same) (rule still, rule assms(2))
  next
    case (InRetain f)
    then have "sw_call (sn_retain_sandbox_failure_target_creation f) w = (out, v)" using ex by simp
    then show ?thesis by (rule stalled_same) (rule still, rule assms(2))
  qed
qed

interpretation stalled_world: trap sw_initial "sw_step sha" session_inv "\<lambda>w. stalled (sw_machine w)" for sha
  by unfold_locales (auto elim!: sw_step.cases intro: stalled_exec)

text \<open>
  C31. An unknown target-creation outcome fails closed: a session that is closing over a sandbox
  with no recorded outcome, and has no pending command to roll back, never reaches the closed state,
  and never leaves the closing one, whatever calls follow.
\<close>

theorem unknown_creation_never_closes:
  assumes "reachable sw_initial (sw_step sha) w" "session_kind (sn_state (sw_machine w)) = KClosing"
    and "sn_pending_remote_command (sw_machine w) = None"
    and "sn_sandbox (sw_machine w) = Some x" "sx_target_creation x = None"
  shows "session_kind (sn_state (sw_machine (sw_run sha is w))) = KClosing"
proof -
  have "stalled (sw_machine w)" using assms(2-5) by (simp add: stalled_def)
  then have "stalled (sw_machine (sw_run sha is w))"
    by (rule stalled_world.run_stuck [OF sw_run_steps world.reachable_inv [OF assms(1)]])
  then show ?thesis by (simp add: stalled_def)
qed

end
