(* ===== verification/Session_Leases.thy ===== *)
theory Session_Leases
  imports Session_Closing
begin

text \<open>
  The composition of the session reducer with the authorization issuers and with its hosts: the
  registries stay bounded and bound to the session, a lease authorises at most one open, an issued
  launch opens, failures bound by the reducer validate against it, live writes resolve with a
  fresh stop token, and no call reaches one of the panics of the source.
\<close>

section \<open>Registries\<close>

text \<open>
  C34. In every reachable session each registry holds at most 64 leases, in key order, and every
  live entry is stored under its own identifier and names this session and provisioning epoch.
\<close>

theorem registries_bounded:
  assumes "reachable sw_initial (sw_step sha) w"
  shows "length (sn_host_risk_leases (sw_machine w)) \<le> 64
    \<and> length (sn_sandbox_ownership_leases (sw_machine w)) \<le> 64
    \<and> sorted_wrt (<) (map fst (sn_host_risk_leases (sw_machine w)))
    \<and> sorted_wrt (<) (map fst (sn_sandbox_ownership_leases (sw_machine w)))
    \<and> (bt_lookup (sn_host_risk_leases (sw_machine w)) i = Some (Some hv) \<longrightarrow>
         hv_id hv = i \<and> hv_session_id hv = sn_session_id (sw_machine w)
         \<and> hv_provisioning_epoch hv = sn_provisioning_epoch (sw_machine w))
    \<and> (bt_lookup (sn_sandbox_ownership_leases (sw_machine w)) j = Some (Some ov) \<longrightarrow>
         ov_id ov = j \<and> so_session_id (ov_binding ov) = sn_session_id (sw_machine w)
         \<and> so_provisioning_epoch (ov_binding ov) = sn_provisioning_epoch (sw_machine w))"
  using world.reachable_inv [OF assms]
  by (auto simp: session_inv_def host_registry_ok_def ownership_registry_ok_def bt_sorted_def
      MAX_REGISTERED_AUTHORIZATION_LEASES_def)

section \<open>One use\<close>

definition host_lease_of :: "debug_target \<Rightarrow> host_risk_lease_id option" where
  "host_lease_of target = (case target of
     DtLaunch t \<Rightarrow> (case la_environment t of LeHost i \<Rightarrow> Some i | LeSandboxed _ \<Rightarrow> None)
   | DtAttach a \<Rightarrow> (case aa_scope a of AsHost _ i \<Rightarrow> Some i | AsOwnedSandbox _ _ \<Rightarrow> None)
   | _ \<Rightarrow> None)"

definition lease_dead :: "host_risk_lease_id \<Rightarrow> session_machine \<Rightarrow> bool" where
  "lease_dead i s \<longleftrightarrow> (\<forall>v. bt_lookup (sn_host_risk_leases s) i \<noteq> Some (Some v))"

fun registers_lease :: "host_risk_lease_id \<Rightarrow> session_input \<Rightarrow> bool" where
  "registers_lease i (InRegisterHostRisk v) = (hv_id v = i)"
| "registers_lease i _ = False"

lemma lease_dead_exec:
  assumes "session_inv w" "lease_dead i (sw_machine w)" "\<not> registers_lease i x" "sw_exec sha x w = (out, v)"
  shows "lease_dead i (sw_machine v)"
proof -
  have srt: "bt_sorted (sn_host_risk_leases (sw_machine w))"
    using assms(1) by (simp add: session_inv_def host_registry_ok_def)
  from effect_leases [OF session_inv_vis [OF assms(1)] assms(4)] show ?thesis
  proof
    assume "is_register x \<and> register_effect w v"
    then consider (host) hv where "x = InRegisterHostRisk hv" | (own) ov where "x = InRegisterOwnership ov"
      by (cases x) auto
    then show ?thesis
    proof cases
      case host
      then have m: "sw_machine v = snd (sn_register_host_risk_verifier hv (sw_machine w))"
        using assms(4) by (simp add: sw_exec_def sw_call_machine)
      then show ?thesis
        using assms(2,3) host bt.lookup_put [OF srt]
        by (simp add: register_host_eq lease_dead_def)
    next
      case own
      then have m: "sw_machine v = snd (sn_register_sandbox_ownership_verifier ov (sw_machine w))"
        using assms(4) by (simp add: sw_exec_def sw_call_machine)
      then show ?thesis using assms(2) by (simp add: register_ownership_eq lease_dead_def)
    qed
  next
    assume "leases_shrink (sw_machine w) (sw_machine v)"
    then show ?thesis
      using assms(2) srt by (auto simp: leases_shrink_def registry_shrinks_def lease_dead_def)
  qed
qed

lemma lease_dead_run:
  "session_inv w \<Longrightarrow> lease_dead i (sw_machine w) \<Longrightarrow> list_all (\<lambda>x. \<not> registers_lease i x) is \<Longrightarrow>
     lease_dead i (sw_machine (sw_run sha is w))"
proof (induction "is" arbitrary: w)
  case (Cons x xs)
  have e: "sw_exec sha x w = (fst (sw_exec sha x w), snd (sw_exec sha x w))" by simp
  show ?case
    using Cons.IH [OF session_inv_exec [OF Cons.prems(1) e]] lease_dead_exec [OF Cons.prems(1,2) _ e] Cons.prems(3)
    by simp
qed simp

lemma consume_spends:
  assumes "bt_sorted (sn_host_risk_leases s)" "sn_consume_host_risk_lease i op s = (r, t)"
  shows "lease_dead i t"
proof -
  obtain v m where sp: "bt_spend i (sn_host_risk_leases s) = (v, m)" by (cases "bt_spend i (sn_host_risk_leases s)")
  then have "t = s\<lparr>sn_host_risk_leases := m\<rparr>"
    using assms(2)
    by (auto simp: sn_consume_host_risk_lease_def sn_take_host_risk_def and_then_def lift_result_def
        split: sum.splits)
  then show ?thesis using bt.spend_not_live [OF assms(1) sp] by (simp add: lease_dead_def)
qed

lemma consume_dead:
  assumes "lease_dead i s"
  shows "sn_consume_host_risk_lease i op s = (Inl SeHostRiskLeaseUnavailable, s)"
proof -
  have "bt_spend i (sn_host_risk_leases s) = (None, sn_host_risk_leases s)"
    using assms by (intro bt.spend_dead) (simp add: lease_dead_def)
  then show ?thesis
    by (simp add: sn_consume_host_risk_lease_def sn_take_host_risk_def and_then_def lift_result_def)
qed

text \<open>An open with a host lease runs the registry exactly once.\<close>

lemma open_consumes:
  assumes "host_lease_of target = Some i"
  obtains op where "sn_open_authority sha target =
    and_then (sn_consume_host_risk_lease i op) (\<lambda>_. ok (None, HostRiskAccepted, None))"
proof (cases target)
  case (DtLaunch t)
  then have env: "la_environment t = LeHost i"
    using assms by (simp add: host_lease_of_def split: launch_environment.splits)
  then obtain intent where "intent_from_target t = Inr intent" by (simp add: intent_from_target_def)
  then have "sn_open_authority sha target = and_then (sn_consume_host_risk_lease i (HrLaunch intent))
      (\<lambda>_. ok (None, HostRiskAccepted, None))"
    using DtLaunch env by (simp add: sn_open_authority_def fun_eq_iff and_then_run)
  then show ?thesis by (rule that)
next
  case (DtAttach a)
  then obtain p where "aa_scope a = AsHost p i"
    using assms by (simp add: host_lease_of_def split: attach_scope.splits)
  then show ?thesis using DtAttach that by (simp add: sn_open_authority_def)
qed (use assms in \<open>simp_all add: host_lease_of_def\<close>)

lemma open_spends:
  assumes "sn_vis s" "session_kind (sn_state s) = KIdle" "bt_sorted (sn_host_risk_leases s)"
    and "host_lease_of target = Some i" "sn_accept_open sha target s = (r, t)"
  shows "lease_dead i t" "lease_dead i s \<Longrightarrow> r = Inl SeHostRiskLeaseUnavailable"
proof -
  obtain op where a: "sn_open_authority sha target =
    and_then (sn_consume_host_risk_lease i op) (\<lambda>_. ok (None, HostRiskAccepted, None))"
    by (rule open_consumes [OF assms(4)])
  obtain q u where c: "sn_consume_host_risk_lease i op s = (q, u)" by (cases "sn_consume_host_risk_lease i op s")
  have "lease_dead i u" by (rule consume_spends [OF assms(3) c])
  moreover have "lease_dead i (opened target x u)" for x
    by (cases x) (simp add: opened_def with_leases_def lease_dead_def bt_lookup_def)
  ultimately show "lease_dead i t"
    using assms(5) c
    by (cases q) (auto simp: sn_accept_open_eq [OF assms(1,2)] a and_then_def ok_def split: if_splits)
  show "lease_dead i s \<Longrightarrow> r = Inl SeHostRiskLeaseUnavailable"
    using assms(5) consume_dead [of i s op] by (simp add: sn_accept_open_eq [OF assms(1,2)] a and_then_def)
qed

lemma admitted_open_idle:
  "command_admitted s e \<Longrightarrow> ce_command e = CmdOpen target \<Longrightarrow> session_kind (sn_state s) = KIdle"
  using allowed_kinds(1) [of target "sn_state s"] by (auto simp: command_admitted_def validate_against_iff)

lemma lease_dead_frame [simp]:
  "lease_dead i (s\<lparr>sn_last_command_id := c\<rparr>) = lease_dead i s"
  "lease_dead i (s\<lparr>sn_pending_remote_command := p\<rparr>) = lease_dead i s"
  by (simp_all add: lease_dead_def)

lemma open_inner:
  assumes "session_inv w" "ce_command e = CmdOpen target" "host_lease_of target = Some i"
    and "sn_accept_command_inner sha e (sw_machine w) = (r, t)"
  shows "command_admitted (sw_machine w) e \<Longrightarrow> lease_dead i t"
    "lease_dead i (sw_machine w) \<Longrightarrow> \<exists>err. r = Inl err"
proof -
  let ?s = "(sw_machine w)\<lparr>sn_last_command_id := Some (ce_command_id e)\<rparr>"
  have d: "\<exists>q. sn_accept_open sha target ?s = (q, t) \<and> (\<forall>err. q = Inl err \<longrightarrow> r = Inl err)"
    if "command_admitted (sw_machine w) e"
    using assms(4) unfolding accept_inner_admitted [OF that] assms(2)
    by (auto simp: sn_dispatch_def and_then_def gets_def split: prod.splits sum.splits)
  have o: "sn_vis ?s" "bt_sorted (sn_host_risk_leases ?s)"
    using assms(1) session_inv_vis [OF assms(1)] by (simp_all add: session_inv_def host_registry_ok_def)
  have idle: "session_kind (sn_state ?s) = KIdle" if "command_admitted (sw_machine w) e"
    using admitted_open_idle [OF that assms(2)] by simp
  show "lease_dead i t" if a: "command_admitted (sw_machine w) e"
    using d [OF a] open_spends(1) [OF o(1) idle [OF a] o(2) assms(3)] by blast
  show "\<exists>err. r = Inl err" if l: "lease_dead i (sw_machine w)"
  proof (cases "command_admitted (sw_machine w) e")
    case True
    obtain q where q: "sn_accept_open sha target ?s = (q, t)" "\<forall>err. q = Inl err \<longrightarrow> r = Inl err"
      using d [OF True] by blast
    have "q = Inl SeHostRiskLeaseUnavailable"
      by (rule open_spends(2) [OF o(1) idle [OF True] o(2) assms(3) q(1)]) (use l in simp)
    then show ?thesis using q(2) by blast
  next
    case False
    then show ?thesis using assms(4) accept_inner_refused [OF False, of sha] by auto
  qed
qed

text \<open>The machine after a command call that was not stopped by a pending command.\<close>

lemma command_call_machine:
  assumes "sn_pending_remote_command (sw_machine w) = None" "x = InAccept e \<or> x = InBegin e"
  shows "\<exists>r t p. sn_accept_command_inner sha e (sw_machine w) = (r, t)
    \<and> sw_machine (snd (sw_exec sha x w)) \<in> {t, t\<lparr>sn_pending_remote_command := p\<rparr>}"
  using assms
  by (cases "sn_accept_command_inner sha e (sw_machine w)"; cases "fst (sn_accept_command_inner sha e (sw_machine w))")
    (auto simp: sw_exec_def sw_call_def sw_begin_def sn_accept_command_def sn_begin_remote_command_def
      sn_require_no_remote_command_pending_def and_then_def sm_defs)

text \<open>
  C7. A host-risk lease authorises at most one open.  Once an open that presents it has reached
  the registry, whether that open succeeded, failed on a mismatch or was rolled back later, every
  further open that presents the same lease is refused, unless a trusted caller registers that
  identifier again.
\<close>

theorem host_lease_single_use:
  assumes "reachable sw_initial (sw_step sha) w" "sn_pending_remote_command (sw_machine w) = None"
    and "command_admitted (sw_machine w) e" "ce_command e = CmdOpen target" "host_lease_of target = Some i"
    and "x = InAccept e \<or> x = InBegin e" "list_all (\<lambda>x. \<not> registers_lease i x) is"
    and "ce_command e' = CmdOpen target'" "host_lease_of target' = Some i" "y = InAccept e' \<or> y = InBegin e'"
  shows "fst (sw_exec sha y (sw_run sha is (snd (sw_exec sha x w)))) \<noteq> Done"
proof
  let ?v = "snd (sw_exec sha x w)"
  let ?u = "sw_run sha is ?v"
  have w: "session_inv w" by (rule world.reachable_inv [OF assms(1)])
  have v: "session_inv ?v" by (rule session_inv_exec [OF w, of sha x "fst (sw_exec sha x w)"]) simp
  obtain r t p where t: "sn_accept_command_inner sha e (sw_machine w) = (r, t)"
    "sw_machine ?v \<in> {t, t\<lparr>sn_pending_remote_command := p\<rparr>}"
    using command_call_machine [OF assms(2,6)] by blast
  have "lease_dead i t" by (rule open_inner(1) [OF w assms(4,5) t(1) assms(3)])
  then have "lease_dead i (sw_machine ?v)" using t(2) by auto
  then have dead: "lease_dead i (sw_machine ?u)" by (rule lease_dead_run [OF v _ assms(7)])
  have u: "session_inv ?u" by (rule world.run_inv [OF sw_run_steps v])
  assume "fst (sw_exec sha y ?u) = Done"
  then have "sw_exec sha y ?u = (Done, snd (sw_exec sha y ?u))" by (simp add: prod_eq_iff)
  then obtain st z where z: "sn_accept_command_inner sha e' (sw_machine ?u) = (Inr st, z)"
    using command_call_done [OF _ assms(10)] by blast
  show False using open_inner(2) [OF u assms(8,9) z dead] by simp
qed

section \<open>Issued launches open\<close>

definition open_envelope :: "command_id \<Rightarrow> debug_target \<Rightarrow> session_machine \<Rightarrow> command_envelope" where
  "open_envelope cid target s =
     \<lparr>ce_version = protocol_version_current, ce_command_id = cid, ce_session_id = Some (sn_session_id s),
      ce_expected_state = Some (session_state_token (sn_state s)), ce_command = CmdOpen target\<rparr>"

lemma register_then_spend:
  "bt_spend i (bt_put i (Some v) []) = (Some v, [(i, None)])"
  by (simp add: bt_spend_def bt_lookup_def)

lemma issued_launch_binding:
  assumes "host_risk_issue_launch sha sid epoch intent issuer = (Inr (target, lease, verifier), issuer')"
  shows "la_environment target = LeHost (hv_id verifier)" "intent_from_target target = Inr intent"
    "host_risk_lease_into_verifier lease = verifier" "hv_session_id verifier = sid"
    "hv_provisioning_epoch verifier = epoch" "hv_operation verifier = HrLaunch intent"
  using assms
  by (auto simp: host_risk_issue_launch_def and_then_Inr_iff host_risk_issue_def sm_defs
      intent_into_target_def intent_from_target_def host_risk_lease_into_verifier_def
      host_risk_verifier_new_def Let_def split: prod.splits)

text \<open>A new session that holds one registered verifier, and what an open of its launch does to it.\<close>

definition registered_machine :: "nat \<Rightarrow> string \<Rightarrow> host_risk_verifier \<Rightarrow> session_machine" where
  "registered_machine n helper v = (session_machine_new n (hv_session_id v) (hv_provisioning_epoch v) helper)
     \<lparr>sn_host_risk_leases := bt_put (hv_id v) (Some v) []\<rparr>"

lemma registered_vis: "sn_vis (registered_machine n helper v)"
  by (simp add: registered_machine_def session_machine_new_def sn_vis_def state_bound_def ownership_ok_def
      gates_for_def state_tok_def)

lemma register_one:
  "sn_register_host_risk_verifier v (session_machine_new n (hv_session_id v) (hv_provisioning_epoch v) helper)
   = (Inr (), registered_machine n helper v)"
  by (simp add: register_host_eq registered_machine_def session_machine_new_def bt_contains_def bt_lookup_def
      MAX_REGISTERED_AUTHORIZATION_LEASES_def)

lemma open_valid:
  "command_envelope_validate (open_envelope cid (DtLaunch target) (registered_machine n helper v))
   = launch_target_validate target"
  by (cases "launch_target_validate target")
    (simp_all add: command_envelope_validate_def open_envelope_def protocol_version_validate_def
      registered_machine_def session_machine_new_def)

lemma open_admitted:
  assumes "launch_target_validate target = Inr ()"
  shows "command_admitted (registered_machine n helper v)
    (open_envelope cid (DtLaunch target) (registered_machine n helper v))"
proof -
  let ?s = "registered_machine n helper v"
  let ?e = "open_envelope cid (DtLaunch target) ?s"
  have valid: "command_envelope_validate ?e = Inr ()" using assms by (simp add: open_valid)
  moreover have "ce_command ?e \<noteq> CmdProbeCapabilities" "ce_session_id ?e = Some (tk_session_id (session_state_token (sn_state ?s)))"
    "ce_expected_state ?e = Some (session_state_token (sn_state ?s))" "command_allowed (ce_command ?e) (sn_state ?s)"
    "sn_last_command_id ?s = None"
    by (simp_all add: open_envelope_def registered_machine_def session_machine_new_def)
  ultimately show ?thesis
    by (simp add: command_admitted_def validate_against_iff)
qed

lemma open_registered:
  assumes "la_environment target = LeHost (hv_id v)" "intent_from_target target = Inr intent" "hv_operation v = HrLaunch intent"
  shows "sn_accept_open sha (DtLaunch target) ((registered_machine n helper v)\<lparr>sn_last_command_id := Some cid\<rparr>) =
      (Inr (), opened (DtLaunch target) (None, HostRiskAccepted, None)
        ((registered_machine n helper v)\<lparr>sn_last_command_id := Some cid, sn_host_risk_leases := [(hv_id v, None)]\<rparr>))"
proof -
  let ?t = "(registered_machine n helper v)\<lparr>sn_last_command_id := Some cid\<rparr>"
  have "sn_open_authority sha (DtLaunch target) ?t
      = (Inr (None, HostRiskAccepted, None), ?t\<lparr>sn_host_risk_leases := [(hv_id v, None)]\<rparr>)"
    using assms register_then_spend [of "hv_id v" v]
    by (simp add: sn_open_authority_def and_then_run sn_consume_host_risk_lease_def sn_take_host_risk_def
        and_then_def sm_defs registered_machine_def session_machine_new_def)
  moreover have "gen_room ?t" by (simp add: gen_room_def state_tok_def registered_machine_def session_machine_new_def)
  moreover have "sn_vis ?t" using registered_vis by (simp only: sn_vis_command(1))
  ultimately show ?thesis
    by (subst sn_accept_open_eq) (simp_all add: registered_machine_def session_machine_new_def)
qed

text \<open>
  C8. Issuing, registering and opening compose.  A new session of the session and epoch a launch was
  approved for registers the lease the issuer returned and is asked to open exactly the target the
  issuer returned.  When that target passes the launch checks of the protocol, which the issuer does
  not make, the session opens it, is authorised by the acknowledged host risk, and keeps no lease of
  either kind; when it does not, the open is refused and the session still is the idle one that holds
  the unspent lease.
\<close>

theorem issued_launch_opens:
  assumes "host_risk_issue_launch sha sid epoch intent issuer = (Inr (target, lease, verifier), issuer')"
  shows "let w = sw_start n sid epoch helper;
      u = sw_run sha' [InRegisterHostRisk (host_risk_lease_into_verifier lease)] w;
      v = sw_run sha' [InAccept (open_envelope cid (DtLaunch target) (sw_machine w))] u
    in if launch_target_validate target = Inr ()
       then sn_state (sw_machine v) = StOpening \<lparr>tk_session_id = sid, tk_generation = 2\<rparr> (DtLaunch target)
         \<and> sn_execution_gate (sw_machine v) = HostRiskAccepted \<and> sn_target (sw_machine v) = Some (DtLaunch target)
         \<and> sn_host_risk_leases (sw_machine v) = [] \<and> sn_sandbox_ownership_leases (sw_machine v) = []
         \<and> sn_last_command_id (sw_machine v) = Some cid
       else v = u \<and> session_kind (sn_state (sw_machine u)) = KIdle
         \<and> bt_lookup (sn_host_risk_leases (sw_machine u)) (hv_id verifier) = Some (Some verifier)"
proof -
  note b = issued_launch_binding [OF assms]
  let ?s = "registered_machine n helper verifier"
  let ?w = "sw_start n sid epoch helper"
  let ?e = "open_envelope cid (DtLaunch target) ?s"
  have env: "open_envelope cid (DtLaunch target) (sw_machine ?w) = ?e"
    by (simp add: open_envelope_def sw_start_def registered_machine_def session_machine_new_def b)
  have u: "sw_run sha' [InRegisterHostRisk (host_risk_lease_into_verifier lease)] ?w
      = \<lparr>sw_machine = ?s, sw_tickets = [], sw_receipts = []\<rparr>"
    using register_one [of verifier n helper] by (simp add: sw_start_def sw_exec_def sw_call_def b)
  have c: "ce_command ?e = CmdOpen (DtLaunch target)" "ce_command_id ?e = cid" by (simp_all add: open_envelope_def)
  have free: "sn_accept_command sha' ?e ?s = sn_accept_command_inner sha' ?e ?s"
    by (simp add: sn_accept_command_def sn_require_no_remote_command_pending_def and_then_def sm_defs
        registered_machine_def session_machine_new_def)
  have v: "sw_run sha' [InAccept ?e] \<lparr>sw_machine = ?s, sw_tickets = [], sw_receipts = []\<rparr>
      = \<lparr>sw_machine = snd (sn_accept_command_inner sha' ?e ?s), sw_tickets = [], sw_receipts = []\<rparr>"
    by (auto simp: sw_exec_def sw_call_def free split: prod.splits sum.splits)
  show ?thesis
  proof (cases "launch_target_validate target")
    case (Inl err)
    then have "sn_accept_command_inner sha' ?e ?s = (Inl (SeProtocol err), ?s)"
      using open_valid [of cid target n helper verifier] by (simp add: sn_accept_command_inner_def and_then_def sm_defs)
    then show ?thesis
      unfolding Let_def env u v using Inl by simp (simp add: registered_machine_def session_machine_new_def bt_lookup_def)
  next
    case (Inr unit)
    then have ok: "launch_target_validate target = Inr ()" by simp
    show ?thesis
      unfolding Let_def env u v using open_registered [OF b(1,2,6), where sha = sha' and n = n and helper = helper and cid = cid] b(4) ok
      by (simp add: accept_inner_admitted [OF open_admitted [OF ok]] c sn_dispatch_def and_then_def gets_def)
        (simp add: opened_def with_leases_def with_authority_def next_token_def state_tok_def
          registered_machine_def session_machine_new_def)
  qed
qed

section \<open>Failures\<close>

text \<open>
  Failure evidence round trips: what the reducer binds for a failing sandbox it also accepts
  as its own, and retaining the outcome it names changes nothing.
\<close>

theorem bound_failure_validates:
  assumes "sn_bind_sandbox_failure stage kind retryable detail s = Inr f"
  shows "sn_validate_sandbox_failure f s = Inr ()
    \<and> sn_retain_sandbox_failure_target_creation f s = (Inr (), s)"
proof -
  have st: "validate_stage_kind f = Inr ()"
    using assms by (auto simp: sn_bind_sandbox_failure_def)
  consider (owned) x c where "sn_sandbox s = Some x" "sn_inherited_sandbox s = None" "sx_target_creation x = Some c"
      "f = \<lparr>sf_session_id = ea_session_id (sx_expected x), sf_provisioning_epoch = ea_provisioning_epoch (sx_expected x),
             sf_policy_digest = ea_policy_digest (sx_expected x), sf_provider = ea_provider (sx_expected x),
             sf_context = FcLaunch (ea_binary_id (sx_expected x)) (ea_helper_build (sx_expected x)) c,
             sf_stage = stage, sf_kind = kind, sf_retryable = retryable, sf_detail = detail\<rparr>"
    | (inherited) b where "sn_sandbox s = None" "sn_inherited_sandbox s = Some b"
      "f = \<lparr>sf_session_id = so_session_id b, sf_provisioning_epoch = so_provisioning_epoch b,
            sf_policy_digest = so_policy_digest b, sf_provider = so_provider b,
            sf_context = FcInheritedAttach (so_process b) (so_mode b),
            sf_stage = stage, sf_kind = kind, sf_retryable = retryable, sf_detail = detail\<rparr>"
    using assms
    by (auto simp: sn_bind_sandbox_failure_def sx_failure_target_creation_def Let_def split: option.splits)
  then show ?thesis
  proof cases
    case owned
    then have "sn_validate_sandbox_failure f s = Inr ()"
      using st by (simp add: sn_validate_sandbox_failure_def validate_against_expected_def)
    then show ?thesis
      using owned by (simp add: sn_retain_sandbox_failure_target_creation_def and_then_def sm_defs
          on_sandbox_def sx_retain_eq same_sandbox)
  next
    case inherited
    then have "sn_validate_sandbox_failure f s = Inr ()"
      using st by (simp add: sn_validate_sandbox_failure_def validate_against_inherited_def)
    then show ?thesis
      using inherited by (simp add: sn_retain_sandbox_failure_target_creation_def and_then_def sm_defs)
  qed
qed

section \<open>Live writes\<close>

lemma begin_live_done:
  assumes "sw_exec sha (InBeginLive e b) w = (Done, v)"
  obtains c vw ri where
    "sn_begin_live_memory_write sha (length (sw_receipts w)) e b (sw_machine w) = (Inr (c, vw, ri), sw_machine v)"
    "sw_tickets v = sw_tickets w @ [c]" "sw_receipts v = sw_receipts w @ [ri]"
  using assms by (auto simp: sw_exec_def sw_begin_live_def split: prod.splits sum.splits)

text \<open>
  What a started live write leaves behind: the refreshed stop, and a ticket and receipt that
  resolve to it.
\<close>

definition fresh_stop :: "session_machine \<Rightarrow> stop_token" where
  "fresh_stop s = \<lparr>sk_state = next_token s, sk_stop_id = sn_last_stop_id s + 1\<rparr>"

lemma begin_live_run:
  assumes vis: "sn_vis (sw_machine w)" and run: "sw_exec sha (InBeginLive e b) w = (Done, v)"
  obtains stop address expected replacement reason thread c ri where
    "ce_command e = CmdWriteMemory stop address expected replacement"
    "attached_debug_process (sn_target (sw_machine w)) = Some (lt_process b)"
    "is_ok (rva_for_address_span b address (of_nat (length expected)))"
    "sn_state (sw_machine w) = StStopped stop reason thread"
    "sw_tickets v = sw_tickets w @ [c]" "sw_receipts v = sw_receipts w @ [ri]"
    "ri_write ri = \<lparr>wa_allocation = length (sw_receipts w), wa_command_id = ce_command_id e, wa_stop = stop,
       wa_binding = b, wa_address = address, wa_expected = expected, wa_replacement = replacement\<rparr>"
    "sn_validate_local_resolution c ri (sw_machine v) = Inr (fresh_stop (sw_machine w))"
    "gen_room (sw_machine w)" "stop_room (sw_machine w)"
    "sw_machine v = (stopped_update ((sw_machine w)\<lparr>sn_last_command_id := Some (ce_command_id e)\<rparr>) reason thread)
       \<lparr>sn_pending_remote_command := Some (ce_command_id e)\<rparr>"
    "visible (restore_checkpoint c (sw_machine v)) = visible (sw_machine w)"
proof -
  obtain c vw ri where l: "sn_begin_live_memory_write sha (length (sw_receipts w)) e b (sw_machine w) = (Inr (c, vw, ri), sw_machine v)"
    and v: "sw_tickets v = sw_tickets w @ [c]" "sw_receipts v = sw_receipts w @ [ri]"
    by (rule begin_live_done [OF run])
  obtain stop address expected replacement c0 where cmd: "ce_command e = CmdWriteMemory stop address expected replacement"
    and c0: "sn_begin_remote_command sha e (sw_machine w) = (Inr c0, sw_machine v)"
    and c: "c = c0\<lparr>ck_local_live_memory_write := Some (ri_write ri)\<rparr>"
    and ri: "ri_write ri = \<lparr>wa_allocation = length (sw_receipts w), wa_command_id = ce_command_id e, wa_stop = stop,
       wa_binding = b, wa_address = address, wa_expected = expected, wa_replacement = replacement\<rparr>"
    and att: "attached_debug_process (sn_target (sw_machine w)) = Some (lt_process b)"
      "is_ok (rva_for_address_span b address (of_nat (length expected)))"
    by (rule begin_live_Inr [OF l]) auto
  obtain st u where u: "sn_accept_command_inner sha e (sw_machine w) = (Inr st, u)"
    "sw_machine v = u\<lparr>sn_pending_remote_command := Some (ce_command_id e)\<rparr>" "c0 = ticket_of (sw_machine w) u e"
    using c0 by (auto simp: begin_remote_Inr)
  let ?s = "(sw_machine w)\<lparr>sn_last_command_id := Some (ce_command_id e)\<rparr>"
  have "stopped_at stop (sn_state (sw_machine w))" using accepted_dispatch(2) [OF vis u(1)] cmd by simp
  then obtain reason thread where st: "sn_state (sw_machine w) = StStopped stop reason thread"
    by (cases "sn_state (sw_machine w)") (auto simp: stopped_at_def)
  have "sn_refresh_stopped_token ?s = (Inr (), u)"
    using accepted_dispatch(3) [OF vis u(1)] cmd by (simp add: sn_dispatch_def)
  then have su: "gen_room (sw_machine w)" "stop_room (sw_machine w)" "u = stopped_update ?s reason thread"
    using st accepted_dispatch(1) [OF vis u(1)] by (auto simp: sn_refresh_eq stop_room_def split: if_splits)
  have loc: "sn_validate_local_resolution c ri (sw_machine v) = Inr (fresh_stop (sw_machine w))"
    using ri st u su(3)
    by (simp add: sn_validate_local_resolution_def validate_checkpoint_Inr c ticket_of_def stopped_update_def fresh_stop_def)
  have "visible (restore_checkpoint c (sw_machine v)) = visible (sw_machine w)"
    by (simp add: visible_def c u(3) ticket_of_def)
  then show thesis using cmd att st v ri loc su u(2) by (intro that) simp_all
qed

text \<open>
  C33. A live memory write is bound and resolves.  The reducer begins one only for a debug attach to
  exactly the process of the binding, stopped at the token of the write, over bytes inside the bound
  image; its own ticket and receipt then commit it with a newer stop token, or, when the host had no
  effect, restore everything the caller could see.
\<close>

theorem live_write_resolution:
  assumes "reachable sw_initial (sw_step sha) w" "sw_exec sha (InBeginLive e b) w = (Done, v)"
  shows "\<exists>stop address expected replacement reason thread stop' u u'.
      ce_command e = CmdWriteMemory stop address expected replacement
    \<and> attached_debug_process (sn_target (sw_machine w)) = Some (lt_process b)
    \<and> is_ok (rva_for_address_span b address (of_nat (length expected)))
    \<and> sn_state (sw_machine w) = StStopped stop reason thread
    \<and> sw_exec sha (InLiveSuccess (length (sw_tickets w)) (length (sw_receipts w))) v = (Done, u)
    \<and> sn_state (sw_machine u) = StStopped stop' reason thread \<and> sk_stop_id stop < sk_stop_id stop'
    \<and> sn_pending_remote_command (sw_machine u) = None
    \<and> sw_exec sha (InLiveNoEffect (length (sw_tickets w)) (length (sw_receipts w))) v = (Done, u')
    \<and> visible (sw_machine u') = visible (sw_machine w)
    \<and> sn_pending_remote_command (sw_machine u') = None"
proof -
  have vis: "sn_vis (sw_machine w)" by (rule reachable_vis [OF assms(1)])
  obtain stop address expected replacement reason thread c ri where l:
    "ce_command e = CmdWriteMemory stop address expected replacement"
    "attached_debug_process (sn_target (sw_machine w)) = Some (lt_process b)"
    "is_ok (rva_for_address_span b address (of_nat (length expected)))"
    "sn_state (sw_machine w) = StStopped stop reason thread"
    and v: "sw_tickets v = sw_tickets w @ [c]" "sw_receipts v = sw_receipts w @ [ri]"
    and loc: "sn_validate_local_resolution c ri (sw_machine v) = Inr (fresh_stop (sw_machine w))"
    and room: "stop_room (sw_machine w)"
    and m: "sw_machine v = (stopped_update ((sw_machine w)\<lparr>sn_last_command_id := Some (ce_command_id e)\<rparr>) reason thread)
       \<lparr>sn_pending_remote_command := Some (ce_command_id e)\<rparr>"
    and undone: "visible (restore_checkpoint c (sw_machine v)) = visible (sw_machine w)"
    by (rule begin_live_run [OF vis assms(2)])
  have "sk_stop_id stop \<le> sn_last_stop_id (sw_machine w)"
    using vis l(4) by (simp add: sn_vis_def state_bound_def)
  then have lt: "sk_stop_id stop < sk_stop_id (fresh_stop (sw_machine w))"
    using stop_id_fresh [OF room] by (auto simp: fresh_stop_def intro: order.strict_trans1)
  have "sw_exec sha (InLiveSuccess (length (sw_tickets w)) (length (sw_receipts w))) v
      = (Done, v\<lparr>sw_machine := (sw_machine v)\<lparr>sn_pending_remote_command := None\<rparr>\<rparr>)"
    using loc by (simp add: sw_exec_def sw_with_ticket_def sw_with_receipt_def sw_call_def v live_success_cases)
  moreover have "sw_exec sha (InLiveNoEffect (length (sw_tickets w)) (length (sw_receipts w))) v
      = (Done, v\<lparr>sw_machine := restore_checkpoint c (sw_machine v)\<rparr>)"
    using loc by (simp add: sw_exec_def sw_with_ticket_def sw_with_receipt_def sw_call_def v live_no_effect_cases)
  moreover have "sn_state (sw_machine v) = StStopped (fresh_stop (sw_machine w)) reason thread"
    by (simp add: m stopped_update_def fresh_stop_def)
  ultimately show ?thesis using l lt undone by (intro exI conjI) (assumption | simp)+
qed

end
