(* ===== verification/Session_Tokens.thy ===== *)
theory Session_Tokens
  imports Session_Closing
begin

text \<open>
  Stop and run tokens along a whole run of the session.  Every call is given the tokens it issues:
  the tokens of an accepted batch of unsolicited observations, and otherwise the token that the
  state holds after the call and did not hold before.  A rejection, and the resolution of a live
  write without effect, give back the token the client already held and issue none.
\<close>

section \<open>Issued tokens\<close>

definition stop_of :: "session_state \<Rightarrow> stop_token option" where
  "stop_of st = (case st of StStopped k _ _ \<Rightarrow> Some k | _ \<Rightarrow> None)"

definition run_of :: "session_state \<Rightarrow> run_token option" where
  "run_of st = (case st of StRunning k \<Rightarrow> Some k | _ \<Rightarrow> None)"

definition issued :: "(session_state \<Rightarrow> 'k option) \<Rightarrow> (string \<Rightarrow> string) \<Rightarrow> session_input \<Rightarrow> session_world \<Rightarrow> 'k list" where
  "issued token_of sha i w =
     (let (out, v) = sw_exec sha i w in
      case i of
        InReject _ _ \<Rightarrow> []
      | InLiveNoEffect _ _ \<Rightarrow> []
      | InUnsolicited obs \<Rightarrow> if out = Done then List.map_filter token_of obs else []
      | _ \<Rightarrow> (case token_of (sn_state (sw_machine v)) of
           None \<Rightarrow> []
         | Some k \<Rightarrow> if token_of (sn_state (sw_machine w)) = Some k then [] else [k]))"

primrec issued_along ::
    "(session_state \<Rightarrow> 'k option) \<Rightarrow> (string \<Rightarrow> string) \<Rightarrow> session_input list \<Rightarrow> session_world \<Rightarrow> 'k list" where
  "issued_along token_of sha [] w = []"
| "issued_along token_of sha (i # is) w =
     issued token_of sha i w @ issued_along token_of sha is (snd (sw_exec sha i w))"

section \<open>Identifiers above a watermark\<close>

text \<open>
  A source of identifiers: every call hands out increasing identifiers between its watermark
  before and its watermark after.  Then all identifiers of a run increase.
\<close>

locale identifier_source =
  fixes next_state :: "'i \<Rightarrow> 's \<Rightarrow> 's" and ids :: "'i \<Rightarrow> 's \<Rightarrow> 'a::linorder list"
    and inv :: "'s \<Rightarrow> bool" and mark :: "'s \<Rightarrow> 'a"
  assumes inv_next: "inv s \<Longrightarrow> inv (next_state i s)"
    and mark_next: "inv s \<Longrightarrow> mark s \<le> mark (next_state i s)"
    and ids_sorted: "inv s \<Longrightarrow> sorted_wrt (<) (ids i s)"
    and ids_between: "inv s \<Longrightarrow> x \<in> set (ids i s) \<Longrightarrow> mark s < x \<and> x \<le> mark (next_state i s)"
begin

lemma run_ids:
  assumes "\<And>s. run [] s = []" "\<And>i is s. run (i # is) s = ids i s @ run is (next_state i s)" "inv s"
  shows "sorted_wrt (<) (run is s) \<and> (\<forall>x \<in> set (run is s). mark s < x)"
  using assms(3)
proof (induction "is" arbitrary: s)
  case (Cons i "is")
  have rest: "sorted_wrt (<) (run is (next_state i s))" "\<forall>x \<in> set (run is (next_state i s)). mark (next_state i s) < x"
    using Cons.IH [OF inv_next [OF Cons.prems]] by blast+
  have "\<forall>x \<in> set (ids i s). \<forall>y \<in> set (run is (next_state i s)). x < y"
    using ids_between [OF Cons.prems] rest(2) by (blast intro: order.strict_trans1)
  moreover have "\<forall>x \<in> set (run is (next_state i s)). mark s < x"
    using mark_next [OF Cons.prems, of i] rest(2) by (blast intro: order.strict_trans1)
  ultimately show ?case
    using ids_sorted [OF Cons.prems] ids_between [OF Cons.prems] rest(1)
    by (auto simp: assms(2) sorted_wrt_append)
qed (simp add: assms(1))

end

section \<open>Operations that reach no state of a kind\<close>

definition keeps :: "session_state_kind \<Rightarrow> session_machine \<Rightarrow> session_machine \<Rightarrow> bool" where
  "keeps K s t \<longleftrightarrow> sn_state t = sn_state s \<or> session_kind (sn_state t) \<noteq> K"

interpretation kp: frame "keeps K" for K
  by unfold_locales (auto simp: keeps_def)

lemmas kp_composed = kp.moves_and_then kp.moves_pure moves_prod3 moves_if

lemma keeps_transition: "session_kind n \<noteq> K \<Longrightarrow> moves (keeps K) (sn_transition_to n)"
  unfolding sn_transition_to_def by (intro kp_composed kp.moves_modify) (simp add: keeps_def)

lemma keeps_writes:
  "moves (keeps K) (modify (\<lambda>s. s\<lparr>sn_sandbox := x\<rparr>))" "moves (keeps K) (modify (\<lambda>s. s\<lparr>sn_execution_gate := g\<rparr>))"
  "moves (keeps K) (modify (\<lambda>s. s\<lparr>sn_inherited_sandbox := i\<rparr>))" "moves (keeps K) (modify (\<lambda>s. s\<lparr>sn_target := t\<rparr>))"
  "moves (keeps K) (modify (\<lambda>s. s\<lparr>sn_host_risk_leases := h\<rparr>))"
  "moves (keeps K) (modify (\<lambda>s. s\<lparr>sn_sandbox_ownership_leases := l\<rparr>))"
  "moves (keeps K) (modify (\<lambda>s. s\<lparr>sn_last_stop_id := a\<rparr>))" "moves (keeps K) (modify (\<lambda>s. s\<lparr>sn_last_run_id := a\<rparr>))"
  by (intro kp.moves_modify; simp add: keeps_def)+

lemma keeps_sandbox: "moves (keeps K) (on_sandbox op)" "moves (keeps K) (on_pending_sandbox op)"
proof -
  show "moves (keeps K) (on_sandbox op)" by (rule moves_on_sandbox) (simp_all add: keeps_def)
  then show "moves (keeps K) (on_pending_sandbox op)"
    unfolding on_pending_sandbox_def by (intro kp_composed)
qed

lemma keeps_guards:
  "moves (keeps K) sn_next_state_token" "moves (keeps K) (sn_require_state a ks)"
  "moves (keeps K) (sn_require_open_target a p)" "moves (keeps K) sn_ensure_execution_allowed"
  "moves (keeps K) (sn_allocate_stop_token k)" "moves (keeps K) (sn_allocate_run_token k)"
  unfolding sn_next_state_token_def sn_require_state_def sn_require_open_target_def sn_ensure_execution_allowed_def
    sn_allocate_stop_token_def sn_allocate_run_token_def
  by (intro kp_composed keeps_writes)+

lemma keeps_authority: "moves (keeps K) (sn_open_authority sha target)"
  unfolding moves_def
proof
  fix s
  obtain h l where "snd (sn_open_authority sha target s) = with_leases h l s"
    using sn_open_authority_state by blast
  then show "keeps K s (snd (sn_open_authority sha target s))" by (simp add: keeps_def with_leases_def)
qed

lemmas keeps_parts = kp_composed keeps_writes keeps_sandbox keeps_guards keeps_authority keeps_transition

lemma keeps_commands:
  "K \<noteq> KOpening \<Longrightarrow> moves (keeps K) (sn_accept_open sha target)" "K \<noteq> KRunning \<Longrightarrow> moves (keeps K) sn_accept_run"
  "K \<noteq> KPausing \<Longrightarrow> moves (keeps K) sn_accept_pause" "K \<noteq> KDetached \<Longrightarrow> moves (keeps K) sn_accept_detach"
  "K \<noteq> KClosing \<Longrightarrow> moves (keeps K) sn_accept_shutdown" "K \<noteq> KStopped \<Longrightarrow> moves (keeps K) sn_refresh_stopped_token"
  unfolding sn_accept_open_def sn_accept_run_def sn_accept_pause_def sn_accept_detach_def sn_accept_shutdown_def
    sn_refresh_stopped_token_def [abs_def]
  by ((intro keeps_parts moves_state_case)+; simp)+

lemma keeps_observations:
  assumes "K \<in> {KStopped, KRunning}"
  shows "moves (keeps K) (sn_target_created_suspended p)" "moves (keeps K) (sn_accept_sandbox_attestation a)"
    "moves (keeps K) sn_complete_open_offline" "moves (keeps K) sn_complete_open_dump"
    "moves (keeps K) (sn_complete_open_observing pid)" "moves (keeps K) (sn_mark_exited code)"
    "moves (keeps K) (sn_mark_failed m)" "K \<noteq> KStopped \<Longrightarrow> moves (keeps K) (sn_mark_stopped reason thread)"
  unfolding sn_target_created_suspended_def sn_accept_sandbox_attestation_def sn_complete_open_offline_def
    sn_complete_open_dump_def sn_complete_open_observing_def sn_mark_exited_def sn_mark_failed_def sn_mark_stopped_def
  using assms by ((intro keeps_parts)+; auto)+

lemma keeps_closing:
  assumes "K \<noteq> KClosed"
  shows "moves (keeps K) (sn_complete_close receipt)"
proof -
  have "moves (keeps K) (sn_close_ownership receipt)"
    by (rule kp.moves_via [where f = "\<lambda>r. on_sandbox (sx_close r)"], rule close_ownership_cases,
        assumption, rule keeps_sandbox)
  then show ?thesis
    unfolding sn_complete_close_def using assms by (intro keeps_parts) simp_all
qed

lemma keeps_creation:
  "moves (keeps K) sn_record_sandbox_target_not_created" "moves (keeps K) (sn_retain_sandbox_failure_target_creation f)"
  subgoal by (rule kp.moves_via [where f = "\<lambda>_ :: unit. on_sandbox sx_record_target_not_created"])
      (rule record_not_created_cases, assumption, rule keeps_sandbox)
  subgoal by (rule kp.moves_via [where f = "\<lambda>c. on_sandbox (sx_retain_failure_target_creation c)"])
      (rule retain_failure_cases, assumption, rule keeps_sandbox)
  done

section \<open>What one call issues\<close>

text \<open>A move that keeps the token of its kind, or replaces it by one just above the watermark.\<close>

definition new_stop :: "session_machine \<Rightarrow> session_machine \<Rightarrow> bool" where
  "new_stop s t \<longleftrightarrow> keeps KStopped s t \<or> (\<exists>k. stop_of (sn_state t) = Some k
     \<and> sn_last_stop_id s < sk_stop_id k \<and> sk_stop_id k = sn_last_stop_id t)"

definition new_run :: "session_machine \<Rightarrow> session_machine \<Rightarrow> bool" where
  "new_run s t \<longleftrightarrow> keeps KRunning s t \<or> (\<exists>k. run_of (sn_state t) = Some k
     \<and> sn_last_run_id s < rk_run_id k \<and> rk_run_id k = sn_last_run_id t)"

lemma new_stop_updates:
  "new_stop s s" "stop_room s \<Longrightarrow> new_stop s (stopped_update s reason thread)"
  using stop_id_fresh [of s]
  by (auto simp: new_stop_def keeps_def stopped_update_def stop_of_def)

lemma new_run_updates: "new_run s s" "run_room s \<Longrightarrow> new_run s (running_update (with_life l s))"
  using run_id_fresh [of s]
  by (auto simp: new_run_def keeps_def running_update_def run_of_def)

lemma dispatch_new:
  assumes "sn_vis s" "command_allowed c (sn_state s)" "sn_dispatch sha c s = (r, t)"
  shows "new_stop s t" "new_run s t"
proof -
  have plain: "new_stop s t" if "sn_dispatch sha c = m" "moves (keeps KStopped) m" for m
    using movesD [OF that(2)] assms(3) that(1) by (auto simp: new_stop_def)
  have plain': "new_run s t" if "sn_dispatch sha c = m" "moves (keeps KRunning) m" for m
    using movesD [OF that(2)] assms(3) that(1) by (auto simp: new_run_def)
  have refresh: "new_stop s t" if "sn_refresh_stopped_token s = (r, t)"
    using that new_stop_updates by (auto simp: sn_refresh_eq [OF assms(1)] split: session_state.splits if_splits)
  have run: "new_run s t" if "sn_accept_run s = (r, t)" "session_kind (sn_state s) = KStopped"
    using that new_run_updates by (auto simp: sn_accept_run_eq [OF assms(1)] split: if_splits)
  show "new_stop s t"
    using assms(3) refresh plain [OF _ keeps_commands(1)] plain [OF _ keeps_commands(2)] plain [OF _ keeps_commands(3)]
      plain [OF _ keeps_commands(4)] plain [OF _ keeps_commands(5)] plain [OF _ kp.moves_pure(1)] plain [OF _ kp.moves_pure(2)]
    by (cases c) (simp_all add: sn_dispatch_def)
  show "new_run s t"
    using assms(2,3) run plain' [OF _ keeps_commands(1)] plain' [OF _ keeps_commands(6)] plain' [OF _ keeps_commands(3)]
      plain' [OF _ keeps_commands(4)] plain' [OF _ keeps_commands(5)] plain' [OF _ kp.moves_pure(1)] plain' [OF _ kp.moves_pure(2)] stopped_at_kind
    by (cases c) (simp_all add: sn_dispatch_def)
qed

lemma accept_new:
  assumes "sn_vis s" "sn_accept_command_inner sha e s = (r, t)"
  shows "new_stop s t" "new_run s t"
proof -
  let ?s = "s\<lparr>sn_last_command_id := Some (ce_command_id e)\<rparr>"
  have here: "new_stop ?s t = new_stop s t" "new_run ?s t = new_run s t"
    by (simp_all add: new_stop_def new_run_def keeps_def)
  have "new_stop s t \<and> new_run s t"
  proof (cases "command_admitted s e")
    case True
    obtain q u where d: "sn_dispatch sha (ce_command e) ?s = (q, u)" by fastforce
    then have "t = u"
      using assms(2) unfolding accept_inner_admitted [OF True] by (cases q) (auto simp: and_then_def sm_defs)
    moreover have "sn_vis ?s" using assms(1) by (simp only: sn_vis_command(1))
    moreover have "command_allowed (ce_command e) (sn_state ?s)"
      using True by (auto simp: command_admitted_def validate_against_iff)
    ultimately show ?thesis using dispatch_new [OF _ _ d] here by simp
  next
    case False
    then show ?thesis
      using accept_inner_refused [OF False, of sha] assms(2)
      by (auto simp: new_stop_def new_run_def keeps_def)
  qed
  then show "new_stop s t" "new_run s t" by simp_all
qed

text \<open>One accepted observation of a batch.\<close>

lemma observation_new:
  assumes "sn_vis s" "sn_apply_observation ob s = (Inr u, t)"
  shows "sn_vis t" "run_of ob = None" "sn_last_stop_id s \<le> sn_last_stop_id t"
    "stop_of ob = Some k \<Longrightarrow> sn_last_stop_id s < sk_stop_id k \<and> sk_stop_id k = sn_last_stop_id t"
proof -
  show "sn_vis t"
    using apply_observation_mark [OF assms(2)] sn_vis_mark_observed [OF assms(1)] assms(1) by blast
  have "moves sn_frame (mark_observed i)" for i
    by (auto simp: mark_observed_def fr.observation_frame split: sum.split prod.split)
  from movesD [OF this] show "sn_last_stop_id s \<le> sn_last_stop_id t"
    using apply_observation_mark [OF assms(2)] by (auto simp: sn_frame_def)
  show "run_of ob = None"
    using assms(2) by (cases ob) (simp_all add: sn_apply_observation_def run_of_def)
  show "sn_last_stop_id s < sk_stop_id k \<and> sk_stop_id k = sn_last_stop_id t" if stop: "stop_of ob = Some k"
  proof -
    obtain reason thread where ob: "ob = StStopped k reason thread"
      using stop by (auto simp: stop_of_def split: session_state.splits)
    obtain applied where m: "sn_mark_stopped reason thread s = (Inr applied, t)" "applied = ob"
      using assms(2) by (auto simp: sn_apply_observation_def ob Let_def split: prod.splits)
    then have "stop_room s" "t = stopped_update s reason thread" "applied = sn_state t"
      by (auto simp: sn_mark_stopped_eq [OF assms(1)] split: if_splits)
    then show ?thesis
      using m(2) stop_id_fresh [of s] by (auto simp: ob stopped_update_def)
  qed
qed

lemma batch_new:
  assumes "sn_vis s" "sn_apply_each obs s = (Inr u, t)"
  shows "sorted_wrt (<) (map sk_stop_id (List.map_filter stop_of obs))
    \<and> (\<forall>k \<in> set (List.map_filter stop_of obs). sn_last_stop_id s < sk_stop_id k \<and> sk_stop_id k \<le> sn_last_stop_id t)
    \<and> sn_last_stop_id s \<le> sn_last_stop_id t \<and> List.map_filter run_of obs = []"
  using assms
proof (induction obs arbitrary: s)
  case Nil
  then show ?case by (simp add: ok_def map_filter_simps)
next
  case (Cons ob obs)
  obtain a v where v: "sn_apply_observation ob s = (Inr a, v)" "sn_apply_each obs v = (Inr u, t)"
    using Cons.prems(2) by (auto simp: and_then_Inr_iff)
  note one = observation_new [OF Cons.prems(1) v(1)]
  note rest = Cons.IH [OF one(1) v(2)]
  show ?case
  proof (cases "stop_of ob")
    case None
    then show ?thesis
      using rest one(2,3) by (auto simp: map_filter_simps intro: order.strict_trans1)
  next
    case (Some k)
    then show ?thesis
      using rest one(2,3) one(4) [OF Some] by (auto simp: map_filter_simps intro: order.strict_trans1)
  qed
qed

text \<open>Every call that neither reads a batch nor gives a token back.\<close>

definition plain_input :: "session_input \<Rightarrow> bool" where
  "plain_input i \<longleftrightarrow> (case i of InUnsolicited _ \<Rightarrow> False | InReject _ _ \<Rightarrow> False | InLiveNoEffect _ _ \<Rightarrow> False | _ \<Rightarrow> True)"

lemma new_pending [simp]:
  "new_stop s (t\<lparr>sn_pending_remote_command := p\<rparr>) = new_stop s t"
  "new_run s (t\<lparr>sn_pending_remote_command := p\<rparr>) = new_run s t"
  by (simp_all add: new_stop_def new_run_def keeps_def)

definition news :: "session_machine \<Rightarrow> session_machine \<Rightarrow> bool" where
  "news s t \<longleftrightarrow> new_stop s t \<and> new_run s t"

lemma news_same: "sn_state t = sn_state s \<Longrightarrow> news s t"
  by (simp add: news_def new_stop_def new_run_def keeps_def)

lemma news_quiet:
  "moves (keeps KStopped) m \<Longrightarrow> moves (keeps KRunning) m \<Longrightarrow> news s (snd (m s))"
  by (simp add: news_def new_stop_def new_run_def moves_def)

lemma news_stopped:
  assumes "sn_vis s"
  shows "news s (snd (sn_mark_stopped reason thread s))"
proof -
  have "new_stop s (snd (sn_mark_stopped reason thread s))"
    using new_stop_updates by (simp add: sn_mark_stopped_eq [OF assms])
  moreover have "new_run s (snd (sn_mark_stopped reason thread s))"
    using keeps_observations(8) [of KRunning reason thread] by (simp add: new_run_def moves_def)
  ultimately show ?thesis by (simp add: news_def)
qed

lemma news_begin:
  assumes "sn_vis s" "sn_begin_remote_command sha e s = (r, t)"
  shows "news s t"
proof (cases r)
  case (Inl err)
  then show ?thesis
    using begin_remote_Inl [of sha e s err t] accept_new [OF assms(1)] assms(2) news_same by (auto simp: news_def)
next
  case (Inr c)
  then show ?thesis
    using assms(2) accept_new [OF assms(1)] by (auto simp: begin_remote_Inr news_def)
qed

lemma news_call: "sw_machine (snd (sw_call m w)) = snd (m (sw_machine w))"
  by (auto simp: sw_call_def split: prod.splits sum.splits)

lemma news_commands:
  assumes "sn_vis (sw_machine w)"
  shows "news (sw_machine w) (snd (sn_accept_command sha e (sw_machine w)))"
    "news (sw_machine w) (sw_machine (snd (sw_begin sha e w)))"
    "news (sw_machine w) (sw_machine (snd (sw_begin_live sha e b w)))"
proof -
  show "news (sw_machine w) (snd (sn_accept_command sha e (sw_machine w)))"
  proof (cases "sn_accept_command sha e (sw_machine w)")
    case (Pair r t)
    then show ?thesis
      using accept_command_cases [OF Pair] accept_new [OF assms] news_same by (auto simp: news_def)
  qed
  show "news (sw_machine w) (sw_machine (snd (sw_begin sha e w)))"
    using news_begin [OF assms] by (auto simp: sw_begin_def split: prod.splits sum.splits)
  show "news (sw_machine w) (sw_machine (snd (sw_begin_live sha e b w)))"
  proof (cases "sn_begin_live_memory_write sha (length (sw_receipts w)) e b (sw_machine w)")
    case (Pair r t)
    then show ?thesis
      using begin_live_Inl news_begin [OF assms] news_same begin_live_Inr
      by (cases r) (auto simp: sw_begin_live_def, metis+)
  qed
qed

lemma news_resolved:
  "news s (snd (sn_commit_remote_command c cid s))" "news s (snd (sn_resolve_live_memory_write_success c r s))"
  "news s (snd (sn_register_host_risk_verifier v s))" "news s (snd (sn_register_sandbox_ownership_verifier u s))"
  by (auto simp: commit_cases live_success_cases register_host_eq register_ownership_eq
      intro!: news_same split: sum.splits)

lemma plain_new:
  assumes "sn_vis (sw_machine w)" "plain_input i"
  shows "news (sw_machine w) (sw_machine (snd (sw_exec sha i w)))"
  using assms(2) news_commands [OF assms(1)] news_stopped [OF assms(1)]
  by (cases i)
    (simp_all add: plain_input_def sw_exec_def news_call sw_with_ticket_def sw_with_receipt_def news_resolved
      news_same news_quiet keeps_observations keeps_closing keeps_creation)

section \<open>Tokens are never reused\<close>

lemma exec_inv: "session_inv w \<Longrightarrow> session_inv (snd (sw_exec sha i w))"
  by (rule session_inv_exec [of w sha i "fst (sw_exec sha i w)"]) simp_all

lemma exec_frame: "session_inv w \<Longrightarrow> sn_frame (sw_machine w) (sw_machine (snd (sw_exec sha i w)))"
  by (rule step_frame [of w sha], assumption) (rule sw_step.call [of sha i w "fst (sw_exec sha i w)"], simp)

lemma issued_plain:
  assumes "plain_input i"
  shows "issued token_of sha i w = (case token_of (sn_state (sw_machine (snd (sw_exec sha i w)))) of None \<Rightarrow> []
     | Some k \<Rightarrow> if token_of (sn_state (sw_machine w)) = Some k then [] else [k])"
  using assms by (cases i) (simp_all add: issued_def plain_input_def split: prod.split)

lemma issued_other:
  assumes "\<not> plain_input i" "issued token_of sha i w \<noteq> []"
  obtains obs u t where "i = InUnsolicited obs" "issued token_of sha i w = List.map_filter token_of obs"
    "sn_apply_each obs (sw_machine w) = (Inr u, t)" "sw_machine (snd (sw_exec sha i w)) = t"
  using assms
  by (cases i) (auto simp: issued_def plain_input_def sw_exec_def sn_apply_unsolicited_observations_def
      split: prod.splits sum.splits if_splits)

lemma issued_stops:
  assumes "session_inv w"
  shows "sorted_wrt (<) (map sk_stop_id (issued stop_of sha i w))
    \<and> (\<forall>k \<in> set (issued stop_of sha i w). sn_last_stop_id (sw_machine w) < sk_stop_id k
         \<and> sk_stop_id k \<le> sn_last_stop_id (sw_machine (snd (sw_exec sha i w))))"
proof (cases "plain_input i")
  case True
  have "new_stop (sw_machine w) (sw_machine (snd (sw_exec sha i w)))"
    using plain_new [OF session_inv_vis [OF assms] True] by (simp add: news_def)
  then show ?thesis
    by (auto simp: issued_plain [OF True] new_stop_def keeps_def stop_of_def split: option.splits session_state.splits)
next
  case False
  show ?thesis
  proof (cases "issued stop_of sha i w = []")
    case False
    then show ?thesis
      using batch_new [OF session_inv_vis [OF assms]] issued_other [OF \<open>\<not> plain_input i\<close> False] by metis
  qed simp
qed

lemma issued_runs:
  assumes "session_inv w"
  shows "sorted_wrt (<) (map rk_run_id (issued run_of sha i w))
    \<and> (\<forall>k \<in> set (issued run_of sha i w). sn_last_run_id (sw_machine w) < rk_run_id k
         \<and> rk_run_id k \<le> sn_last_run_id (sw_machine (snd (sw_exec sha i w))))"
proof (cases "plain_input i")
  case True
  have "new_run (sw_machine w) (sw_machine (snd (sw_exec sha i w)))"
    using plain_new [OF session_inv_vis [OF assms] True] by (simp add: news_def)
  then show ?thesis
    by (auto simp: issued_plain [OF True] new_run_def keeps_def run_of_def split: option.splits session_state.splits)
next
  case False
  have "issued run_of sha i w = []"
    using batch_new [OF session_inv_vis [OF assms]] issued_other [OF False] by metis
  then show ?thesis by simp
qed

interpretation stop_source: identifier_source "\<lambda>i w. snd (sw_exec sha i w)"
  "\<lambda>i w. map sk_stop_id (issued stop_of sha i w)" session_inv "\<lambda>w. sn_last_stop_id (sw_machine w)" for sha
  using issued_stops exec_inv exec_frame by unfold_locales (auto simp: sn_frame_def)

interpretation run_source: identifier_source "\<lambda>i w. snd (sw_exec sha i w)"
  "\<lambda>i w. map rk_run_id (issued run_of sha i w)" session_inv "\<lambda>w. sn_last_run_id (sw_machine w)" for sha
  using issued_runs exec_inv exec_frame by unfold_locales (auto simp: sn_frame_def)

text \<open>
  C32. Stop and run tokens are never reused.  Along any run of a new session, over every operation of
  the reducer, refused calls, rejections that give an earlier token back and batches of unsolicited
  observations included, the identifiers of the stop tokens that the calls issue strictly increase, and
  so do those of the run tokens.
\<close>

theorem tokens_never_reused:
  assumes "sw_initial w"
  shows "sorted_wrt (<) (map sk_stop_id (issued_along stop_of sha is w))
    \<and> sorted_wrt (<) (map rk_run_id (issued_along run_of sha is w))"
  using stop_source.run_ids [of "\<lambda>is w. map sk_stop_id (issued_along stop_of sha is w)" sha w "is"]
    run_source.run_ids [of "\<lambda>is w. map rk_run_id (issued_along run_of sha is w)" sha w "is"]
    session_inv_start [OF assms]
  by simp

end
