(* ===== verification/Session_Examples.thy ===== *)
theory Session_Examples
  imports Session_Leases Session_Tokens Protocol_Examples
begin

text \<open>
  Concrete sessions on which the hypotheses of the session theorems hold: a debug attach that runs,
  stops and writes memory, a sandboxed launch that is closed before its target exists, and an
  offline image that opens and closes.
\<close>

section \<open>A debug attach on the host\<close>

definition sample_lease :: host_risk_lease_id where
  "sample_lease = replicate 64 (CHR ''1'')"

definition sample_attach :: debug_target where
  "sample_attach = DtAttach \<lparr>aa_scope = AsHost sample_process sample_lease, aa_mode = AmDebug\<rparr>"

definition sample_verifier :: host_risk_verifier where
  "sample_verifier = \<lparr>hv_id = sample_lease, hv_session_id = 7, hv_provisioning_epoch = sample_epoch,
     hv_operation = HrAttach sample_process AmDebug\<rparr>"

definition sample_command :: "command_id \<Rightarrow> u64 \<Rightarrow> debug_command \<Rightarrow> command_envelope" where
  "sample_command cid g c = \<lparr>ce_version = protocol_version_current, ce_command_id = cid,
     ce_session_id = Some 7, ce_expected_state = Some (sample_token g), ce_command = c\<rparr>"

definition sample_machine :: session_machine where
  "sample_machine = session_machine_new 0 7 sample_epoch ''helper-1''"

definition attached :: "command_id \<Rightarrow> stop_id \<Rightarrow> run_id \<Rightarrow> session_state \<Rightarrow> session_machine" where
  "attached cid stops runs st = sample_machine\<lparr>sn_state := st, sn_target := Some sample_attach,
     sn_last_command_id := Some cid, sn_last_stop_id := stops, sn_last_run_id := runs,
     sn_execution_gate := HostRiskAccepted\<rparr>"

lemmas example_defs = sw_exec_def sw_call_def sw_begin_def sw_begin_live_def sw_with_ticket_def sw_with_receipt_def
  sample_command_def sample_machine_def attached_def session_machine_new_def sample_token_def

lemma attach_register:
  "sn_register_host_risk_verifier sample_verifier sample_machine
   = (Inr (), sample_machine\<lparr>sn_host_risk_leases := [(sample_lease, Some sample_verifier)]\<rparr>)"
  by (simp add: register_host_eq sample_machine_def session_machine_new_def sample_verifier_def
     bt_contains_def bt_lookup_def MAX_REGISTERED_AUTHORIZATION_LEASES_def)

lemma accept_now:
  assumes "command_admitted s e" "sn_pending_remote_command s = None"
  shows "sn_accept_command sha e s = and_then (sn_dispatch sha (ce_command e)) (\<lambda>_. gets sn_state)
      (s\<lparr>sn_last_command_id := Some (ce_command_id e)\<rparr>)"
  using accept_inner_admitted [OF assms(1)] assms(2)
  by (simp add: sn_accept_command_def sn_require_no_remote_command_pending_def and_then_run)

lemmas dispatch_defs = sn_dispatch_def and_then_def sm_defs sn_next_state_token_def sn_transition_to_def
  sn_allocate_stop_token_def sn_allocate_run_token_def sn_ensure_execution_allowed_def
  state_generation_checked_next_def validate_successor_def checked_add_def nonzero_id_new_def

lemma attach_open:
  "sn_accept_command sample_sha (sample_command 1 1 (CmdOpen sample_attach))
     (sample_machine\<lparr>sn_host_risk_leases := [(sample_lease, Some sample_verifier)]\<rparr>)
   = (Inr (StOpening (sample_token 2) sample_attach), attached 1 0 0 (StOpening (sample_token 2) sample_attach))"
proof (subst accept_now)
  show "command_admitted (sample_machine\<lparr>sn_host_risk_leases := [(sample_lease, Some sample_verifier)]\<rparr>)
     (sample_command 1 1 (CmdOpen sample_attach))"
    by (simp add: command_admitted_def validate_against_iff command_envelope_validate_def
        protocol_version_validate_def example_defs sample_attach_def)
qed (simp_all add: example_defs dispatch_defs sn_accept_open_def sn_open_authority_def sample_attach_def
   sn_consume_host_risk_lease_def sn_take_host_risk_def bt_spend_def bt_lookup_def sample_verifier_def)

definition sample_run :: run_token where
  "sample_run = \<lparr>rk_state = sample_token 4, rk_run_id = 1\<rparr>"

lemma attach_stop:
  "sn_mark_stopped SrInitial 11 (attached 1 0 0 (StOpening (sample_token 2) sample_attach))
   = (Inr sample_stopped, attached 1 1 0 sample_stopped)"
  by (simp add: sn_mark_stopped_def dispatch_defs sn_require_state_def sn_require_open_target_def example_defs
      stops_on_open_def sample_attach_def sample_stopped_def sample_stop_def)

lemma attach_continue_admitted: "command_admitted (attached 1 1 0 sample_stopped) sample_continue"
  by (simp add: command_admitted_def validate_against_iff command_envelope_validate_def
      protocol_version_validate_def sample_continue_def example_defs sample_stopped_def sample_stop_def
      stopped_at_def)

lemma attach_continue:
  "sn_accept_command sample_sha sample_continue (attached 1 1 0 sample_stopped)
   = (Inr (StRunning sample_run), attached 5 1 1 (StRunning sample_run))"
  by (subst accept_now [OF attach_continue_admitted])
    (simp_all add: example_defs dispatch_defs sn_accept_run_def on_sandbox_def sample_continue_def
      sample_stopped_def sample_stop_def sample_run_def)

definition sample_close :: "command_id \<Rightarrow> u64 \<Rightarrow> command_envelope" where
  "sample_close cid g = sample_command cid g (CmdClose (sample_token g))"

lemma attach_close:
  "sn_accept_command sample_sha (sample_close 5 3) (attached 1 1 0 sample_stopped)
   = (Inr sample_closing, attached 5 1 0 sample_closing)"
proof (subst accept_now)
  show "command_admitted (attached 1 1 0 sample_stopped) (sample_close 5 3)"
    by (simp add: command_admitted_def validate_against_iff command_envelope_validate_def sample_close_def
        protocol_version_validate_def example_defs sample_stopped_def sample_stop_def)
qed (simp_all add: example_defs dispatch_defs sn_accept_shutdown_def on_sandbox_def sample_close_def
   sample_stopped_def sample_stop_def sample_closing_def)

lemma attach_closed:
  "sn_complete_close None (attached 5 1 0 sample_closing)
   = (Inr (StClosed (sample_token 5)), attached 5 1 0 (StClosed (sample_token 5)))"
  by (simp add: sn_complete_close_def dispatch_defs sn_require_state_def sn_close_ownership_def example_defs
      sample_closing_def)

section \<open>Its worlds\<close>

definition world_of :: "session_machine \<Rightarrow> session_world" where
  "world_of s = \<lparr>sw_machine = s, sw_tickets = [], sw_receipts = []\<rparr>"

definition sample_registered :: session_world where
  "sample_registered = world_of (sample_machine\<lparr>sn_host_risk_leases := [(sample_lease, Some sample_verifier)]\<rparr>)"

definition sample_opening :: session_world where
  "sample_opening = world_of (attached 1 0 0 (StOpening (sample_token 2) sample_attach))"

definition sample_at_stop :: session_world where
  "sample_at_stop = world_of (attached 1 1 0 sample_stopped)"

definition sample_at_run :: session_world where
  "sample_at_run = world_of (attached 5 1 1 (StRunning sample_run))"

definition sample_at_closing :: session_world where
  "sample_at_closing = world_of (attached 5 1 0 sample_closing)"

definition sample_closed :: session_world where
  "sample_closed = world_of (attached 5 1 0 (StClosed (sample_token 5)))"

lemma attach_calls:
  "sw_exec sample_sha (InRegisterHostRisk sample_verifier) (sw_start 0 7 sample_epoch ''helper-1'')
     = (Done, sample_registered)"
  "sw_exec sample_sha (InAccept (sample_command 1 1 (CmdOpen sample_attach))) sample_registered = (Done, sample_opening)"
  "sw_exec sample_sha (InStopped SrInitial 11) sample_opening = (Done, sample_at_stop)"
  "sw_exec sample_sha (InAccept sample_continue) sample_at_stop = (Done, sample_at_run)"
  "sw_exec sample_sha (InAccept (sample_close 5 3)) sample_at_stop = (Done, sample_at_closing)"
  "sw_exec sample_sha (InCompleteClose None) sample_at_closing = (Done, sample_closed)"
  using attach_register attach_open attach_stop attach_continue attach_close attach_closed
  by (simp_all add: sw_exec_def sw_call_def sw_start_def sample_registered_def sample_opening_def
      sample_at_stop_def sample_at_run_def sample_at_closing_def sample_closed_def world_of_def
      flip: sample_machine_def)

lemma step_reachable:
  "sw_exec sha i w = (Done, v) \<Longrightarrow> reachable sw_initial (sw_step sha) w \<Longrightarrow> reachable sw_initial (sw_step sha) v"
  by (blast intro: reachable.intros sw_step.call)

lemma start_reachable: "reachable sw_initial (sw_step sha) (sw_start n sid epoch helper)"
  by (blast intro: reachable.intros sw_initial_def [THEN iffD2])

lemmas registered_reachable = step_reachable [OF attach_calls(1) start_reachable]
lemmas opening_reachable = step_reachable [OF attach_calls(2) registered_reachable]
lemmas at_stop_reachable = step_reachable [OF attach_calls(3) opening_reachable]
lemmas at_run_reachable = step_reachable [OF attach_calls(4) at_stop_reachable]
lemmas at_closing_reachable = step_reachable [OF attach_calls(5) at_stop_reachable]
lemmas closed_reachable = step_reachable [OF attach_calls(6) at_closing_reachable]

lemmas world_defs = sample_registered_def sample_opening_def sample_at_stop_def sample_at_run_def
  sample_at_closing_def sample_closed_def world_of_def attached_def sample_machine_def session_machine_new_def

section \<open>Witnesses of the attach\<close>

theorem session_runs_only_authorised_witness:
  "reachable sw_initial (sw_step sample_sha) sample_at_run
   \<and> session_kind (sn_state (sw_machine sample_at_run)) = KRunning
   \<and> sn_execution_gate (sw_machine sample_at_run) = HostRiskAccepted
   \<and> sn_sandbox (sw_machine sample_at_run) = None"
proof -
  have k: "session_kind (sn_state (sw_machine sample_at_run)) = KRunning"
    and t: "sn_target (sw_machine sample_at_run) = Some sample_attach"
    by (simp_all add: world_defs)
  have "session_kind (sn_state (sw_machine sample_at_run)) \<in> {KRunning, KPausing}" using k by simp
  then show ?thesis
    using session_runs_only_authorised [OF at_run_reachable] at_run_reachable k
    by (simp add: t) (simp add: sample_attach_def)
qed

theorem session_refines_protocol_witness:
  "reachable sw_initial (sw_step sample_sha) sample_at_stop
   \<and> sw_exec sample_sha (InAccept sample_continue) sample_at_stop = (Done, sample_at_run)
   \<and> legal_step\<^sup>*\<^sup>* sample_stopped (StRunning sample_run)"
  using session_refines_protocol [OF at_stop_reachable attach_calls(4)] at_stop_reachable attach_calls(4)
  by (simp add: world_defs)

theorem closed_is_terminal_witness:
  "reachable sw_initial (sw_step sample_sha) sample_closed
   \<and> sn_state (sw_machine (sw_run sample_sha [InAccept sample_continue, InExited 3] sample_closed))
     = StClosed (sample_token 5)"
proof -
  have c: "sn_state (sw_machine sample_closed) = StClosed (sample_token 5)" by (simp add: world_defs)
  show ?thesis using closed_is_terminal [OF closed_reachable c] closed_reachable by blast
qed

theorem command_replay_refused_witness:
  "reachable sw_initial (sw_step sample_sha) sample_at_run
   \<and> (\<exists>err. sw_exec sample_sha (InAccept sample_continue) (sw_run sample_sha [InStopped SrInitial 11] sample_at_run)
       = (Refused err, sw_run sample_sha [InStopped SrInitial 11] sample_at_run))"
proof -
  have c: "sn_last_command_id (sw_machine sample_at_run) = Some 5" "ce_command_id sample_continue \<le> 5"
    by (simp_all add: world_defs sample_continue_def)
  show ?thesis using command_replay_refused [OF at_run_reachable c] at_run_reachable by blast
qed

lemma begin_continue:
  obtains v where "sw_exec sample_sha (InBegin sample_continue) sample_at_stop = (Done, v)"
    "sn_pending_remote_command (sw_machine v) = Some 5" "length (sw_tickets v) = 1"
proof -
  have a: "sn_accept_command_inner sample_sha sample_continue (attached 1 1 0 sample_stopped)
      = (Inr (StRunning sample_run), attached 5 1 1 (StRunning sample_run))"
    using attach_continue
    by (simp add: sn_accept_command_def sn_require_no_remote_command_pending_def and_then_run attached_def
        sample_machine_def session_machine_new_def)
  have p: "sn_pending_remote_command (attached 1 1 0 sample_stopped) = None" by (simp add: world_defs)
  obtain c t where b: "sn_begin_remote_command sample_sha sample_continue (attached 1 1 0 sample_stopped) = (Inr c, t)"
    "sn_pending_remote_command t = Some 5"
    using a p by (auto simp: begin_remote_Inr sample_continue_def)
  then show ?thesis
    by (intro that [of "\<lparr>sw_machine = t, sw_tickets = [c], sw_receipts = []\<rparr>"])
      (simp_all add: sw_exec_def sw_begin_def sample_at_stop_def world_of_def)
qed

theorem pending_command_resolution_witness:
  "\<exists>v. reachable sw_initial (sw_step sample_sha) v \<and> sn_pending_remote_command (sw_machine v) = Some 5
     \<and> sw_exec sample_sha (InAccept sample_continue) v = (Refused (SeRemoteCommandPending 5), v)
     \<and> fst (sw_exec sample_sha (InCommit 0 5) v) = Done \<and> fst (sw_exec sample_sha (InCommit 0 4) v) \<noteq> Done"
proof -
  obtain v where v: "sw_exec sample_sha (InBegin sample_continue) sample_at_stop = (Done, v)"
    "sn_pending_remote_command (sw_machine v) = Some 5" "length (sw_tickets v) = 1"
    by (rule begin_continue)
  have r: "reachable sw_initial (sw_step sample_sha) v" by (rule step_reachable [OF v(1) at_stop_reachable])
  show ?thesis
    using pending_command_resolution [OF r v(2), of sample_continue 0 5]
      pending_command_resolution [OF r v(2), of sample_continue 0 4] r v(2,3) by auto
qed

theorem begin_reject_round_trip_witness:
  "\<exists>v u. sw_exec sample_sha (InBegin sample_continue) sample_at_stop = (Done, v)
     \<and> sw_exec sample_sha (InReject 0 5) v = (Done, u)
     \<and> visible (sw_machine u) = visible (sw_machine sample_at_stop)"
proof -
  obtain v where v: "sw_exec sample_sha (InBegin sample_continue) sample_at_stop = (Done, v)"
    by (rule begin_continue)
  have "sw_tickets sample_at_stop = []" "ce_command_id sample_continue = 5"
    by (simp_all add: world_defs sample_continue_def)
  then show ?thesis using begin_reject_round_trip [OF v] v by auto
qed

definition second_stop :: stop_token where
  "second_stop = \<lparr>sk_state = sample_token 5, sk_stop_id = 2\<rparr>"

lemma attach_stop_again:
  "sn_mark_stopped SrUserPause 11 (attached 5 1 1 (StRunning sample_run))
   = (Inr (StStopped second_stop SrUserPause 11), attached 5 2 1 (StStopped second_stop SrUserPause 11))"
  by (simp add: sn_mark_stopped_def dispatch_defs sn_require_state_def example_defs sample_run_def second_stop_def)

definition token_calls :: "session_input list" where
  "token_calls = [InRegisterHostRisk sample_verifier, InAccept (sample_command 1 1 (CmdOpen sample_attach)),
     InStopped SrInitial 11, InAccept sample_continue, InUnsolicited [StStopped second_stop SrUserPause 11]]"

lemma batch_stop_again:
  "sw_exec sample_sha (InUnsolicited [StStopped second_stop SrUserPause 11]) sample_at_run
   = (Done, world_of (attached 5 2 1 (StStopped second_stop SrUserPause 11)))"
  using attach_stop_again
  by (simp add: sw_exec_def sn_apply_unsolicited_observations_def sn_apply_observation_def and_then_def ok_def
      sample_at_run_def world_of_def)

lemma sample_stops:
  "issued_along stop_of sample_sha token_calls (sw_start 0 7 sample_epoch ''helper-1'') = [sample_stop, second_stop]"
  by (simp add: token_calls_def issued_def attach_calls batch_stop_again map_filter_simps)
    (simp add: world_defs sw_start_def stop_of_def sample_stopped_def)

theorem tokens_never_reused_witness:
  "sw_initial (sw_start 0 7 sample_epoch ''helper-1'')
   \<and> issued_along stop_of sample_sha token_calls (sw_start 0 7 sample_epoch ''helper-1'') = [sample_stop, second_stop]
   \<and> sk_stop_id sample_stop < sk_stop_id second_stop"
proof -
  have i: "sw_initial (sw_start 0 7 sample_epoch ''helper-1'')" by (auto simp: sw_initial_def)
  show ?thesis
    using tokens_never_reused [OF i, of sample_sha token_calls] i by (simp add: sample_stops)
qed

theorem complete_close_exact_witness:
  "reachable sw_initial (sw_step sample_sha) sample_at_closing
   \<and> sw_exec sample_sha (InCompleteClose None) sample_at_closing = (Done, sample_closed)
   \<and> sn_state (sw_machine sample_closed) = StClosed (next_token (sw_machine sample_at_closing))"
  using iffD1 [OF complete_close_exact [OF at_closing_reachable] attach_calls(6)] at_closing_reachable attach_calls(6)
  by (simp add: world_defs)

theorem session_can_close_witness:
  "reachable sw_initial (sw_step sample_sha) sample_at_stop
   \<and> (\<exists>is. length is \<le> 2 \<and> session_kind (sn_state (sw_machine (sw_run sample_sha is sample_at_stop))) = KClosed)"
proof -
  have "sn_pending_remote_command (sw_machine sample_at_stop) = None" "creation_known (sw_machine sample_at_stop)"
    "cmd_mark (sw_machine sample_at_stop) < 2 ^ 64"
    "unat (tk_generation (session_state_token (sn_state (sw_machine sample_at_stop)))) + 2 < 2 ^ 64"
    by (simp_all add: world_defs creation_known_def cmd_mark_def sample_stopped_def sample_stop_def sample_token_def)
  then show ?thesis using session_can_close [OF at_stop_reachable] at_stop_reachable by blast
qed

definition sample_owner_verifier :: sandbox_ownership_verifier where
  "sample_owner_verifier = \<lparr>ov_id = replicate 64 (CHR ''2''), ov_binding = sample_owner\<rparr>"

theorem registries_bounded_witness:
  "reachable sw_initial (sw_step sample_sha) sample_registered
   \<and> bt_lookup (sn_host_risk_leases (sw_machine sample_registered)) sample_lease = Some (Some sample_verifier)
   \<and> length (sn_host_risk_leases (sw_machine sample_registered)) \<le> 64
   \<and> hv_session_id sample_verifier = sn_session_id (sw_machine sample_registered)"
proof -
  have l: "bt_lookup (sn_host_risk_leases (sw_machine sample_registered)) sample_lease = Some (Some sample_verifier)"
    by (simp add: world_defs bt_lookup_def)
  show ?thesis
    using registries_bounded [OF registered_reachable, of sample_lease sample_verifier "[]" sample_owner_verifier]
      registered_reachable l by blast
qed

theorem host_lease_single_use_witness:
  "reachable sw_initial (sw_step sample_sha) sample_registered
   \<and> sw_exec sample_sha (InAccept (sample_command 1 1 (CmdOpen sample_attach))) sample_registered = (Done, sample_opening)
   \<and> fst (sw_exec sample_sha (InAccept (sample_command 6 1 (CmdOpen sample_attach)))
       (sw_run sample_sha [InStopped SrInitial 11]
         (snd (sw_exec sample_sha (InAccept (sample_command 1 1 (CmdOpen sample_attach))) sample_registered)))) \<noteq> Done"
proof -
  have "sn_pending_remote_command (sw_machine sample_registered) = None"
    "command_admitted (sw_machine sample_registered) (sample_command 1 1 (CmdOpen sample_attach))"
    "host_lease_of sample_attach = Some sample_lease"
    by (simp_all add: world_defs command_admitted_def validate_against_iff command_envelope_validate_def
        protocol_version_validate_def sample_command_def sample_token_def sample_attach_def host_lease_of_def)
  then show ?thesis
    using host_lease_single_use [of sample_sha sample_registered "sample_command 1 1 (CmdOpen sample_attach)"
        sample_attach sample_lease "InAccept (sample_command 1 1 (CmdOpen sample_attach))" "[InStopped SrInitial 11]"
        "sample_command 6 1 (CmdOpen sample_attach)" sample_attach
        "InAccept (sample_command 6 1 (CmdOpen sample_attach))"]
      registered_reachable attach_calls(2)
    by (simp add: sample_command_def)
qed

theorem issued_launch_opens_witness:
  "\<exists>target lease verifier t v.
     host_risk_issue_launch sample_sha 7 sample_epoch sample_intent sample_issuer = (Inr (target, lease, verifier), t)
     \<and> launch_target_validate target = Inr ()
     \<and> v = sw_run sample_sha [InRegisterHostRisk (host_risk_lease_into_verifier lease),
            InAccept (open_envelope 1 (DtLaunch target) (sw_machine (sw_start 0 7 sample_epoch ''helper-1'')))]
          (sw_start 0 7 sample_epoch ''helper-1'')
     \<and> sn_state (sw_machine v) = StOpening (sample_token 2) (DtLaunch target) \<and> sn_host_risk_leases (sw_machine v) = []"
proof -
  obtain target lease verifier t where
    i: "host_risk_issue_launch sample_sha 7 sample_epoch sample_intent sample_issuer = (Inr (target, lease, verifier), t)"
    and l: "launch_target_validate target = Inr ()"
    by (simp add: host_risk_issue_launch_def and_then_def host_risk_issue_eq [OF sample_sha_length]
        sample_issuer_def Let_def ok_def intent_into_target_def sample_intent_def launch_target_validate_def
        validate_path_def)
  show ?thesis
    using issued_launch_opens [OF i, where n = 0 and helper = "''helper-1''" and sha' = sample_sha and cid = 1] i l
    by (auto simp: Let_def sample_token_def)
qed

section \<open>A live write\<close>

definition sample_write_at :: "command_id \<Rightarrow> command_envelope" where
  "sample_write_at cid = sample_command cid 3 (CmdWriteMemory sample_stop 4194320 [144] [204])"

lemma sample_write_admitted: "c0 < cid \<Longrightarrow> command_admitted (attached c0 k 0 sample_stopped) (sample_write_at cid)"
  by (simp add: command_admitted_def validate_against_iff command_envelope_validate_def sample_write_at_def
      protocol_version_validate_def example_defs sample_stopped_def sample_stop_def stopped_at_def
      validate_memory_write_def protocol_bounds validate_span_iff)

lemma live_write_begins:
  assumes "sw_machine w = attached c0 k 0 sample_stopped" "c0 < cid" "k < 100"
  shows "\<exists>v. sw_exec sample_sha (InBeginLive (sample_write_at cid) sample_binding) w = (Done, v)"
proof -
  have adm: "command_admitted (attached c0 k 0 sample_stopped) (sample_write_at cid)"
    by (rule sample_write_admitted [OF assms(2)])
  have k: "unat k < 100" using assms(3) by (simp add: word_less_nat_alt)
  then have "checked_add k 1 = Some (k + 1)" by (simp add: checked_add_unat)
  then have "k + 1 \<noteq> 0" by (rule checked_add_one_nonzero(1))
  with k have "\<exists>st t. sn_accept_command_inner sample_sha (sample_write_at cid) (attached c0 k 0 sample_stopped) = (Inr st, t)"
    by (subst accept_inner_admitted [OF adm])
      (simp add: example_defs sn_dispatch_def and_then_def sm_defs sn_next_state_token_def sn_transition_to_def
        sn_allocate_stop_token_def state_generation_checked_next_def validate_successor_def nonzero_id_new_def
        sample_write_at_def sn_refresh_stopped_token_def sample_stopped_def sample_stop_def checked_add_def)
  then obtain c t where "sn_begin_remote_command sample_sha (sample_write_at cid) (attached c0 k 0 sample_stopped) = (Inr c, t)"
    by (auto simp: begin_remote_Inr example_defs)
  then show ?thesis
    using adm assms(1)
    by (simp add: sw_exec_def sw_begin_live_def sn_begin_live_memory_write_def sample_write_at_def
      and_then_def sm_defs Let_def command_admitted_def example_defs attached_debug_process_def sample_attach_def
      sample_binding_def rva_for_address_span_def checked_sub_def checked_add_def image_end_def)
qed

theorem live_write_resolution_witness:
  "\<exists>v u u'. reachable sw_initial (sw_step sample_sha) sample_at_stop
     \<and> sw_exec sample_sha (InBeginLive (sample_write_at 5) sample_binding) sample_at_stop = (Done, v)
     \<and> sw_exec sample_sha (InLiveSuccess 0 0) v = (Done, u)
     \<and> sw_exec sample_sha (InLiveNoEffect 0 0) v = (Done, u')
     \<and> visible (sw_machine u') = visible (sw_machine sample_at_stop)"
proof -
  obtain v where v: "sw_exec sample_sha (InBeginLive (sample_write_at 5) sample_binding) sample_at_stop = (Done, v)"
    using live_write_begins [of sample_at_stop 1 1 5] by (auto simp: world_defs)
  have "sw_tickets sample_at_stop = []" "sw_receipts sample_at_stop = []" by (simp_all add: world_defs)
  then show ?thesis using live_write_resolution [OF at_stop_reachable v] at_stop_reachable v by auto
qed

section \<open>A sandboxed launch that never gets a target\<close>

definition sample_launch :: debug_target where
  "sample_launch = DtLaunch \<lparr>la_binary_id = sample_binary, la_executable = ''C:/game.exe'', la_arguments = [],
     la_working_directory = None, la_environment = LeSandboxed sample_policy, la_stop_before_entry = True\<rparr>"

definition sandboxed :: "command_id \<Rightarrow> lifecycle_state \<Rightarrow> session_state \<Rightarrow> session_machine" where
  "sandboxed cid life st = sample_machine\<lparr>sn_state := st, sn_target := Some sample_launch,
     sn_last_command_id := Some cid, sn_execution_gate := SandboxPending,
     sn_sandbox := Some (sample_requested\<lparr>sx_state := life\<rparr>)\<rparr>"

lemma launch_open:
  "sn_accept_command sample_sha (sample_command 1 1 (CmdOpen sample_launch)) sample_machine
   = (Inr (StOpening (sample_token 2) sample_launch), sandboxed 1 LsProvisioning (StOpening (sample_token 2) sample_launch))"
proof (subst accept_now)
  show "command_admitted sample_machine (sample_command 1 1 (CmdOpen sample_launch))"
    by (simp add: command_admitted_def validate_against_iff command_envelope_validate_def
        protocol_version_validate_def example_defs sample_launch_def launch_target_validate_def validate_path_def)
  have "sp_session_id sample_policy = 7" by (simp add: sample_policy_def)
  then have "sn_open_sandboxed sample_sha t sample_policy s = (Inr (sample_requested\<lparr>sx_state := LsProvisioning\<rparr>), s)"
    if "la_binary_id t = sample_binary" "sn_session_id s = 7" "sn_helper_build s = ''helper-1''"
      "sn_provisioning_epoch s = sample_epoch" for t s
    using that by (simp add: sn_open_sandboxed_def and_then_def sm_defs sn_require_session_def
      sample_expected_from_policy sample_new sx_begin_provisioning_def sx_transition_def sx_require_state_def)
      (simp add: sample_requested_def and_then_def sm_defs)
  then show "and_then (sn_dispatch sample_sha (ce_command (sample_command 1 1 (CmdOpen sample_launch)))) (\<lambda>_. gets sn_state)
      (sample_machine\<lparr>sn_last_command_id := Some (ce_command_id (sample_command 1 1 (CmdOpen sample_launch)))\<rparr>)
    = (Inr (StOpening (sample_token 2) sample_launch), sandboxed 1 LsProvisioning (StOpening (sample_token 2) sample_launch))"
    by (simp add: example_defs dispatch_defs sn_accept_open_def sn_open_authority_def sample_launch_def sandboxed_def)
qed (simp add: example_defs)

lemma launch_close:
  "sn_accept_command sample_sha (sample_close 2 2) (sandboxed 1 LsProvisioning (StOpening (sample_token 2) sample_launch))
   = (Inr (StClosing (sample_token 3)), sandboxed 2 LsCleanup (StClosing (sample_token 3)))"
proof (subst accept_now)
  show "command_admitted (sandboxed 1 LsProvisioning (StOpening (sample_token 2) sample_launch)) (sample_close 2 2)"
    by (simp add: command_admitted_def validate_against_iff command_envelope_validate_def sample_close_def
        protocol_version_validate_def example_defs sandboxed_def)
qed (simp_all add: example_defs dispatch_defs sn_accept_shutdown_def on_sandbox_def sample_close_def sandboxed_def
   sx_begin_cleanup_def)

definition sample_stalled :: session_world where
  "sample_stalled = world_of (sandboxed 2 LsCleanup (StClosing (sample_token 3)))"

lemma stalled_reachable: "reachable sw_initial (sw_step sample_sha) sample_stalled"
proof -
  let ?is = "[InAccept (sample_command 1 1 (CmdOpen sample_launch)), InAccept (sample_close 2 2)]"
  have "sw_run sample_sha ?is (sw_start 0 7 sample_epoch ''helper-1'') = sample_stalled"
    using launch_open launch_close
    by (simp add: sw_exec_def sw_call_def sw_start_def sample_stalled_def world_of_def flip: sample_machine_def)
  moreover have "sw_initial (sw_start 0 7 sample_epoch ''helper-1'')" by (auto simp: sw_initial_def)
  ultimately show ?thesis using sw_run_reachable by metis
qed

theorem unknown_creation_never_closes_witness:
  "reachable sw_initial (sw_step sample_sha) sample_stalled
   \<and> sn_sandbox (sw_machine sample_stalled) = Some (sample_requested\<lparr>sx_state := LsCleanup\<rparr>)
   \<and> session_kind (sn_state (sw_machine (sw_run sample_sha [InCompleteClose None, InNotCreated] sample_stalled))) = KClosing"
proof -
  have s: "session_kind (sn_state (sw_machine sample_stalled)) = KClosing"
    "sn_pending_remote_command (sw_machine sample_stalled) = None"
    "sn_sandbox (sw_machine sample_stalled) = Some (sample_requested\<lparr>sx_state := LsCleanup\<rparr>)"
    "sx_target_creation (sample_requested\<lparr>sx_state := LsCleanup\<rparr>) = None"
    by (simp_all add: sample_stalled_def world_of_def sandboxed_def example_defs sample_requested_def)
  show ?thesis using unknown_creation_never_closes [OF stalled_reachable s] stalled_reachable s(3) by blast
qed

theorem bound_failure_validates_witness:
  "\<exists>s f. sn_sandbox s = Some sample_running \<and> sn_bind_sandbox_failure FsCleanup FkCleanupIncomplete False ''left over'' s = Inr f
     \<and> sn_validate_sandbox_failure f s = Inr () \<and> sn_retain_sandbox_failure_target_creation f s = (Inr (), s)"
proof -
  let ?s = "sample_machine\<lparr>sn_sandbox := Some sample_running\<rparr>"
  obtain f where f: "sn_bind_sandbox_failure FsCleanup FkCleanupIncomplete False ''left over'' ?s = Inr f"
    by (simp add: sn_bind_sandbox_failure_def sx_failure_target_creation_def sample_running_def Let_def
        validate_stage_kind_def stage_kind_compatible_def example_defs)
  show ?thesis using bound_failure_validates [OF f] f by (intro exI [of _ ?s] exI [of _ f]) simp
qed

end
