(* ===== verification/Removable_Map.thy ===== *)
theory Removable_Map
  imports Ordered_Map
begin

text \<open>
  \<open>BTreeMap\<close> with removal and with every value type: the interface of the ordered map extended
  by \<open>remove\<close>, and the facts about tables of values that the software-breakpoint planner needs.
\<close>

section \<open>Interface\<close>

locale removable_map = ordered_map empty lookup put size_of invar
  for empty :: 'm and lookup :: "'m \<Rightarrow> 'k \<Rightarrow> 'v option"
    and put :: "'k \<Rightarrow> 'v \<Rightarrow> 'm \<Rightarrow> 'm" and size_of :: "'m \<Rightarrow> nat"
    and invar :: "'m \<Rightarrow> bool" +
  fixes remove :: "'k \<Rightarrow> 'm \<Rightarrow> 'm"
  assumes lookup_remove: "invar m \<Longrightarrow> lookup (remove k m) = (lookup m)(k := None)"
    and invar_remove: "invar m \<Longrightarrow> invar (remove k m)"
begin

lemma size_remove: "invar m \<Longrightarrow> size_of (remove k m) \<le> size_of m"
  using finite_lookup [of m]
  by (simp add: size_lookup invar_remove lookup_remove card_Diff1_le)

lemma remove_put_fresh:
  assumes "invar m" "lookup m k = None"
  shows "remove k (put k v m) = m"
proof (rule ext)
  show "lookup (remove k (put k v m)) = lookup m"
    using assms by (auto simp: lookup_remove lookup_put invar_put fun_eq_iff)
qed (simp_all add: assms invar_put invar_remove)

lemma put_bound:
  assumes "invar m" "lookup m k \<noteq> None \<or> size_of m < n" "size_of m \<le> n"
  shows "size_of (put k v m) \<le> n"
  using assms size_put_fresh [of m k v] size_put_present [of m k]
  by (cases "lookup m k") auto

end

section \<open>The sorted association list\<close>

definition bt_remove :: "'k \<Rightarrow> ('k::linorder, 'v) btree_map \<Rightarrow> ('k, 'v) btree_map" where
  "bt_remove k m = filter (\<lambda>(j, w). j \<noteq> k) m"

lemma map_of_bt_remove: "map_of (bt_remove k m) = (map_of m)(k := None)"
  unfolding bt_remove_def by (induction m) (auto simp: fun_upd_twist)

lemma bt_sorted_remove: "bt_sorted m \<Longrightarrow> bt_sorted (bt_remove k m)"
  unfolding bt_remove_def by (induction m) (auto simp: bt_sorted_Cons)

interpretation tm: removable_map "[]" bt_lookup bt_put length bt_sorted bt_remove
  apply unfold_locales
  subgoal by (simp add: bt_lookup_def)
  subgoal by (simp add: bt_lookup_def map_of_bt_put)
  subgoal by (rule length_bt_sorted)
  subgoal by (simp add: bt_lookup_def finite_dom_map_of)
  subgoal by (simp add: bt_lookup_def bt_sorted_ext)
  subgoal by simp
  subgoal by (rule bt_sorted_put)
  subgoal by (simp add: bt_lookup_def map_of_bt_remove)
  subgoal by (rule bt_sorted_remove)
  done

text \<open>The values of the table, in key order.\<close>

definition bt_values :: "('k, 'v) btree_map \<Rightarrow> 'v list" where
  "bt_values m = map snd m"

lemma bt_values_lookup:
  assumes "bt_sorted m"
  shows "v \<in> set (bt_values m) \<longleftrightarrow> (\<exists>k. bt_lookup m k = Some v)"
proof -
  have "map_of m k = Some v \<longleftrightarrow> (k, v) \<in> set m" for k
    by (rule map_of_eq_Some_iff [OF bt_sorted_distinct [OF assms]])
  then show ?thesis by (force simp: bt_values_def bt_lookup_def)
qed

end
