(* ===== verification/Software_Breakpoint.thy ===== *)
theory Software_Breakpoint
  imports Removable_Map Protocol_Laws
begin

text \<open>
  The transactional planner of software breakpoints (\<open>software_breakpoint.rs\<close>).  The reducer
  never touches memory: it plans one compare-and-replace of one byte at a time and advances its
  table only on an exact success report; any other report poisons it for good.  Every operation
  of the reducer is a definition here; \<open>SbPanic\<close> is where the source would panic.
\<close>

section \<open>Plans and reports\<close>

definition INT3_OPCODE :: u8 where
  "INT3_OPCODE = 0xcc"

definition MAX_SOFTWARE_BREAKPOINTS :: nat where
  "MAX_SOFTWARE_BREAKPOINTS = 1024"

type_synonym operation_id = u64

datatype (plugins only: code size) breakpoint_action = BaArm | BaRestore | BaRearm | BaRemove

record byte_plan =
  yp_operation_id :: operation_id
  yp_session_id :: session_id
  yp_stop_token :: stop_token
  yp_breakpoint :: breakpoint_spec
  yp_expected_byte :: u8
  yp_replacement_byte :: u8

datatype (plugins only: code size) action_plan =
    PlArm byte_plan
  | PlRestore byte_plan
  | PlRearm byte_plan
  | PlRemove byte_plan

primrec plan_action :: "action_plan \<Rightarrow> breakpoint_action" where
  "plan_action (PlArm p) = BaArm"
| "plan_action (PlRestore p) = BaRestore"
| "plan_action (PlRearm p) = BaRearm"
| "plan_action (PlRemove p) = BaRemove"

primrec plan_bytes :: "action_plan \<Rightarrow> byte_plan" where
  "plan_bytes (PlArm p) = p"
| "plan_bytes (PlRestore p) = p"
| "plan_bytes (PlRearm p) = p"
| "plan_bytes (PlRemove p) = p"

definition plan_operation_id :: "action_plan \<Rightarrow> operation_id" where
  "plan_operation_id p = yp_operation_id (plan_bytes p)"

record action_acknowledgement =
  aq_action :: breakpoint_action
  aq_operation_id :: operation_id
  aq_session_id :: session_id
  aq_stop_token :: stop_token
  aq_breakpoint :: breakpoint_spec
  aq_expected_byte :: u8
  aq_replacement_byte :: u8

record single_step_acknowledgement =
  sq_session_id :: session_id
  sq_breakpoint_id :: breakpoint_id
  sq_restore_operation_id :: operation_id
  sq_hit_stop_token :: stop_token
  sq_stepped_stop_token :: stop_token

datatype (plugins only: code size) breakpoint_acknowledgement =
    AkAction action_acknowledgement
  | AkSingleStep single_step_acknowledgement

section \<open>State\<close>

datatype (plugins only: code size) breakpoint_phase = BhArmed | BhAwaitingSingleStep | BhReadyToRearm

record breakpoint_entry =
  be_breakpoint :: breakpoint_spec
  be_original_byte :: u8
  be_persistence :: breakpoint_persistence
  be_phase :: breakpoint_phase
  be_stop_token :: stop_token
  be_restore_operation_id :: "operation_id option"
  be_single_step_stop_token :: "stop_token option"

record breakpoint_snapshot =
  bs_breakpoint :: breakpoint_spec
  bs_original_byte :: u8
  bs_persistence :: breakpoint_persistence
  bs_phase :: breakpoint_phase
  bs_stop_token :: stop_token
  bs_restore_operation_id :: "operation_id option"
  bs_single_step_stop_token :: "stop_token option"

definition entry_snapshot :: "breakpoint_entry \<Rightarrow> breakpoint_snapshot" where
  "entry_snapshot e =
     \<lparr>bs_breakpoint = be_breakpoint e, bs_original_byte = be_original_byte e,
      bs_persistence = be_persistence e, bs_phase = be_phase e, bs_stop_token = be_stop_token e,
      bs_restore_operation_id = be_restore_operation_id e,
      bs_single_step_stop_token = be_single_step_stop_token e\<rparr>"

datatype (plugins only: code size) breakpoint_transition =
    BtArmed breakpoint_id
  | BtRestoredForSingleStep breakpoint_id
  | BtTemporaryRemoved breakpoint_id
  | BtRearmed breakpoint_id
  | BtRemoved breakpoint_id

datatype (plugins only: code size) acknowledgement_rejection =
    ArDuplicate operation_id
  | ArOutOfOrder "operation_id option" operation_id
  | ArWrongSession session_id session_id
  | ArWrongStopToken stop_token stop_token
  | ArPayloadMismatch

record cleanup_evidence =
  cv_session_id :: session_id
  cv_acknowledged_breakpoints :: "breakpoint_snapshot list"
  cv_uncertain_operation :: "action_plan option"

record poison_evidence =
  pz_rejection :: acknowledgement_rejection
  pz_received :: breakpoint_acknowledgement
  pz_cleanup :: cleanup_evidence

datatype (plugins only: code size) breakpoint_error =
    SbInvalidCapacity nat nat
  | SbOriginalByteIsInt3
  | SbNotSoftwareBreakpoint
  | SbInvalidBreakpointSpec protocol_error
  | SbDuplicateBreakpointId breakpoint_id
  | SbDuplicateAddress memory_address
  | SbCapacityExceeded nat
  | SbOperationPending operation_id
  | SbUnknownBreakpoint breakpoint_id
  | SbInvalidPhase breakpoint_action breakpoint_id breakpoint_phase
  | SbWrongSession session_id session_id
  | SbStopTokenDidNotAdvance stop_token stop_token
  | SbOperationIdExhausted
  | SbAcknowledgementRejected acknowledgement_rejection
  | SbPoisoned
  | SbPanic

datatype (plugins only: code size) pending_transition =
    PtArm breakpoint_entry
  | PtRestore breakpoint_id
  | PtRearm breakpoint_id
  | PtRemove breakpoint_id

record pending_operation =
  po_plan :: action_plan
  po_transition :: pending_transition

record software_breakpoints =
  sb_session_id :: session_id
  sb_capacity :: nat
  sb_next_operation_id :: "operation_id option"
  sb_last_acknowledged_operation :: "operation_id option"
  sb_breakpoints :: "(breakpoint_id, breakpoint_entry) btree_map"
  sb_pending :: "pending_operation option"
  sb_poison_evidence :: "poison_evidence option"

type_synonym 'a breakpoint_op = "(software_breakpoints, breakpoint_error, 'a) sm"

definition sb_with_capacity :: "session_id \<Rightarrow> nat \<Rightarrow> breakpoint_error + software_breakpoints" where
  "sb_with_capacity sid capacity =
     rbind (guard (\<not> (capacity = 0 \<or> MAX_SOFTWARE_BREAKPOINTS < capacity))
        (SbInvalidCapacity capacity MAX_SOFTWARE_BREAKPOINTS)) (\<lambda>_.
     Inr \<lparr>sb_session_id = sid, sb_capacity = capacity, sb_next_operation_id = Some 1,
       sb_last_acknowledged_operation = None, sb_breakpoints = [], sb_pending = None,
       sb_poison_evidence = None\<rparr>)"

definition sb_new :: "session_id \<Rightarrow> breakpoint_error + software_breakpoints" where
  "sb_new sid = map_err (\<lambda>_. SbPanic) (sb_with_capacity sid MAX_SOFTWARE_BREAKPOINTS)"

definition sb_is_poisoned :: "software_breakpoints \<Rightarrow> bool" where
  "sb_is_poisoned s = (sb_poison_evidence s \<noteq> None)"

definition sb_current_cleanup :: "software_breakpoints \<Rightarrow> cleanup_evidence" where
  "sb_current_cleanup s =
     \<lparr>cv_session_id = sb_session_id s,
      cv_acknowledged_breakpoints = map entry_snapshot (bt_values (sb_breakpoints s)),
      cv_uncertain_operation = map_option po_plan (sb_pending s)\<rparr>"

definition sb_cleanup_snapshot :: "software_breakpoints \<Rightarrow> cleanup_evidence" where
  "sb_cleanup_snapshot s = (case sb_poison_evidence s of
     None \<Rightarrow> sb_current_cleanup s | Some z \<Rightarrow> pz_cleanup z)"

definition sb_poison :: "acknowledgement_rejection \<Rightarrow> breakpoint_acknowledgement \<Rightarrow> 'a breakpoint_op" where
  "sb_poison rejection received =
     and_then (modify (\<lambda>s. s\<lparr>sb_poison_evidence := Some \<lparr>pz_rejection = rejection,
        pz_received = received, pz_cleanup = sb_current_cleanup s\<rparr>\<rparr>)) (\<lambda>_.
     fail (SbAcknowledgementRejected rejection))"

section \<open>Guards\<close>

definition sb_require_healthy_and_idle :: "software_breakpoints \<Rightarrow> breakpoint_error + unit" where
  "sb_require_healthy_and_idle s =
     rbind (guard (\<not> sb_is_poisoned s) SbPoisoned) (\<lambda>_.
     case sb_pending s of
       Some p \<Rightarrow> Inl (SbOperationPending (plan_operation_id (po_plan p)))
     | None \<Rightarrow> Inr ())"

definition sb_require_ready :: "stop_token \<Rightarrow> software_breakpoints \<Rightarrow> breakpoint_error + unit" where
  "sb_require_ready stop s =
     rbind (sb_require_healthy_and_idle s) (\<lambda>_.
     guard (tk_session_id (sk_state stop) = sb_session_id s)
       (SbWrongSession (sb_session_id s) (tk_session_id (sk_state stop))))"

definition sb_require_breakpoint :: "breakpoint_id \<Rightarrow> software_breakpoints \<Rightarrow> breakpoint_error + breakpoint_entry" where
  "sb_require_breakpoint i s = ok_or (bt_lookup (sb_breakpoints s) i) (SbUnknownBreakpoint i)"

definition require_phase ::
    "breakpoint_entry \<Rightarrow> breakpoint_action \<Rightarrow> breakpoint_phase \<Rightarrow> breakpoint_error + unit" where
  "require_phase e action required =
     guard (be_phase e = required) (SbInvalidPhase action (bp_id (be_breakpoint e)) (be_phase e))"

definition require_advanced_stop :: "stop_token \<Rightarrow> stop_token \<Rightarrow> breakpoint_error + unit" where
  "require_advanced_stop previous actual =
     guard (tk_generation (sk_state previous) < tk_generation (sk_state actual)
        \<and> sk_stop_id previous < sk_stop_id actual)
       (SbStopTokenDidNotAdvance previous actual)"

definition require_current_or_advanced_stop :: "stop_token \<Rightarrow> stop_token \<Rightarrow> breakpoint_error + unit" where
  "require_current_or_advanced_stop previous actual =
     (if actual = previous then Inr () else require_advanced_stop previous actual)"

definition sb_allocate_operation_id :: "operation_id breakpoint_op" where
  "sb_allocate_operation_id =
     and_then (lift_result (\<lambda>s. ok_or (sb_next_operation_id s) SbOperationIdExhausted)) (\<lambda>v.
     and_then (modify (\<lambda>s. s\<lparr>sb_next_operation_id := checked_add v 1\<rparr>)) (\<lambda>_.
     ok v))"

section \<open>Planning\<close>

definition sb_plan :: "action_plan \<Rightarrow> pending_transition \<Rightarrow> action_plan breakpoint_op" where
  "sb_plan plan transition =
     and_then (modify (\<lambda>s. s\<lparr>sb_pending := Some \<lparr>po_plan = plan, po_transition = transition\<rparr>\<rparr>)) (\<lambda>_.
     ok plan)"

definition sb_plan_arm ::
    "stop_token \<Rightarrow> breakpoint_spec \<Rightarrow> u8 \<Rightarrow> breakpoint_persistence \<Rightarrow> action_plan breakpoint_op" where
  "sb_plan_arm stop breakpoint original persistence =
     and_then (lift_result (sb_require_ready stop)) (\<lambda>_.
     and_then (lift_result (\<lambda>_. guard (bp_kind breakpoint = BkSoftware) SbNotSoftwareBreakpoint)) (\<lambda>_.
     and_then (lift_result (\<lambda>_. map_err SbInvalidBreakpointSpec (breakpoint_spec_validate breakpoint))) (\<lambda>_.
     and_then (lift_result (\<lambda>_. guard (original \<noteq> INT3_OPCODE) SbOriginalByteIsInt3)) (\<lambda>_.
     and_then (lift_result (\<lambda>s. guard (\<not> bt_contains (sb_breakpoints s) (bp_id breakpoint))
        (SbDuplicateBreakpointId (bp_id breakpoint)))) (\<lambda>_.
     and_then (lift_result (\<lambda>s. guard
        (\<not> list_ex (\<lambda>e. bp_address (be_breakpoint e) = bp_address breakpoint) (bt_values (sb_breakpoints s)))
        (SbDuplicateAddress (bp_address breakpoint)))) (\<lambda>_.
     and_then (lift_result (\<lambda>s. guard (length (sb_breakpoints s) < sb_capacity s)
        (SbCapacityExceeded (sb_capacity s)))) (\<lambda>_.
     and_then sb_allocate_operation_id (\<lambda>i.
     and_then (gets sb_session_id) (\<lambda>sid.
     sb_plan (PlArm \<lparr>yp_operation_id = i, yp_session_id = sid, yp_stop_token = stop,
         yp_breakpoint = breakpoint, yp_expected_byte = original, yp_replacement_byte = INT3_OPCODE\<rparr>)
       (PtArm \<lparr>be_breakpoint = breakpoint, be_original_byte = original, be_persistence = persistence,
         be_phase = BhArmed, be_stop_token = stop, be_restore_operation_id = None,
         be_single_step_stop_token = None\<rparr>))))))))))"

definition sb_plan_restore_after_hit :: "breakpoint_id \<Rightarrow> stop_token \<Rightarrow> action_plan breakpoint_op" where
  "sb_plan_restore_after_hit bid stop =
     and_then (lift_result (sb_require_ready stop)) (\<lambda>_.
     and_then (lift_result (sb_require_breakpoint bid)) (\<lambda>e.
     and_then (lift_result (\<lambda>_. require_phase e BaRestore BhArmed)) (\<lambda>_.
     and_then (lift_result (\<lambda>_. require_advanced_stop (be_stop_token e) stop)) (\<lambda>_.
     and_then sb_allocate_operation_id (\<lambda>i.
     and_then (gets sb_session_id) (\<lambda>sid.
     sb_plan (PlRestore \<lparr>yp_operation_id = i, yp_session_id = sid, yp_stop_token = stop,
         yp_breakpoint = be_breakpoint e, yp_expected_byte = INT3_OPCODE,
         yp_replacement_byte = be_original_byte e\<rparr>) (PtRestore bid)))))))"

definition sb_plan_rearm_after_single_step :: "breakpoint_id \<Rightarrow> action_plan breakpoint_op" where
  "sb_plan_rearm_after_single_step bid =
     and_then (lift_result sb_require_healthy_and_idle) (\<lambda>_.
     and_then (lift_result (sb_require_breakpoint bid)) (\<lambda>e.
     and_then (lift_result (\<lambda>_. require_phase e BaRearm BhReadyToRearm)) (\<lambda>_.
     and_then (lift_result (\<lambda>_. ok_or (be_single_step_stop_token e) SbPanic)) (\<lambda>stepped.
     and_then sb_allocate_operation_id (\<lambda>i.
     and_then (gets sb_session_id) (\<lambda>sid.
     sb_plan (PlRearm \<lparr>yp_operation_id = i, yp_session_id = sid, yp_stop_token = stepped,
         yp_breakpoint = be_breakpoint e, yp_expected_byte = be_original_byte e,
         yp_replacement_byte = INT3_OPCODE\<rparr>) (PtRearm bid)))))))"

definition sb_plan_remove :: "breakpoint_id \<Rightarrow> stop_token \<Rightarrow> action_plan breakpoint_op" where
  "sb_plan_remove bid stop =
     and_then (lift_result (sb_require_ready stop)) (\<lambda>_.
     and_then (lift_result (sb_require_breakpoint bid)) (\<lambda>e.
     and_then (lift_result (\<lambda>_. require_phase e BaRemove BhArmed)) (\<lambda>_.
     and_then (lift_result (\<lambda>_. require_current_or_advanced_stop (be_stop_token e) stop)) (\<lambda>_.
     and_then sb_allocate_operation_id (\<lambda>i.
     and_then (gets sb_session_id) (\<lambda>sid.
     sb_plan (PlRemove \<lparr>yp_operation_id = i, yp_session_id = sid, yp_stop_token = stop,
         yp_breakpoint = be_breakpoint e, yp_expected_byte = INT3_OPCODE,
         yp_replacement_byte = be_original_byte e\<rparr>) (PtRemove bid)))))))"

section \<open>Acknowledgements\<close>

text \<open>The table with the entry of \<open>bid\<close> changed in place: \<open>get_mut(..).expect(..)\<close>.\<close>

definition sb_update_entry ::
    "breakpoint_id \<Rightarrow> (breakpoint_entry \<Rightarrow> breakpoint_entry) \<Rightarrow> unit breakpoint_op" where
  "sb_update_entry bid f s = (case bt_lookup (sb_breakpoints s) bid of
     None \<Rightarrow> fail SbPanic s
   | Some e \<Rightarrow> (Inr (), s\<lparr>sb_breakpoints := bt_put bid (f e) (sb_breakpoints s)\<rparr>))"

definition sb_acknowledge_single_step :: "single_step_acknowledgement \<Rightarrow> unit breakpoint_op" where
  "sb_acknowledge_single_step a s =
     (let received = AkSingleStep a; sid = sb_session_id s in
      if sb_is_poisoned s then fail SbPoisoned s
      else if sb_pending s \<noteq> None then sb_poison ArPayloadMismatch received s
      else if sq_session_id a \<noteq> sid then sb_poison (ArWrongSession sid (sq_session_id a)) received s
      else if tk_session_id (sk_state (sq_stepped_stop_token a)) \<noteq> sid
      then sb_poison (ArWrongSession sid (tk_session_id (sk_state (sq_stepped_stop_token a)))) received s
      else case bt_lookup (sb_breakpoints s) (sq_breakpoint_id a) of
        None \<Rightarrow> sb_poison ArPayloadMismatch received s
      | Some e \<Rightarrow>
          if be_phase e = BhReadyToRearm \<and> be_restore_operation_id e = Some (sq_restore_operation_id a)
            \<and> be_stop_token e = sq_hit_stop_token a
            \<and> be_single_step_stop_token e = Some (sq_stepped_stop_token a)
          then sb_poison (ArDuplicate (sq_restore_operation_id a)) received s
          else if be_phase e \<noteq> BhAwaitingSingleStep
            \<or> be_restore_operation_id e \<noteq> Some (sq_restore_operation_id a)
          then sb_poison ArPayloadMismatch received s
          else if be_stop_token e \<noteq> sq_hit_stop_token a
          then sb_poison (ArWrongStopToken (be_stop_token e) (sq_hit_stop_token a)) received s
          else if require_advanced_stop (sq_hit_stop_token a) (sq_stepped_stop_token a) \<noteq> Inr ()
          then sb_poison (ArWrongStopToken (sq_hit_stop_token a) (sq_stepped_stop_token a)) received s
          else sb_update_entry (sq_breakpoint_id a)
            (\<lambda>e. e\<lparr>be_phase := BhReadyToRearm, be_single_step_stop_token := Some (sq_stepped_stop_token a)\<rparr>) s)"

definition sb_apply_transition :: "byte_plan \<Rightarrow> pending_transition \<Rightarrow> breakpoint_transition breakpoint_op" where
  "sb_apply_transition expected transition = (case transition of
     PtArm e \<Rightarrow>
       and_then (modify (\<lambda>s. s\<lparr>sb_breakpoints := bt_put (bp_id (be_breakpoint e)) e (sb_breakpoints s)\<rparr>)) (\<lambda>_.
       ok (BtArmed (bp_id (be_breakpoint e))))
   | PtRestore bid \<Rightarrow>
       and_then (lift_result (\<lambda>s. ok_or (bt_lookup (sb_breakpoints s) bid) SbPanic)) (\<lambda>e.
       case be_persistence e of
         Persistent \<Rightarrow>
           and_then (sb_update_entry bid (\<lambda>e. e\<lparr>be_phase := BhAwaitingSingleStep,
              be_stop_token := yp_stop_token expected, be_restore_operation_id := Some (yp_operation_id expected),
              be_single_step_stop_token := None\<rparr>)) (\<lambda>_.
           ok (BtRestoredForSingleStep bid))
       | Temporary \<Rightarrow>
           and_then (modify (\<lambda>s. s\<lparr>sb_breakpoints := bt_remove bid (sb_breakpoints s)\<rparr>)) (\<lambda>_.
           ok (BtTemporaryRemoved bid)))
   | PtRearm bid \<Rightarrow>
       and_then (sb_update_entry bid (\<lambda>e. e\<lparr>be_phase := BhArmed, be_stop_token := yp_stop_token expected,
          be_restore_operation_id := None, be_single_step_stop_token := None\<rparr>)) (\<lambda>_.
       ok (BtRearmed bid))
   | PtRemove bid \<Rightarrow>
       and_then (modify (\<lambda>s. s\<lparr>sb_breakpoints := bt_remove bid (sb_breakpoints s)\<rparr>)) (\<lambda>_.
       ok (BtRemoved bid)))"

text \<open>A report that does not name the pending operation is a duplicate when its number has passed.\<close>

definition sb_order_rejection :: "operation_id option \<Rightarrow> operation_id \<Rightarrow> software_breakpoints \<Rightarrow> acknowledgement_rejection" where
  "sb_order_rejection expected actual s =
     (if (case sb_last_acknowledged_operation s of None \<Rightarrow> False | Some l \<Rightarrow> actual \<le> l)
      then ArDuplicate actual else ArOutOfOrder expected actual)"

definition sb_acknowledge_success :: "action_acknowledgement \<Rightarrow> breakpoint_transition breakpoint_op" where
  "sb_acknowledge_success a s =
     (let received = AkAction a in
      if sb_is_poisoned s then fail SbPoisoned s
      else case sb_pending s of
        None \<Rightarrow> sb_poison (sb_order_rejection None (aq_operation_id a) s) received s
      | Some p \<Rightarrow>
          let expected = plan_bytes (po_plan p) in
          if aq_operation_id a \<noteq> yp_operation_id expected
          then sb_poison (sb_order_rejection (Some (yp_operation_id expected)) (aq_operation_id a) s) received s
          else if aq_session_id a \<noteq> yp_session_id expected
          then sb_poison (ArWrongSession (yp_session_id expected) (aq_session_id a)) received s
          else if aq_stop_token a \<noteq> yp_stop_token expected
          then sb_poison (ArWrongStopToken (yp_stop_token expected) (aq_stop_token a)) received s
          else if aq_action a \<noteq> plan_action (po_plan p) \<or> aq_breakpoint a \<noteq> yp_breakpoint expected
            \<or> aq_expected_byte a \<noteq> yp_expected_byte expected
            \<or> aq_replacement_byte a \<noteq> yp_replacement_byte expected
          then sb_poison ArPayloadMismatch received s
          else and_then (modify (\<lambda>s. s\<lparr>sb_pending := None,
                 sb_last_acknowledged_operation := Some (yp_operation_id expected)\<rparr>)) (\<lambda>_.
               sb_apply_transition expected (po_transition p)) s)"

end
