(* ===== verification/Breakpoint_Laws.thy ===== *)
theory Breakpoint_Laws
  imports Software_Breakpoint
begin

text \<open>
  Laws of the breakpoint planner: its table invariant, what each operation does to the state, and
  the planner next to the memory of the debuggee.  A backend performs the pending compare-and-
  replace and reports success only for what it performed; under that contract the memory is the
  original memory with \<open>INT3\<close> at exactly the armed addresses.
\<close>

section \<open>What the operations do\<close>

definition same_table :: "software_breakpoints \<Rightarrow> software_breakpoints \<Rightarrow> bool" where
  "same_table s t \<longleftrightarrow> sb_session_id t = sb_session_id s \<and> sb_capacity t = sb_capacity s
     \<and> sb_breakpoints t = sb_breakpoints s"

definition idle :: "software_breakpoints \<Rightarrow> bool" where
  "idle s \<longleftrightarrow> sb_poison_evidence s = None \<and> sb_pending s = None"

lemma healthy_Inr [simp]: "sb_require_healthy_and_idle s = Inr u \<longleftrightarrow> idle s"
  by (auto simp: sb_require_healthy_and_idle_def idle_def sb_is_poisoned_def split: option.splits)

lemma ready_Inr [simp]:
  "sb_require_ready stop s = Inr u \<longleftrightarrow> idle s \<and> tk_session_id (sk_state stop) = sb_session_id s"
  by (auto simp: sb_require_ready_def)

text \<open>A plan that succeeds numbers itself with the next identifier and takes the pending slot.\<close>

definition planned :: "operation_id \<Rightarrow> action_plan \<Rightarrow> pending_transition \<Rightarrow> software_breakpoints \<Rightarrow> software_breakpoints" where
  "planned i plan transition s = s\<lparr>sb_next_operation_id := checked_add i 1,
     sb_pending := Some \<lparr>po_plan = plan, po_transition = transition\<rparr>\<rparr>"

lemma allocate_Inr:
  "sb_allocate_operation_id s = (Inr i, t) \<longleftrightarrow>
     sb_next_operation_id s = Some i \<and> t = s\<lparr>sb_next_operation_id := checked_add i 1\<rparr>"
  by (auto simp: sb_allocate_operation_id_def and_then_Inr_iff sm_defs)

lemma allocate_Inl:
  "sb_allocate_operation_id s = (Inl e, t) \<longleftrightarrow>
     sb_next_operation_id s = None \<and> e = SbOperationIdExhausted \<and> t = s"
  by (auto simp: sb_allocate_operation_id_def and_then_Inl_iff sm_defs ok_or_def split: option.splits)

lemma plan_slot: "sb_plan plan transition s =
    (Inr plan, s\<lparr>sb_pending := Some \<lparr>po_plan = plan, po_transition = transition\<rparr>\<rparr>)"
  by (simp add: sb_plan_def and_then_def sm_defs)

definition armed_entry :: "stop_token \<Rightarrow> breakpoint_spec \<Rightarrow> u8 \<Rightarrow> breakpoint_persistence \<Rightarrow> breakpoint_entry" where
  "armed_entry stop b original persistence =
     \<lparr>be_breakpoint = b, be_original_byte = original, be_persistence = persistence,
      be_phase = BhArmed, be_stop_token = stop, be_restore_operation_id = None,
      be_single_step_stop_token = None\<rparr>"

definition byte_plan_of ::
    "operation_id \<Rightarrow> software_breakpoints \<Rightarrow> stop_token \<Rightarrow> breakpoint_spec \<Rightarrow> u8 \<Rightarrow> u8 \<Rightarrow> byte_plan" where
  "byte_plan_of i s stop b x y =
     \<lparr>yp_operation_id = i, yp_session_id = sb_session_id s, yp_stop_token = stop, yp_breakpoint = b,
      yp_expected_byte = x, yp_replacement_byte = y\<rparr>"

lemma plan_arm_Inr:
  "sb_plan_arm stop b original persistence s = (Inr plan, t) \<longleftrightarrow>
     idle s \<and> tk_session_id (sk_state stop) = sb_session_id s \<and> bp_kind b = BkSoftware
     \<and> breakpoint_spec_validate b = Inr () \<and> original \<noteq> INT3_OPCODE
     \<and> bt_lookup (sb_breakpoints s) (bp_id b) = None
     \<and> (\<forall>e \<in> set (bt_values (sb_breakpoints s)). bp_address (be_breakpoint e) \<noteq> bp_address b)
     \<and> length (sb_breakpoints s) < sb_capacity s
     \<and> (\<exists>i. sb_next_operation_id s = Some i
          \<and> plan = PlArm (byte_plan_of i s stop b original INT3_OPCODE)
          \<and> t = planned i plan (PtArm (armed_entry stop b original persistence)) s)"
  unfolding sb_plan_arm_def
  by (auto simp: and_then_Inr_iff sm_defs allocate_Inr plan_slot planned_def byte_plan_of_def armed_entry_def
      bt_contains_def list_ex_iff)

lemma plan_restore_Inr:
  "sb_plan_restore_after_hit bid stop s = (Inr plan, t) \<longleftrightarrow>
     idle s \<and> tk_session_id (sk_state stop) = sb_session_id s
     \<and> (\<exists>e i. bt_lookup (sb_breakpoints s) bid = Some e \<and> be_phase e = BhArmed
          \<and> require_advanced_stop (be_stop_token e) stop = Inr () \<and> sb_next_operation_id s = Some i
          \<and> plan = PlRestore (byte_plan_of i s stop (be_breakpoint e) INT3_OPCODE (be_original_byte e))
          \<and> t = planned i plan (PtRestore bid) s)"
  unfolding sb_plan_restore_after_hit_def
  by (auto simp: and_then_Inr_iff sm_defs allocate_Inr plan_slot planned_def byte_plan_of_def
      sb_require_breakpoint_def require_phase_def)

lemma plan_rearm_Inr:
  "sb_plan_rearm_after_single_step bid s = (Inr plan, t) \<longleftrightarrow>
     idle s
     \<and> (\<exists>e i stop. bt_lookup (sb_breakpoints s) bid = Some e \<and> be_phase e = BhReadyToRearm
          \<and> be_single_step_stop_token e = Some stop \<and> sb_next_operation_id s = Some i
          \<and> plan = PlRearm (byte_plan_of i s stop (be_breakpoint e) (be_original_byte e) INT3_OPCODE)
          \<and> t = planned i plan (PtRearm bid) s)"
  unfolding sb_plan_rearm_after_single_step_def
  by (auto simp: and_then_Inr_iff sm_defs allocate_Inr plan_slot planned_def byte_plan_of_def
      sb_require_breakpoint_def require_phase_def)

lemma plan_remove_Inr:
  "sb_plan_remove bid stop s = (Inr plan, t) \<longleftrightarrow>
     idle s \<and> tk_session_id (sk_state stop) = sb_session_id s
     \<and> (\<exists>e i. bt_lookup (sb_breakpoints s) bid = Some e \<and> be_phase e = BhArmed
          \<and> require_current_or_advanced_stop (be_stop_token e) stop = Inr () \<and> sb_next_operation_id s = Some i
          \<and> plan = PlRemove (byte_plan_of i s stop (be_breakpoint e) INT3_OPCODE (be_original_byte e))
          \<and> t = planned i plan (PtRemove bid) s)"
  unfolding sb_plan_remove_def
  by (auto simp: and_then_Inr_iff sm_defs allocate_Inr plan_slot planned_def byte_plan_of_def
      sb_require_breakpoint_def require_phase_def)

lemmas plan_Inr = plan_arm_Inr plan_restore_Inr plan_rearm_Inr plan_remove_Inr

text \<open>A plan that is refused changes nothing.\<close>

lemma plan_refused:
  "sb_plan_arm stop b original persistence s = (Inl x, t) \<Longrightarrow> t = s"
  "sb_plan_restore_after_hit bid stop s = (Inl x, t) \<Longrightarrow> t = s"
  "sb_plan_rearm_after_single_step bid s = (Inl x, t) \<Longrightarrow> t = s"
  "sb_plan_remove bid stop s = (Inl x, t) \<Longrightarrow> t = s"
  unfolding sb_plan_arm_def sb_plan_restore_after_hit_def sb_plan_rearm_after_single_step_def sb_plan_remove_def
  by (auto simp: and_then_Inl_iff sm_defs allocate_Inr allocate_Inl plan_slot)

lemma poison_run:
  "sb_poison rejection received s = (Inl (SbAcknowledgementRejected rejection),
     s\<lparr>sb_poison_evidence := Some \<lparr>pz_rejection = rejection, pz_received = received,
        pz_cleanup = sb_current_cleanup s\<rparr>\<rparr>)"
  by (simp add: sb_poison_def and_then_def sm_defs)

section \<open>Acknowledgements\<close>

text \<open>The one report that a plan can be acknowledged with.\<close>

definition success_report :: "action_plan \<Rightarrow> action_acknowledgement" where
  "success_report plan = (let p = plan_bytes plan in
     \<lparr>aq_action = plan_action plan, aq_operation_id = yp_operation_id p, aq_session_id = yp_session_id p,
      aq_stop_token = yp_stop_token p, aq_breakpoint = yp_breakpoint p,
      aq_expected_byte = yp_expected_byte p, aq_replacement_byte = yp_replacement_byte p\<rparr>)"

definition poisoned_with ::
    "acknowledgement_rejection \<Rightarrow> breakpoint_acknowledgement \<Rightarrow> software_breakpoints \<Rightarrow> software_breakpoints" where
  "poisoned_with rejection received s = s\<lparr>sb_poison_evidence := Some
     \<lparr>pz_rejection = rejection, pz_received = received, pz_cleanup = sb_current_cleanup s\<rparr>\<rparr>"

lemma poison_eq: "sb_poison r a s = (Inl (SbAcknowledgementRejected r), poisoned_with r a s)"
  by (simp add: poison_run poisoned_with_def)

lemma ack_exact:
  assumes "sb_poison_evidence s = None" "sb_pending s = Some p" "a = success_report (po_plan p)"
  shows "sb_acknowledge_success a s = sb_apply_transition (plan_bytes (po_plan p)) (po_transition p)
     (s\<lparr>sb_pending := None, sb_last_acknowledged_operation := Some (plan_operation_id (po_plan p))\<rparr>)"
  using assms
  by (simp add: sb_acknowledge_success_def sb_is_poisoned_def Let_def success_report_def and_then_def sm_defs
      plan_operation_id_def)

lemma ack_mismatch:
  assumes "sb_poison_evidence s = None" "\<And>p. sb_pending s = Some p \<Longrightarrow> a \<noteq> success_report (po_plan p)"
  shows "\<exists>r. sb_acknowledge_success a s = (Inl (SbAcknowledgementRejected r), poisoned_with r (AkAction a) s)"
proof (cases "sb_pending s")
  case None
  then show ?thesis
    using assms(1) by (simp add: sb_acknowledge_success_def sb_is_poisoned_def poison_eq)
next
  case (Some p)
  have "\<not> (aq_operation_id a = yp_operation_id (plan_bytes (po_plan p))
     \<and> aq_session_id a = yp_session_id (plan_bytes (po_plan p))
     \<and> aq_stop_token a = yp_stop_token (plan_bytes (po_plan p))
     \<and> aq_action a = plan_action (po_plan p) \<and> aq_breakpoint a = yp_breakpoint (plan_bytes (po_plan p))
     \<and> aq_expected_byte a = yp_expected_byte (plan_bytes (po_plan p))
     \<and> aq_replacement_byte a = yp_replacement_byte (plan_bytes (po_plan p)))"
    using assms(2) [OF Some] by (auto simp: success_report_def Let_def)
  then show ?thesis
    using assms(1) Some
    by (auto simp: sb_acknowledge_success_def sb_is_poisoned_def poison_eq Let_def)
qed

lemma ack_poisoned: "sb_poison_evidence s \<noteq> None \<Longrightarrow> sb_acknowledge_success a s = (Inl SbPoisoned, s)"
  by (simp add: sb_acknowledge_success_def sb_is_poisoned_def sm_defs)

lemma step_ack_poisoned: "sb_poison_evidence s \<noteq> None \<Longrightarrow> sb_acknowledge_single_step a s = (Inl SbPoisoned, s)"
  by (simp add: sb_acknowledge_single_step_def sb_is_poisoned_def sm_defs)

text \<open>An accepted single-step report makes the awaiting entry ready to be armed again.\<close>

definition stepped_entry :: "single_step_acknowledgement \<Rightarrow> breakpoint_entry \<Rightarrow> breakpoint_entry" where
  "stepped_entry a e =
     e\<lparr>be_phase := BhReadyToRearm, be_single_step_stop_token := Some (sq_stepped_stop_token a)\<rparr>"

lemma step_ack_rejected_or_updates:
  assumes "sb_poison_evidence s = None"
  shows "(\<exists>r. sb_acknowledge_single_step a s =
         (Inl (SbAcknowledgementRejected r), poisoned_with r (AkSingleStep a) s))
    \<or> sb_pending s = None
      \<and> (\<exists>e. bt_lookup (sb_breakpoints s) (sq_breakpoint_id a) = Some e \<and> be_phase e = BhAwaitingSingleStep)
      \<and> sb_acknowledge_single_step a s = sb_update_entry (sq_breakpoint_id a) (stepped_entry a) s"
  using assms
  by (cases "bt_lookup (sb_breakpoints s) (sq_breakpoint_id a)")
    (auto simp: sb_acknowledge_single_step_def sb_is_poisoned_def poison_eq Let_def stepped_entry_def [abs_def])

lemma step_ack_cases:
  assumes "sb_poison_evidence s = None"
  obtains (accepted) e where "bt_lookup (sb_breakpoints s) (sq_breakpoint_id a) = Some e"
      "be_phase e = BhAwaitingSingleStep" "idle s"
      "sb_acknowledge_single_step a s =
         (Inr (), s\<lparr>sb_breakpoints := bt_put (sq_breakpoint_id a) (stepped_entry a e) (sb_breakpoints s)\<rparr>)"
  | (rejected) r where "sb_acknowledge_single_step a s =
         (Inl (SbAcknowledgementRejected r), poisoned_with r (AkSingleStep a) s)"
  using step_ack_rejected_or_updates [OF assms, of a] assms
  by (auto simp: sb_update_entry_def idle_def)

section \<open>The invariant of the planner\<close>

type_synonym breakpoint_table = "(breakpoint_id, breakpoint_entry) btree_map"

abbreviation entry_address :: "breakpoint_entry \<Rightarrow> memory_address" where
  "entry_address e \<equiv> bp_address (be_breakpoint e)"

definition entry_ok :: "breakpoint_id \<Rightarrow> breakpoint_entry \<Rightarrow> bool" where
  "entry_ok i e \<longleftrightarrow> bp_id (be_breakpoint e) = i \<and> be_original_byte e \<noteq> INT3_OPCODE
     \<and> bp_kind (be_breakpoint e) = BkSoftware
     \<and> (be_phase e = BhReadyToRearm \<longrightarrow> be_single_step_stop_token e \<noteq> None)"

definition table_ok :: "breakpoint_table \<Rightarrow> bool" where
  "table_ok m \<longleftrightarrow> bt_sorted m \<and> (\<forall>i e. bt_lookup m i = Some e \<longrightarrow> entry_ok i e)
     \<and> (\<forall>i j e f. bt_lookup m i = Some e \<longrightarrow> bt_lookup m j = Some f \<longrightarrow>
          entry_address e = entry_address f \<longrightarrow> i = j)"

definition fresh_address :: "memory_address \<Rightarrow> breakpoint_table \<Rightarrow> bool" where
  "fresh_address a m \<longleftrightarrow> (\<forall>i e. bt_lookup m i = Some e \<longrightarrow> entry_address e \<noteq> a)"

text \<open>The plan and the table transition that were reserved together describe the same byte.\<close>

definition restores :: "breakpoint_table \<Rightarrow> byte_plan \<Rightarrow> breakpoint_id \<Rightarrow> bool" where
  "restores m y i \<longleftrightarrow> (\<exists>e. bt_lookup m i = Some e \<and> be_phase e = BhArmed \<and> yp_breakpoint y = be_breakpoint e
     \<and> yp_expected_byte y = INT3_OPCODE \<and> yp_replacement_byte y = be_original_byte e)"

definition pending_ok :: "software_breakpoints \<Rightarrow> pending_operation \<Rightarrow> bool" where
  "pending_ok s p \<longleftrightarrow> (let m = sb_breakpoints s in case (po_plan p, po_transition p) of
     (PlArm y, PtArm e) \<Rightarrow> be_breakpoint e = yp_breakpoint y \<and> be_original_byte e = yp_expected_byte y
       \<and> yp_replacement_byte y = INT3_OPCODE \<and> be_phase e = BhArmed
       \<and> entry_ok (bp_id (be_breakpoint e)) e \<and> bt_lookup m (bp_id (be_breakpoint e)) = None
       \<and> fresh_address (entry_address e) m \<and> length m < sb_capacity s
   | (PlRestore y, PtRestore i) \<Rightarrow> restores m y i
   | (PlRemove y, PtRemove i) \<Rightarrow> restores m y i
   | (PlRearm y, PtRearm i) \<Rightarrow> (\<exists>e. bt_lookup m i = Some e \<and> be_phase e = BhReadyToRearm
       \<and> yp_breakpoint y = be_breakpoint e \<and> yp_expected_byte y = be_original_byte e
       \<and> yp_replacement_byte y = INT3_OPCODE)
   | _ \<Rightarrow> False)"

lemma pending_ok_cases:
  assumes "pending_ok s p"
  obtains (arm) y e where "p = \<lparr>po_plan = PlArm y, po_transition = PtArm e\<rparr>"
      "be_breakpoint e = yp_breakpoint y" "be_original_byte e = yp_expected_byte y"
      "yp_replacement_byte y = INT3_OPCODE" "be_phase e = BhArmed" "entry_ok (bp_id (be_breakpoint e)) e"
      "bt_lookup (sb_breakpoints s) (bp_id (be_breakpoint e)) = None"
      "fresh_address (entry_address e) (sb_breakpoints s)" "length (sb_breakpoints s) < sb_capacity s"
  | (restore) y i where "p = \<lparr>po_plan = PlRestore y, po_transition = PtRestore i\<rparr>" "restores (sb_breakpoints s) y i"
  | (remove) y i where "p = \<lparr>po_plan = PlRemove y, po_transition = PtRemove i\<rparr>" "restores (sb_breakpoints s) y i"
  | (rearm) y i e where "p = \<lparr>po_plan = PlRearm y, po_transition = PtRearm i\<rparr>"
      "bt_lookup (sb_breakpoints s) i = Some e" "be_phase e = BhReadyToRearm" "yp_breakpoint y = be_breakpoint e"
      "yp_expected_byte y = be_original_byte e" "yp_replacement_byte y = INT3_OPCODE"
  using assms
  by (cases p; cases "po_plan p"; cases "po_transition p") (auto simp: pending_ok_def Let_def)

definition sb_inv :: "software_breakpoints \<Rightarrow> bool" where
  "sb_inv s \<longleftrightarrow> table_ok (sb_breakpoints s) \<and> length (sb_breakpoints s) \<le> sb_capacity s
     \<and> sb_capacity s \<le> MAX_SOFTWARE_BREAKPOINTS
     \<and> (\<forall>p. sb_pending s = Some p \<longrightarrow> pending_ok s p)
     \<and> (\<forall>z. sb_poison_evidence s = Some z \<longrightarrow> pz_cleanup z = sb_current_cleanup s)"

lemma table_ok_sorted: "table_ok m \<Longrightarrow> bt_sorted m"
  by (simp add: table_ok_def)

lemma table_unique:
  "table_ok m \<Longrightarrow> bt_lookup m i = Some e \<Longrightarrow> bt_lookup m j = Some f \<Longrightarrow>
    entry_address e = entry_address f \<Longrightarrow> i = j"
  unfolding table_ok_def by blast

lemma table_ok_put:
  assumes "table_ok m" "entry_ok i e" "\<And>j f. bt_lookup m j = Some f \<Longrightarrow> j \<noteq> i \<Longrightarrow> entry_address f \<noteq> entry_address e"
  shows "table_ok (bt_put i e m)"
  using assms unfolding table_ok_def
  by (auto simp: tm.lookup_put tm.invar_put split: if_splits) metis+

lemma table_ok_update:
  assumes "table_ok m" "bt_lookup m i = Some e" "be_breakpoint f = be_breakpoint e" "entry_ok i f"
  shows "table_ok (bt_put i f m)"
  using assms by (intro table_ok_put) (auto simp: table_ok_def)

lemma table_ok_remove: "table_ok m \<Longrightarrow> table_ok (bt_remove i m)"
  unfolding table_ok_def by (auto simp: tm.lookup_remove tm.invar_remove split: if_splits)

text \<open>The table after an exact report of the pending operation.\<close>

definition awaiting_entry :: "byte_plan \<Rightarrow> breakpoint_entry \<Rightarrow> breakpoint_entry" where
  "awaiting_entry y e = e\<lparr>be_phase := BhAwaitingSingleStep, be_stop_token := yp_stop_token y,
     be_restore_operation_id := Some (yp_operation_id y), be_single_step_stop_token := None\<rparr>"

definition rearmed_entry :: "byte_plan \<Rightarrow> breakpoint_entry \<Rightarrow> breakpoint_entry" where
  "rearmed_entry y e = e\<lparr>be_phase := BhArmed, be_stop_token := yp_stop_token y,
     be_restore_operation_id := None, be_single_step_stop_token := None\<rparr>"

definition next_table :: "pending_operation \<Rightarrow> breakpoint_table \<Rightarrow> breakpoint_table" where
  "next_table p m = (let y = plan_bytes (po_plan p) in case po_transition p of
     PtArm e \<Rightarrow> bt_put (bp_id (be_breakpoint e)) e m
   | PtRestore i \<Rightarrow> (case bt_lookup m i of None \<Rightarrow> m
       | Some e \<Rightarrow> if be_persistence e = Persistent then bt_put i (awaiting_entry y e) m else bt_remove i m)
   | PtRearm i \<Rightarrow> (case bt_lookup m i of None \<Rightarrow> m | Some e \<Rightarrow> bt_put i (rearmed_entry y e) m)
   | PtRemove i \<Rightarrow> bt_remove i m)"

lemma apply_transition_run:
  assumes "pending_ok s p" "sb_breakpoints t = sb_breakpoints s"
  shows "\<exists>r. sb_apply_transition (plan_bytes (po_plan p)) (po_transition p) t =
     (Inr r, t\<lparr>sb_breakpoints := next_table p (sb_breakpoints s)\<rparr>)"
  using assms(1)
proof (cases rule: pending_ok_cases)
  case (restore y i)
  then obtain e where "bt_lookup (sb_breakpoints s) i = Some e" by (auto simp: restores_def)
  then show ?thesis
    using restore assms(2)
    by (cases "be_persistence e") (simp_all add: sb_apply_transition_def next_table_def and_then_def sm_defs
        sb_update_entry_def awaiting_entry_def)
qed (simp_all add: assms(2) sb_apply_transition_def next_table_def and_then_def sm_defs sb_update_entry_def
    rearmed_entry_def)

lemma ack_success_run:
  assumes "sb_inv s" "sb_poison_evidence s = None" "sb_pending s = Some p"
  shows "\<exists>r. sb_acknowledge_success (success_report (po_plan p)) s =
     (Inr r, s\<lparr>sb_pending := None, sb_last_acknowledged_operation := Some (plan_operation_id (po_plan p)),
        sb_breakpoints := next_table p (sb_breakpoints s)\<rparr>)"
proof -
  have "pending_ok s p" using assms by (simp add: sb_inv_def)
  from apply_transition_run [OF this, of "s\<lparr>sb_pending := None,
      sb_last_acknowledged_operation := Some (plan_operation_id (po_plan p))\<rparr>"]
  show ?thesis by (simp add: ack_exact [OF assms(2,3)])
qed

lemma entry_ok_variants:
  "entry_ok i e \<Longrightarrow> entry_ok i (awaiting_entry y e)" "entry_ok i e \<Longrightarrow> entry_ok i (rearmed_entry y e)"
  "entry_ok i e \<Longrightarrow> entry_ok i (stepped_entry a e)"
  by (simp_all add: entry_ok_def awaiting_entry_def rearmed_entry_def stepped_entry_def)

lemma variant_breakpoint [simp]:
  "be_breakpoint (awaiting_entry y e) = be_breakpoint e" "be_breakpoint (rearmed_entry y e) = be_breakpoint e"
  "be_breakpoint (stepped_entry a e) = be_breakpoint e"
  "be_original_byte (awaiting_entry y e) = be_original_byte e" "be_original_byte (rearmed_entry y e) = be_original_byte e"
  "be_original_byte (stepped_entry a e) = be_original_byte e"
  "be_phase (awaiting_entry y e) = BhAwaitingSingleStep" "be_phase (rearmed_entry y e) = BhArmed"
  "be_phase (stepped_entry a e) = BhReadyToRearm"
  by (simp_all add: awaiting_entry_def rearmed_entry_def stepped_entry_def)

lemma next_table_ok:
  assumes "table_ok (sb_breakpoints s)" "pending_ok s p" "length (sb_breakpoints s) \<le> sb_capacity s"
  shows "table_ok (next_table p (sb_breakpoints s)) \<and> length (next_table p (sb_breakpoints s)) \<le> sb_capacity s"
proof -
  let ?m = "sb_breakpoints s"
  have sorted: "bt_sorted ?m" by (rule table_ok_sorted [OF assms(1)])
  have entry: "entry_ok i e" if "bt_lookup ?m i = Some e" for i e
    using assms(1) that by (simp add: table_ok_def)
  have upd: "table_ok (bt_put i f ?m) \<and> length (bt_put i f ?m) \<le> sb_capacity s"
    if "bt_lookup ?m i = Some e" "be_breakpoint f = be_breakpoint e" "entry_ok i f" for i e f
    using table_ok_update [OF assms(1) that] tm.size_put_present [OF sorted that(1)] assms(3) by simp
  have rem: "table_ok (bt_remove i ?m) \<and> length (bt_remove i ?m) \<le> sb_capacity s" for i
    using table_ok_remove [OF assms(1)] tm.size_remove [OF sorted, of i] assms(3) by simp
  show ?thesis
    using assms(2)
  proof (cases rule: pending_ok_cases)
    case (arm y e)
    then have "table_ok (bt_put (bp_id (be_breakpoint e)) e ?m)"
      by (intro table_ok_put [OF assms(1)]) (auto simp: fresh_address_def)
    then show ?thesis
      using arm tm.size_put_fresh [OF sorted] by (simp add: next_table_def)
  next
    case (restore y i)
    then obtain e where e: "bt_lookup ?m i = Some e" by (auto simp: restores_def)
    show ?thesis
      using restore rem upd [OF e, of "awaiting_entry y e"] entry_ok_variants(1) [OF entry [OF e]]
      by (simp add: next_table_def e)
  next
    case (remove y i)
    then show ?thesis using rem by (simp add: next_table_def)
  next
    case (rearm y i e)
    then show ?thesis
      using upd [OF rearm(2), of "rearmed_entry y e"] entry_ok_variants(2) [OF entry [OF rearm(2)]]
      by (simp add: next_table_def)
  qed
qed

lemma fresh_values:
  "bt_sorted m \<Longrightarrow> (\<forall>e \<in> set (bt_values m). entry_address e \<noteq> a) \<longleftrightarrow> fresh_address a m"
  by (auto simp: fresh_address_def bt_values_lookup) blast

lemma pending_ok_cong:
  "sb_breakpoints t = sb_breakpoints s \<Longrightarrow> sb_capacity t = sb_capacity s \<Longrightarrow> pending_ok t p = pending_ok s p"
  by (simp only: pending_ok_def)

lemma sb_inv_planned:
  assumes "sb_inv s" "idle s" "pending_ok s \<lparr>po_plan = plan, po_transition = tr\<rparr>"
  shows "sb_inv (planned i plan tr s)"
  using assms pending_ok_cong [of "planned i plan tr s" s] by (simp add: sb_inv_def planned_def idle_def)

lemma plan_pending_ok:
  assumes "sb_inv s"
  shows "sb_plan_arm stop b original persistence s = (Inr plan, t) \<Longrightarrow> sb_inv t"
    "sb_plan_restore_after_hit bid stop s = (Inr plan, t) \<Longrightarrow> sb_inv t"
    "sb_plan_rearm_after_single_step bid s = (Inr plan, t) \<Longrightarrow> sb_inv t"
    "sb_plan_remove bid stop s = (Inr plan, t) \<Longrightarrow> sb_inv t"
proof -
  have sorted: "bt_sorted (sb_breakpoints s)" using assms by (simp add: sb_inv_def table_ok_def)
  show "sb_inv t" if "sb_plan_arm stop b original persistence s = (Inr plan, t)"
    using that assms
    by (auto simp: plan_arm_Inr fresh_values [OF sorted] intro!: sb_inv_planned)
      (auto simp: pending_ok_def armed_entry_def byte_plan_of_def entry_ok_def)
  show "sb_inv t" if "sb_plan_restore_after_hit bid stop s = (Inr plan, t)"
    using that assms
    by (auto simp: plan_restore_Inr intro!: sb_inv_planned)
      (auto simp: pending_ok_def byte_plan_of_def restores_def)
  show "sb_inv t" if "sb_plan_rearm_after_single_step bid s = (Inr plan, t)"
    using that assms
    by (auto simp: plan_rearm_Inr intro!: sb_inv_planned) (auto simp: pending_ok_def byte_plan_of_def)
  show "sb_inv t" if "sb_plan_remove bid stop s = (Inr plan, t)"
    using that assms
    by (auto simp: plan_remove_Inr intro!: sb_inv_planned)
      (auto simp: pending_ok_def byte_plan_of_def restores_def)
qed

lemma poisoned_fields [simp]:
  "sb_breakpoints (poisoned_with r a s) = sb_breakpoints s" "sb_pending (poisoned_with r a s) = sb_pending s"
  "sb_capacity (poisoned_with r a s) = sb_capacity s" "sb_session_id (poisoned_with r a s) = sb_session_id s"
  "sb_current_cleanup (poisoned_with r a s) = sb_current_cleanup s"
  "sb_poison_evidence (poisoned_with r a s) = Some \<lparr>pz_rejection = r, pz_received = a, pz_cleanup = sb_current_cleanup s\<rparr>"
  by (simp_all add: poisoned_with_def sb_current_cleanup_def)

lemma sb_inv_poisoned: "sb_inv s \<Longrightarrow> sb_inv (poisoned_with r a s)"
  using pending_ok_cong [of "poisoned_with r a s" s] by (simp add: sb_inv_def)

lemma sb_inv_acknowledged:
  assumes "sb_inv s" "sb_poison_evidence s = None" "sb_pending s = Some p"
  shows "sb_inv (s\<lparr>sb_pending := None, sb_last_acknowledged_operation := i,
     sb_breakpoints := next_table p (sb_breakpoints s)\<rparr>)"
  using assms next_table_ok [of s p] by (simp add: sb_inv_def)

lemma sb_inv_stepped:
  assumes "sb_inv s" "idle s" "bt_lookup (sb_breakpoints s) i = Some e"
  shows "sb_inv (s\<lparr>sb_breakpoints := bt_put i (stepped_entry a e) (sb_breakpoints s)\<rparr>)"
proof -
  have t: "table_ok (sb_breakpoints s)" using assms(1) by (simp add: sb_inv_def)
  then have "table_ok (bt_put i (stepped_entry a e) (sb_breakpoints s))"
    using assms(3) by (intro table_ok_update [OF t assms(3)]) (auto simp: table_ok_def intro: entry_ok_variants)
  then show ?thesis
    using assms tm.size_put_present [OF table_ok_sorted [OF t] assms(3)] by (simp add: sb_inv_def idle_def)
qed

section \<open>Planner and memory\<close>

text \<open>
  A world is a planner, the memory of the debuggee, and whether the backend has performed the
  pending compare-and-replace.  Inputs are the calls of the planner, the backend's work, and its
  reports; a report may be anything, except that the exact success report of the pending plan is
  made only for work that was performed.
\<close>

record breakpoint_world =
  bw_machine :: software_breakpoints
  bw_memory :: "memory_address \<Rightarrow> u8"
  bw_performed :: bool

datatype (plugins only: code size) breakpoint_input =
    BiArm stop_token breakpoint_spec u8 breakpoint_persistence
  | BiRestore breakpoint_id stop_token
  | BiRearm breakpoint_id
  | BiRemove breakpoint_id stop_token
  | BiStepped single_step_acknowledgement
  | BiPerform
  | BiReport action_acknowledgement

definition bw_plan :: "action_plan breakpoint_op \<Rightarrow> breakpoint_world \<Rightarrow> breakpoint_world" where
  "bw_plan m w = (case m (bw_machine w) of
     (Inl _, t) \<Rightarrow> w\<lparr>bw_machine := t\<rparr>
   | (Inr _, t) \<Rightarrow> w\<lparr>bw_machine := t, bw_performed := False\<rparr>)"

definition bw_perform :: "breakpoint_world \<Rightarrow> breakpoint_world" where
  "bw_perform w = (case sb_pending (bw_machine w) of
     None \<Rightarrow> w
   | Some p \<Rightarrow> let y = plan_bytes (po_plan p); a = bp_address (yp_breakpoint y) in
       if \<not> bw_performed w \<and> bw_memory w a = yp_expected_byte y
       then w\<lparr>bw_memory := (bw_memory w)(a := yp_replacement_byte y), bw_performed := True\<rparr>
       else w)"

definition bw_exec :: "breakpoint_input \<Rightarrow> breakpoint_world \<Rightarrow> breakpoint_world" where
  "bw_exec i w = (case i of
     BiArm stop b original persistence \<Rightarrow> bw_plan (sb_plan_arm stop b original persistence) w
   | BiRestore bid stop \<Rightarrow> bw_plan (sb_plan_restore_after_hit bid stop) w
   | BiRearm bid \<Rightarrow> bw_plan (sb_plan_rearm_after_single_step bid) w
   | BiRemove bid stop \<Rightarrow> bw_plan (sb_plan_remove bid stop) w
   | BiStepped a \<Rightarrow> w\<lparr>bw_machine := snd (sb_acknowledge_single_step a (bw_machine w))\<rparr>
   | BiPerform \<Rightarrow> bw_perform w
   | BiReport a \<Rightarrow> w\<lparr>bw_machine := snd (sb_acknowledge_success a (bw_machine w))\<rparr>)"

definition honest :: "breakpoint_input \<Rightarrow> breakpoint_world \<Rightarrow> bool" where
  "honest i w \<longleftrightarrow> (case (i, sb_pending (bw_machine w)) of
     (BiReport a, Some p) \<Rightarrow> a = success_report (po_plan p) \<longrightarrow> bw_performed w
   | _ \<Rightarrow> True)"

inductive bw_step :: "breakpoint_world \<Rightarrow> breakpoint_world \<Rightarrow> bool" where
  call: "honest i w \<Longrightarrow> bw_step w (bw_exec i w)"

definition bw_initial :: "(memory_address \<Rightarrow> u8) \<Rightarrow> breakpoint_world \<Rightarrow> bool" where
  "bw_initial original w \<longleftrightarrow> (\<exists>sid capacity s. sb_with_capacity sid capacity = Inr s
     \<and> w = \<lparr>bw_machine = s, bw_memory = original, bw_performed = False\<rparr>)"

text \<open>The address of an armed entry, and the byte that the planner predicts for an address.\<close>

definition planted :: "breakpoint_table \<Rightarrow> memory_address \<Rightarrow> bool" where
  "planted m a \<longleftrightarrow> (\<exists>i e. bt_lookup m i = Some e \<and> be_phase e = BhArmed \<and> entry_address e = a)"

abbreviation plan_address :: "pending_operation \<Rightarrow> memory_address" where
  "plan_address p \<equiv> bp_address (yp_breakpoint (plan_bytes (po_plan p)))"

definition predicted :: "(memory_address \<Rightarrow> u8) \<Rightarrow> breakpoint_world \<Rightarrow> memory_address \<Rightarrow> u8" where
  "predicted original w a = (case sb_pending (bw_machine w) of
     Some p \<Rightarrow> if bw_performed w \<and> plan_address p = a then yp_replacement_byte (plan_bytes (po_plan p))
       else if planted (sb_breakpoints (bw_machine w)) a then INT3_OPCODE else original a
   | None \<Rightarrow> if planted (sb_breakpoints (bw_machine w)) a then INT3_OPCODE else original a)"

definition bw_inv :: "(memory_address \<Rightarrow> u8) \<Rightarrow> breakpoint_world \<Rightarrow> bool" where
  "bw_inv original w \<longleftrightarrow> sb_inv (bw_machine w) \<and> bw_memory w = predicted original w
     \<and> (\<forall>i e. bt_lookup (sb_breakpoints (bw_machine w)) i = Some e \<longrightarrow>
          be_original_byte e = original (entry_address e))
     \<and> (\<forall>p y. sb_pending (bw_machine w) = Some p \<longrightarrow> po_plan p = PlArm y \<longrightarrow> bw_performed w \<longrightarrow>
          original (plan_address p) = yp_expected_byte y)"

text \<open>Acknowledging moves exactly the byte of the plan.\<close>

lemma planted_put:
  assumes "table_ok m" "entry_ok i f" "\<And>e. bt_lookup m i = Some e \<Longrightarrow> entry_address e = entry_address f"
    and "\<And>j e. bt_lookup m j = Some e \<Longrightarrow> j \<noteq> i \<Longrightarrow> entry_address e \<noteq> entry_address f"
  shows "planted (bt_put i f m) x \<longleftrightarrow>
    (if x = entry_address f then be_phase f = BhArmed else planted m x)"
  using assms unfolding planted_def
  by (auto simp: tm.lookup_put [OF table_ok_sorted [OF assms(1)]] split: if_splits) metis+

lemma planted_update:
  assumes "table_ok m" "bt_lookup m i = Some e" "be_breakpoint f = be_breakpoint e" "entry_ok i f"
  shows "planted (bt_put i f m) x \<longleftrightarrow> (if x = entry_address e then be_phase f = BhArmed else planted m x)"
proof -
  have "entry_address g \<noteq> entry_address f" if "bt_lookup m j = Some g" "j \<noteq> i" for j g
    using table_unique [OF assms(1,2) that(1)] assms(3) that(2) by auto
  then show ?thesis using planted_put [OF assms(1,4), of x] assms(2,3) by simp
qed

lemma planted_remove:
  assumes "table_ok m" "bt_lookup m i = Some e"
  shows "planted (bt_remove i m) x \<longleftrightarrow> x \<noteq> entry_address e \<and> planted m x"
proof -
  have look: "bt_lookup (bt_remove i m) j = (if j = i then None else bt_lookup m j)" for j
    using tm.lookup_remove [OF table_ok_sorted [OF assms(1)], of i] by simp
  show ?thesis
  proof
    assume "planted (bt_remove i m) x"
    then obtain j f where j: "j \<noteq> i" "bt_lookup m j = Some f" "be_phase f = BhArmed" "entry_address f = x"
      unfolding planted_def look by (auto split: if_splits)
    then have "x \<noteq> entry_address e" using table_unique [OF assms(1,2) j(2)] by auto
    then show "x \<noteq> entry_address e \<and> planted m x" using j by (auto simp: planted_def)
  next
    assume r: "x \<noteq> entry_address e \<and> planted m x"
    then obtain j f where j: "bt_lookup m j = Some f" "be_phase f = BhArmed" "entry_address f = x"
      by (auto simp: planted_def)
    then have "j \<noteq> i" using r assms(2) by auto
    then show "planted (bt_remove i m) x"
      unfolding planted_def look using j by (intro exI [of _ j] exI [of _ f]) simp
  qed
qed

lemma planted_next:
  assumes "table_ok (sb_breakpoints s)" "pending_ok s p"
  shows "planted (next_table p (sb_breakpoints s)) x \<longleftrightarrow>
    (if x = plan_address p then yp_replacement_byte (plan_bytes (po_plan p)) = INT3_OPCODE
     else planted (sb_breakpoints s) x)"
proof -
  let ?m = "sb_breakpoints s"
  have entry: "entry_ok i e" if "bt_lookup ?m i = Some e" for i e
    using assms(1) that by (simp add: table_ok_def)
  have clear: "planted (next_table p ?m) x \<longleftrightarrow> x \<noteq> entry_address e \<and> planted ?m x"
    if "bt_lookup ?m i = Some e" "po_transition p = PtRestore i \<or> po_transition p = PtRemove i" for i e
    using that(2) planted_remove [OF assms(1) that(1), of x]
      planted_update [OF assms(1) that(1) _ entry_ok_variants(1) [OF entry [OF that(1)]], of "plan_bytes (po_plan p)" x]
    by (elim disjE) (simp_all add: next_table_def that(1))
  have byte: "be_original_byte e \<noteq> INT3_OPCODE" if "bt_lookup ?m i = Some e" for i e
    using entry [OF that] by (simp add: entry_ok_def)
  show ?thesis
    using assms(2)
  proof (cases rule: pending_ok_cases)
    case (arm y e)
    then show ?thesis
      using planted_put [OF assms(1) arm(6), of x] by (simp add: next_table_def fresh_address_def)
  next
    case (restore y i)
    then obtain e where "bt_lookup ?m i = Some e" "yp_breakpoint y = be_breakpoint e"
      "yp_replacement_byte y = be_original_byte e" by (auto simp: restores_def)
    then show ?thesis using clear [of i e] restore byte [of i e] by simp
  next
    case (remove y i)
    then obtain e where "bt_lookup ?m i = Some e" "yp_breakpoint y = be_breakpoint e"
      "yp_replacement_byte y = be_original_byte e" by (auto simp: restores_def)
    then show ?thesis using clear [of i e] remove byte [of i e] by simp
  next
    case (rearm y i e)
    then show ?thesis
      using planted_update [OF assms(1) rearm(2), of "rearmed_entry y e"] entry_ok_variants(2) [OF entry [OF rearm(2)]]
      by (simp add: next_table_def)
  qed
qed

text \<open>Original bytes in the table after an acknowledgement.\<close>

lemma next_table_originals:
  assumes "table_ok (sb_breakpoints s)" "pending_ok s p"
    and "\<And>i e. bt_lookup (sb_breakpoints s) i = Some e \<Longrightarrow> be_original_byte e = original (entry_address e)"
    and "\<And>y. po_plan p = PlArm y \<Longrightarrow> original (plan_address p) = yp_expected_byte y"
    and "bt_lookup (next_table p (sb_breakpoints s)) i = Some e"
  shows "be_original_byte e = original (entry_address e)"
  using assms(2)
proof (cases rule: pending_ok_cases)
  case (arm y f)
  then show ?thesis
    using assms(3,5) assms(4) [of y]
    by (auto simp: next_table_def tm.lookup_put [OF table_ok_sorted [OF assms(1)]] split: if_splits)
next
  case (restore y j)
  then obtain f where "bt_lookup (sb_breakpoints s) j = Some f" by (auto simp: restores_def)
  then show ?thesis
    using restore assms(3,5)
    by (auto simp: next_table_def tm.lookup_put [OF table_ok_sorted [OF assms(1)]]
        tm.lookup_remove [OF table_ok_sorted [OF assms(1)]] split: if_splits)
next
  case (remove y j)
  then show ?thesis
    using assms(3,5) by (auto simp: next_table_def tm.lookup_remove [OF table_ok_sorted [OF assms(1)]] split: if_splits)
next
  case (rearm y j f)
  then show ?thesis
    using assms(3,5) by (auto simp: next_table_def tm.lookup_put [OF table_ok_sorted [OF assms(1)]] split: if_splits)
qed

section \<open>The world's invariant\<close>

lemma bw_inv_initial: "bw_initial original w \<Longrightarrow> bw_inv original w"
  by (auto simp: bw_initial_def sb_with_capacity_def bw_inv_def sb_inv_def table_ok_def predicted_def planted_def
      bt_lookup_def)

lemma bw_inv_plan:
  assumes "bw_inv original w"
    and "\<And>x t. m (bw_machine w) = (Inl x, t) \<Longrightarrow> t = bw_machine w"
    and "\<And>plan t. m (bw_machine w) = (Inr plan, t) \<Longrightarrow> sb_inv t \<and> idle (bw_machine w)
      \<and> (\<exists>i tr. t = planned i plan tr (bw_machine w))"
  shows "bw_inv original (bw_plan m w)"
proof (cases "m (bw_machine w)")
  case (Pair r t)
  show ?thesis
  proof (cases r)
    case (Inl x)
    then show ?thesis using assms(1,2) Pair by (simp add: bw_plan_def)
  next
    case (Inr plan)
    then obtain i tr where t: "sb_inv t" "idle (bw_machine w)" "t = planned i plan tr (bw_machine w)"
      using assms(3) Pair by blast
    then have "sb_breakpoints t = sb_breakpoints (bw_machine w)" "sb_pending (bw_machine w) = None"
      by (simp_all add: planned_def idle_def)
    then show ?thesis
      using assms(1) t(1) Pair Inr t(3)
      by (auto simp: bw_plan_def bw_inv_def predicted_def planned_def)
  qed
qed

lemma bw_inv_perform:
  assumes "bw_inv original w"
  shows "bw_inv original (bw_perform w)"
proof (cases "\<exists>p. sb_pending (bw_machine w) = Some p \<and> \<not> bw_performed w
    \<and> bw_memory w (plan_address p) = yp_expected_byte (plan_bytes (po_plan p))")
  case False
  then have "bw_perform w = w" by (auto simp: bw_perform_def Let_def split: option.splits)
  then show ?thesis using assms by simp
next
  case True
  then obtain p where p: "sb_pending (bw_machine w) = Some p" "\<not> bw_performed w"
    "bw_memory w (plan_address p) = yp_expected_byte (plan_bytes (po_plan p))" by blast
  have arm: "original (plan_address p) = yp_expected_byte y" if "po_plan p = PlArm y" for y
  proof -
    have "pending_ok (bw_machine w) p" using assms p(1) by (simp add: bw_inv_def sb_inv_def)
    then have "\<not> planted (sb_breakpoints (bw_machine w)) (plan_address p)"
      using that by (cases rule: pending_ok_cases) (auto simp: planted_def fresh_address_def)
    then show ?thesis using assms p that by (simp add: bw_inv_def predicted_def)
  qed
  have "bw_perform w = w\<lparr>bw_memory := (bw_memory w)(plan_address p := yp_replacement_byte (plan_bytes (po_plan p))),
      bw_performed := True\<rparr>"
    using p by (simp add: bw_perform_def Let_def)
  then show ?thesis
    using assms p arm by (auto simp: bw_inv_def predicted_def fun_eq_iff)
qed

lemma bw_inv_acknowledged:
  assumes "bw_inv original w" "sb_poison_evidence (bw_machine w) = None" "sb_pending (bw_machine w) = Some p"
    and "bw_performed w"
  shows "bw_inv original (w\<lparr>bw_machine := snd (sb_acknowledge_success (success_report (po_plan p)) (bw_machine w))\<rparr>)"
proof -
  let ?s = "bw_machine w"
  have inv: "sb_inv ?s" using assms(1) by (simp add: bw_inv_def)
  then have t: "table_ok (sb_breakpoints ?s)" and ok: "pending_ok ?s p" using assms(3) by (simp_all add: sb_inv_def)
  obtain r where r: "sb_acknowledge_success (success_report (po_plan p)) ?s =
     (Inr r, ?s\<lparr>sb_pending := None, sb_last_acknowledged_operation := Some (plan_operation_id (po_plan p)),
        sb_breakpoints := next_table p (sb_breakpoints ?s)\<rparr>)"
    using ack_success_run [OF inv assms(2,3)] by blast
  have originals: "be_original_byte e = original (entry_address e)"
    if "bt_lookup (sb_breakpoints ?s) i = Some e" for i e
    using assms(1) that by (simp add: bw_inv_def)
  have arm: "original (plan_address p) = yp_expected_byte y" if "po_plan p = PlArm y" for y
    using assms(1,3,4) that by (simp add: bw_inv_def)
  have byte: "yp_replacement_byte (plan_bytes (po_plan p)) \<noteq> INT3_OPCODE \<Longrightarrow>
      yp_replacement_byte (plan_bytes (po_plan p)) = original (plan_address p)"
    using ok by (cases rule: pending_ok_cases) (auto simp: restores_def originals)
  have "bw_memory w x = (if planted (next_table p (sb_breakpoints ?s)) x then INT3_OPCODE else original x)" for x
    using assms(1,3,4) byte by (simp add: bw_inv_def predicted_def planted_next [OF t ok])
  moreover have "be_original_byte e = original (entry_address e)"
    if "bt_lookup (next_table p (sb_breakpoints ?s)) i = Some e" for i e
    by (rule next_table_originals [OF t ok originals arm that])
  ultimately show ?thesis
    using sb_inv_acknowledged [OF inv assms(2,3)] by (simp add: r bw_inv_def predicted_def fun_eq_iff)
qed

lemma predicted_poisoned [simp]:
  "predicted original (w\<lparr>bw_machine := poisoned_with r a (bw_machine w)\<rparr>) = predicted original w"
  by (auto simp: predicted_def fun_eq_iff split: option.split)

lemma bw_inv_poisoned: "bw_inv original w \<Longrightarrow> bw_inv original (w\<lparr>bw_machine := poisoned_with r a (bw_machine w)\<rparr>)"
  using sb_inv_poisoned by (simp add: bw_inv_def)

lemma bw_inv_report:
  assumes "bw_inv original w" "honest (BiReport a) w"
  shows "bw_inv original (w\<lparr>bw_machine := snd (sb_acknowledge_success a (bw_machine w))\<rparr>)"
proof (cases "sb_poison_evidence (bw_machine w) = None")
  case True
  show ?thesis
  proof (cases "\<exists>p. sb_pending (bw_machine w) = Some p \<and> a = success_report (po_plan p)")
    case exact: True
    then show ?thesis
      using bw_inv_acknowledged [OF assms(1) True] assms(2) by (auto simp: honest_def)
  next
    case False
    then obtain r where "sb_acknowledge_success a (bw_machine w) =
        (Inl (SbAcknowledgementRejected r), poisoned_with r (AkAction a) (bw_machine w))"
      using ack_mismatch [OF True, of a] by blast
    then show ?thesis using bw_inv_poisoned [OF assms(1)] by simp
  qed
qed (simp add: ack_poisoned assms(1))

lemma bw_inv_stepped:
  assumes "bw_inv original w"
  shows "bw_inv original (w\<lparr>bw_machine := snd (sb_acknowledge_single_step a (bw_machine w))\<rparr>)"
proof (cases "sb_poison_evidence (bw_machine w) = None")
  case True
  then show ?thesis
  proof (cases rule: step_ack_cases [of _ a])
    case (accepted e)
    let ?s = "bw_machine w" and ?i = "sq_breakpoint_id a"
    have inv: "sb_inv ?s" and t: "table_ok (sb_breakpoints ?s)" using assms by (simp_all add: bw_inv_def sb_inv_def)
    have "entry_ok ?i (stepped_entry a e)" using t accepted(1) by (auto simp: table_ok_def intro: entry_ok_variants)
    moreover have "\<not> planted (sb_breakpoints ?s) (entry_address e)"
      using accepted(1,2) table_unique [OF t accepted(1)] by (auto simp: planted_def)
    ultimately have "planted (bt_put ?i (stepped_entry a e) (sb_breakpoints ?s)) x = planted (sb_breakpoints ?s) x" for x
      using planted_update [OF t accepted(1), of "stepped_entry a e" x] by simp
    moreover have "be_original_byte f = original (entry_address f)"
      if "bt_lookup (bt_put ?i (stepped_entry a e) (sb_breakpoints ?s)) j = Some f" for j f
      using assms that accepted(1)
      by (auto simp: bw_inv_def tm.lookup_put [OF table_ok_sorted [OF t]] split: if_splits)
    moreover have "sb_pending ?s = None" using accepted(3) by (simp add: idle_def)
    ultimately show ?thesis
      using assms sb_inv_stepped [OF inv accepted(3,1)] by (simp add: accepted(4) bw_inv_def predicted_def fun_eq_iff)
  next
    case (rejected r)
    then show ?thesis using bw_inv_poisoned [OF assms] by simp
  qed
qed (simp add: step_ack_poisoned assms)

lemma plan_takes_slot:
  "sb_plan_arm stop b original persistence s = (Inr plan, t) \<Longrightarrow> idle s \<and> (\<exists>i tr. t = planned i plan tr s)"
  "sb_plan_restore_after_hit bid stop s = (Inr plan, t) \<Longrightarrow> idle s \<and> (\<exists>i tr. t = planned i plan tr s)"
  "sb_plan_rearm_after_single_step bid s = (Inr plan, t) \<Longrightarrow> idle s \<and> (\<exists>i tr. t = planned i plan tr s)"
  "sb_plan_remove bid stop s = (Inr plan, t) \<Longrightarrow> idle s \<and> (\<exists>i tr. t = planned i plan tr s)"
  by (auto simp: plan_Inr)

lemma bw_inv_exec:
  assumes "bw_inv original w" "honest i w"
  shows "bw_inv original (bw_exec i w)"
proof -
  have inv: "sb_inv (bw_machine w)" using assms(1) by (simp add: bw_inv_def)
  note ok = plan_pending_ok [OF inv]
  show ?thesis
  proof (cases i)
    case (BiArm stop b byte persistence)
    have "bw_inv original (bw_plan (sb_plan_arm stop b byte persistence) w)"
      by (rule bw_inv_plan [OF assms(1)]) (blast dest: plan_refused(1) plan_takes_slot(1) ok(1))+
    then show ?thesis by (simp add: bw_exec_def BiArm)
  next
    case (BiRestore bid stop)
    have "bw_inv original (bw_plan (sb_plan_restore_after_hit bid stop) w)"
      by (rule bw_inv_plan [OF assms(1)]) (blast dest: plan_refused(2) plan_takes_slot(2) ok(2))+
    then show ?thesis by (simp add: bw_exec_def BiRestore)
  next
    case (BiRearm bid)
    have "bw_inv original (bw_plan (sb_plan_rearm_after_single_step bid) w)"
      by (rule bw_inv_plan [OF assms(1)]) (blast dest: plan_refused(3) plan_takes_slot(3) ok(3))+
    then show ?thesis by (simp add: bw_exec_def BiRearm)
  next
    case (BiRemove bid stop)
    have "bw_inv original (bw_plan (sb_plan_remove bid stop) w)"
      by (rule bw_inv_plan [OF assms(1)]) (blast dest: plan_refused(4) plan_takes_slot(4) ok(4))+
    then show ?thesis by (simp add: bw_exec_def BiRemove)
  next
    case (BiStepped a)
    then show ?thesis using bw_inv_stepped [OF assms(1)] by (simp add: bw_exec_def)
  next
    case BiPerform
    then show ?thesis using bw_inv_perform [OF assms(1)] by (simp add: bw_exec_def)
  next
    case (BiReport a)
    then show ?thesis using bw_inv_report [OF assms(1)] assms(2) by (simp add: bw_exec_def)
  qed
qed

interpretation bw: reducer "bw_initial original" bw_step "bw_inv original" for original
  by unfold_locales (auto intro: bw_inv_initial bw_inv_exec elim!: bw_step.cases)

text \<open>A poisoned planner stays as it is.\<close>

lemma plans_need_idle:
  assumes "sb_poison_evidence s \<noteq> None"
  shows "sb_plan_arm stop b original persistence s = (Inl SbPoisoned, s)"
    "sb_plan_restore_after_hit bid stop s = (Inl SbPoisoned, s)"
    "sb_plan_rearm_after_single_step bid s = (Inl SbPoisoned, s)"
    "sb_plan_remove bid stop s = (Inl SbPoisoned, s)"
  using assms
  by (auto simp: sb_plan_arm_def sb_plan_restore_after_hit_def sb_plan_rearm_after_single_step_def sb_plan_remove_def
      and_then_def sm_defs sb_require_ready_def sb_require_healthy_and_idle_def sb_is_poisoned_def)

lemma poisoned_exec:
  "sb_poison_evidence (bw_machine w) \<noteq> None \<Longrightarrow> bw_machine (bw_exec i w) = bw_machine w"
  by (cases i) (simp_all add: bw_exec_def bw_plan_def plans_need_idle ack_poisoned step_ack_poisoned bw_perform_def
      Let_def split: option.split)

interpretation poisoned: trap "bw_initial original" bw_step "bw_inv original"
    "\<lambda>w. bw_machine w = s \<and> sb_poison_evidence s \<noteq> None" for original s
  by unfold_locales (auto simp: poisoned_exec elim!: bw_step.cases)

text \<open>Operation numbers only grow.\<close>

definition op_mark :: "software_breakpoints \<Rightarrow> nat" where
  "op_mark s = (case sb_next_operation_id s of None \<Rightarrow> 2 ^ 64 | Some i \<Rightarrow> unat i)"

lemma planned_mark:
  assumes "sb_next_operation_id s = Some i"
  shows "op_mark (planned i plan tr s) = Suc (op_mark s)"
proof (cases "checked_add i 1")
  case None
  then show ?thesis
    using assms unat_bound [of i] by (simp add: op_mark_def planned_def checked_add_def split: if_splits)
next
  case (Some j)
  then show ?thesis
    using assms conjunct2 [OF checked_add_SomeD [OF Some]] Some by (simp add: op_mark_def planned_def)
qed

lemma op_mark_same: "sb_next_operation_id t = sb_next_operation_id s \<Longrightarrow> op_mark t = op_mark s"
  by (simp add: op_mark_def)

lemma plan_mark:
  assumes "\<And>x t. m (bw_machine w) = (Inl x, t) \<Longrightarrow> t = bw_machine w"
    and "\<And>plan t. m (bw_machine w) = (Inr plan, t) \<Longrightarrow>
      \<exists>i tr. sb_next_operation_id (bw_machine w) = Some i \<and> t = planned i plan tr (bw_machine w)"
  shows "op_mark (bw_machine w) \<le> op_mark (bw_machine (bw_plan m w))"
proof (cases "m (bw_machine w)")
  case (Pair r t)
  then show ?thesis
    using assms planned_mark by (cases r) (auto simp: bw_plan_def)
qed

lemma report_keeps_numbers:
  "sb_next_operation_id (snd (sb_acknowledge_success a s)) = sb_next_operation_id s"
  "sb_next_operation_id (snd (sb_acknowledge_single_step b s)) = sb_next_operation_id s"
proof -
  have e: "sb_next_operation_id (snd (sb_update_entry i f t)) = sb_next_operation_id t" for i f t
    by (simp add: sb_update_entry_def sm_defs split: option.split)
  have u: "sb_next_operation_id (snd (and_then (sb_update_entry i f) (\<lambda>_. ok x) t)) = sb_next_operation_id t"
    for i f x t
    using e [of i f t] by (auto simp: and_then_def sm_defs split: prod.split sum.split)
  have "sb_next_operation_id (snd (sb_apply_transition y tr t)) = sb_next_operation_id t" for y tr t
    by (cases tr) (auto simp: sb_apply_transition_def and_then_def [of "modify _"] and_then_def [of "lift_result _"]
        sm_defs ok_or_def u split: option.split breakpoint_persistence.split)
  then show "sb_next_operation_id (snd (sb_acknowledge_success a s)) = sb_next_operation_id s"
    by (auto simp: sb_acknowledge_success_def Let_def poison_run and_then_def [of "modify _"] sm_defs split: option.split)
  show "sb_next_operation_id (snd (sb_acknowledge_single_step b s)) = sb_next_operation_id s"
    by (auto simp: sb_acknowledge_single_step_def Let_def poison_run sm_defs e split: option.split)
qed

lemma plan_numbers:
  "sb_plan_arm stop b original persistence s = (Inr plan, t) \<Longrightarrow>
     \<exists>i tr. sb_next_operation_id s = Some i \<and> t = planned i plan tr s"
  "sb_plan_restore_after_hit bid stop s = (Inr plan, t) \<Longrightarrow>
     \<exists>i tr. sb_next_operation_id s = Some i \<and> t = planned i plan tr s"
  "sb_plan_rearm_after_single_step bid s = (Inr plan, t) \<Longrightarrow>
     \<exists>i tr. sb_next_operation_id s = Some i \<and> t = planned i plan tr s"
  "sb_plan_remove bid stop s = (Inr plan, t) \<Longrightarrow>
     \<exists>i tr. sb_next_operation_id s = Some i \<and> t = planned i plan tr s"
  by (auto simp: plan_Inr)

lemma exec_mark: "op_mark (bw_machine w) \<le> op_mark (bw_machine (bw_exec i w))"
proof (cases i)
  case (BiArm stop b byte persistence)
  show ?thesis
    unfolding bw_exec_def BiArm breakpoint_input.case by (rule plan_mark [OF plan_refused(1) plan_numbers(1)])
next
  case (BiRestore bid stop)
  show ?thesis
    unfolding bw_exec_def BiRestore breakpoint_input.case by (rule plan_mark [OF plan_refused(2) plan_numbers(2)])
next
  case (BiRearm bid)
  show ?thesis
    unfolding bw_exec_def BiRearm breakpoint_input.case by (rule plan_mark [OF plan_refused(3) plan_numbers(3)])
next
  case (BiRemove bid stop)
  show ?thesis
    unfolding bw_exec_def BiRemove breakpoint_input.case by (rule plan_mark [OF plan_refused(4) plan_numbers(4)])
next
  case BiPerform
  have "bw_machine (bw_perform w) = bw_machine w" by (simp add: bw_perform_def Let_def split: option.split)
  then show ?thesis by (simp add: bw_exec_def BiPerform)
qed (simp_all add: bw_exec_def op_mark_def report_keeps_numbers)

interpretation numbers: watermark "bw_initial original" bw_step "bw_inv original" "\<lambda>w. op_mark (bw_machine w)"
  for original
  by unfold_locales (auto simp: exec_mark elim!: bw_step.cases)

end
