(* ===== verification/Breakpoint_Properties.thy ===== *)
theory Breakpoint_Properties
  imports Breakpoint_Laws Protocol_Examples
begin

text \<open>
  What the breakpoint planner promises its session: the memory of the debuggee is predictable from
  the table, the evidence kept for cleanup names every byte that differs from the original, and
  only the exact report of the pending plan advances the table.  A concrete run closes the theory.
\<close>

section \<open>Properties\<close>

text \<open>
  C16. The memory of the debuggee is the original memory with \<open>INT3\<close> at exactly the addresses of
  the armed entries, up to the one byte of a pending plan that the backend has already performed;
  every entry keeps the true original byte of its address; and when the table is empty and nothing
  is pending, the memory is the original one.
\<close>

theorem breakpoint_memory_faithful:
  assumes "reachable (bw_initial original) bw_step w"
  shows "bw_memory w = predicted original w
    \<and> (\<forall>e \<in> set (bt_values (sb_breakpoints (bw_machine w))).
         be_original_byte e = original (bp_address (be_breakpoint e)))
    \<and> (sb_breakpoints (bw_machine w) = [] \<longrightarrow> sb_pending (bw_machine w) = None \<longrightarrow> bw_memory w = original)"
proof -
  have inv: "bw_inv original w" by (rule bw.reachable_inv [OF assms])
  then have sorted: "bt_sorted (sb_breakpoints (bw_machine w))" and mem: "bw_memory w = predicted original w"
    by (simp_all add: bw_inv_def sb_inv_def table_ok_def)
  have "be_original_byte e = original (bp_address (be_breakpoint e))"
    if "e \<in> set (bt_values (sb_breakpoints (bw_machine w)))" for e
    using inv that by (auto simp: bw_inv_def bt_values_lookup [OF sorted])
  moreover have "bw_memory w = original"
    if "sb_breakpoints (bw_machine w) = []" "sb_pending (bw_machine w) = None"
    using mem that by (simp add: predicted_def planted_def bt_lookup_def fun_eq_iff)
  ultimately show ?thesis using mem by blast
qed

lemma snapshot_sel [simp]:
  "bs_breakpoint (entry_snapshot e) = be_breakpoint e" "bs_original_byte (entry_snapshot e) = be_original_byte e"
  "bs_phase (entry_snapshot e) = be_phase e"
  by (simp_all add: entry_snapshot_def)

lemma cleanup_current: "sb_inv s \<Longrightarrow> sb_cleanup_snapshot s = sb_current_cleanup s"
  by (simp add: sb_cleanup_snapshot_def sb_inv_def split: option.split)

text \<open>
  C17. Cleanup evidence is complete, poisoned or not: every byte that differs from the original
  memory is an \<open>INT3\<close>, and it is either the byte of an armed snapshot, which carries the original
  byte, or the byte of the one uncertain arm or rearm, whose expected byte is the original one.
\<close>

theorem cleanup_evidence_complete:
  assumes "reachable (bw_initial original) bw_step w" "bw_memory w a \<noteq> original a"
  shows "bw_memory w a = INT3_OPCODE
    \<and> ((\<exists>b \<in> set (cv_acknowledged_breakpoints (sb_cleanup_snapshot (bw_machine w))).
          bs_phase b = BhArmed \<and> bp_address (bs_breakpoint b) = a \<and> bs_original_byte b = original a)
     \<or> (\<exists>plan. cv_uncertain_operation (sb_cleanup_snapshot (bw_machine w)) = Some plan
          \<and> plan_action plan \<in> {BaArm, BaRearm} \<and> bp_address (yp_breakpoint (plan_bytes plan)) = a
          \<and> yp_expected_byte (plan_bytes plan) = original a))"
proof -
  let ?s = "bw_machine w"
  let ?c = "sb_cleanup_snapshot ?s"
  have inv: "bw_inv original w" by (rule bw.reachable_inv [OF assms(1)])
  then have s: "sb_inv ?s" and sorted: "bt_sorted (sb_breakpoints ?s)"
    by (simp_all add: bw_inv_def sb_inv_def table_ok_def)
  have originals: "be_original_byte e = original (entry_address e)" if "bt_lookup (sb_breakpoints ?s) i = Some e" for i e
    using inv that by (simp add: bw_inv_def)
  have armed: "\<exists>b \<in> set (cv_acknowledged_breakpoints ?c).
      bs_phase b = BhArmed \<and> bp_address (bs_breakpoint b) = a \<and> bs_original_byte b = original a"
    if pl: "planted (sb_breakpoints ?s) a"
  proof -
    obtain i e where e: "bt_lookup (sb_breakpoints ?s) i = Some e" "be_phase e = BhArmed" "entry_address e = a"
      using pl by (auto simp: planted_def)
    then have "e \<in> set (bt_values (sb_breakpoints ?s))" by (auto simp: bt_values_lookup [OF sorted])
    then show ?thesis
      using e originals by (intro bexI [of _ "entry_snapshot e"]) (auto simp: cleanup_current [OF s] sb_current_cleanup_def)
  qed
  show ?thesis
  proof (cases "\<exists>p. sb_pending ?s = Some p \<and> bw_performed w \<and> plan_address p = a")
    case False
    then have "bw_memory w a = (if planted (sb_breakpoints ?s) a then INT3_OPCODE else original a)"
      using inv by (auto simp: bw_inv_def predicted_def split: option.split)
    then show ?thesis using assms(2) armed by (simp split: if_splits)
  next
    case True
    then obtain p where p: "sb_pending ?s = Some p" "bw_performed w" "plan_address p = a" by blast
    then have mem: "bw_memory w a = yp_replacement_byte (plan_bytes (po_plan p))"
      using inv by (simp add: bw_inv_def predicted_def)
    have arm: "original a = yp_expected_byte y" if "po_plan p = PlArm y" for y
      using inv p that by (simp add: bw_inv_def)
    have unc: "cv_uncertain_operation ?c = Some (po_plan p)"
      using p(1) by (simp add: cleanup_current [OF s] sb_current_cleanup_def)
    have "pending_ok ?s p" using s p(1) by (simp add: sb_inv_def)
    then show ?thesis
      using mem assms(2) p(3) unc arm
      by (cases rule: pending_ok_cases) (auto simp: restores_def originals)
  qed
qed

text \<open>
  C18. Only the exact report counts.  A report is accepted exactly when the planner is healthy and
  the report repeats its pending plan field by field; no reachable planner panics on any report; any
  other report freezes the planner with the cleanup evidence of that moment, and a frozen planner
  never changes again.
\<close>

theorem breakpoint_report_exact:
  assumes "reachable (bw_initial original) bw_step w" "sb_acknowledge_success a (bw_machine w) = (r, s)"
  shows "((\<exists>t. r = Inr t) \<longleftrightarrow> sb_poison_evidence (bw_machine w) = None
       \<and> (\<exists>p. sb_pending (bw_machine w) = Some p \<and> a = success_report (po_plan p)))
    \<and> r \<noteq> Inl SbPanic
    \<and> ((\<forall>t. r \<noteq> Inr t) \<longrightarrow> sb_cleanup_snapshot s = sb_cleanup_snapshot (bw_machine w)
         \<and> (bw_step\<^sup>*\<^sup>* (w\<lparr>bw_machine := s\<rparr>) v \<longrightarrow> bw_machine v = s))"
proof -
  let ?s = "bw_machine w"
  have inv: "bw_inv original w" by (rule bw.reachable_inv [OF assms(1)])
  then have s: "sb_inv ?s" by (simp add: bw_inv_def)
  have final: "bw_machine v = t"
    if "sb_poison_evidence t \<noteq> None" "bw_inv original (w\<lparr>bw_machine := t\<rparr>)" "bw_step\<^sup>*\<^sup>* (w\<lparr>bw_machine := t\<rparr>) v" for t
    using poisoned.run_stuck [OF that(3,2), of t] that(1) by simp
  consider (frozen) "sb_poison_evidence ?s \<noteq> None"
    | (exact) p where "sb_poison_evidence ?s = None" "sb_pending ?s = Some p" "a = success_report (po_plan p)"
    | (other) "sb_poison_evidence ?s = None" "\<And>p. sb_pending ?s = Some p \<Longrightarrow> a \<noteq> success_report (po_plan p)"
    by blast
  then show ?thesis
  proof cases
    case frozen
    then have "r = Inl SbPoisoned" "s = ?s" using assms(2) by (simp_all add: ack_poisoned)
    then show ?thesis using frozen final [OF frozen] inv by simp
  next
    case exact
    then show ?thesis using ack_success_run [OF s exact(1,2)] assms(2) by auto
  next
    case other
    then obtain x where x: "r = Inl (SbAcknowledgementRejected x)" "s = poisoned_with x (AkAction a) ?s"
      using ack_mismatch [OF other] assms(2) by auto
    have "sb_cleanup_snapshot s = sb_cleanup_snapshot ?s"
      using other(1) by (simp add: x(2) sb_cleanup_snapshot_def)
    then show ?thesis
      using x other final [of s] bw_inv_poisoned [OF inv] by simp
  qed
qed

section \<open>A run\<close>

definition sample_code :: "memory_address \<Rightarrow> u8" where
  "sample_code a = 0x90"

definition sample_spec :: breakpoint_spec where
  "sample_spec = \<lparr>bp_id = 1, bp_address = 4194320, bp_kind = BkSoftware, bp_scope = BsProcess\<rparr>"

definition sample_planner :: software_breakpoints where
  "sample_planner = \<lparr>sb_session_id = 7, sb_capacity = 4, sb_next_operation_id = Some 1,
     sb_last_acknowledged_operation = None, sb_breakpoints = [], sb_pending = None, sb_poison_evidence = None\<rparr>"

definition sample_plan :: action_plan where
  "sample_plan = PlArm \<lparr>yp_operation_id = 1, yp_session_id = 7, yp_stop_token = sample_stop,
     yp_breakpoint = sample_spec, yp_expected_byte = 0x90, yp_replacement_byte = 0xcc\<rparr>"

definition sample_entry :: breakpoint_entry where
  "sample_entry = armed_entry sample_stop sample_spec 0x90 Persistent"

definition planned_world :: "bool \<Rightarrow> breakpoint_world" where
  "planned_world done = \<lparr>bw_machine = planned 1 sample_plan (PtArm sample_entry) sample_planner,
     bw_memory = (if done then sample_code(4194320 := 0xcc) else sample_code), bw_performed = done\<rparr>"

definition armed_world :: breakpoint_world where
  "armed_world = \<lparr>bw_machine = sample_planner\<lparr>sb_next_operation_id := Some 2,
       sb_last_acknowledged_operation := Some 1, sb_breakpoints := [(1, sample_entry)]\<rparr>,
     bw_memory = sample_code(4194320 := 0xcc), bw_performed = True\<rparr>"

definition start_world :: breakpoint_world where
  "start_world = \<lparr>bw_machine = sample_planner, bw_memory = sample_code, bw_performed = False\<rparr>"

lemmas sample_defs = sample_plan_def sample_planner_def sample_entry_def armed_entry_def planned_world_def
  armed_world_def start_world_def planned_def sample_spec_def sample_stop_def sample_token_def INT3_OPCODE_def

lemma sample_exec:
  "bw_exec (BiArm sample_stop sample_spec 0x90 Persistent) start_world = planned_world False"
  "bw_exec BiPerform (planned_world False) = planned_world True"
  "bw_exec (BiReport (success_report sample_plan)) (planned_world True) = armed_world"
proof -
  have v: "breakpoint_spec_validate sample_spec = Inr ()" by (simp add: breakpoint_valid_shape sample_spec_def)
  have "sb_plan_arm sample_stop sample_spec 0x90 Persistent sample_planner
      = (Inr sample_plan, planned 1 sample_plan (PtArm sample_entry) sample_planner)"
    using v unfolding plan_arm_Inr
    by (simp add: sample_planner_def idle_def bt_lookup_def bt_values_def sample_plan_def byte_plan_of_def sample_entry_def)
      (simp add: sample_defs)
  then show "bw_exec (BiArm sample_stop sample_spec 0x90 Persistent) start_world = planned_world False"
    by (simp add: bw_exec_def bw_plan_def start_world_def planned_world_def)
  show "bw_exec BiPerform (planned_world False) = planned_world True"
    by (simp add: bw_exec_def bw_perform_def sample_defs sample_code_def Let_def)
  show "bw_exec (BiReport (success_report sample_plan)) (planned_world True) = armed_world"
    by (simp add: bw_exec_def sample_defs success_report_def sb_acknowledge_success_def sb_is_poisoned_def Let_def
        and_then_def sm_defs sb_apply_transition_def checked_add_def)
qed

lemma start_reachable_world: "reachable (bw_initial sample_code) bw_step start_world"
  by (rule reachable.start)
    (auto simp: bw_initial_def start_world_def sb_with_capacity_def MAX_SOFTWARE_BREAKPOINTS_def sample_planner_def)

lemma exec_reachable:
  "reachable (bw_initial m) bw_step w \<Longrightarrow> honest i w \<Longrightarrow> bw_exec i w = v \<Longrightarrow> reachable (bw_initial m) bw_step v"
  by (blast intro: reachable.next_state bw_step.call)

lemma run_reachable:
  "reachable (bw_initial sample_code) bw_step (planned_world True)" "reachable (bw_initial sample_code) bw_step armed_world"
proof -
  have "reachable (bw_initial sample_code) bw_step (planned_world False)"
    by (rule exec_reachable [OF start_reachable_world _ sample_exec(1)]) (simp add: honest_def)
  then show p: "reachable (bw_initial sample_code) bw_step (planned_world True)"
    by (rule exec_reachable [OF _ _ sample_exec(2)]) (simp add: honest_def)
  show "reachable (bw_initial sample_code) bw_step armed_world"
    by (rule exec_reachable [OF p _ sample_exec(3)]) (simp add: honest_def planned_world_def split: option.split)
qed

theorem breakpoint_memory_faithful_witness:
  "reachable (bw_initial sample_code) bw_step armed_world
   \<and> bw_memory armed_world 4194320 = predicted sample_code armed_world 4194320
   \<and> be_original_byte sample_entry = sample_code 4194320"
  using breakpoint_memory_faithful [OF run_reachable(2)] run_reachable(2)
  by (auto simp: sample_defs bt_values_def)

theorem cleanup_evidence_complete_witness:
  "reachable (bw_initial sample_code) bw_step (planned_world True)
   \<and> bw_memory (planned_world True) 4194320 \<noteq> sample_code 4194320
   \<and> cv_uncertain_operation (sb_cleanup_snapshot (bw_machine (planned_world True))) = Some sample_plan
   \<and> yp_expected_byte (plan_bytes sample_plan) = sample_code 4194320"
proof -
  have d: "bw_memory (planned_world True) 4194320 \<noteq> sample_code 4194320" by (simp add: planned_world_def sample_code_def)
  show ?thesis
    using cleanup_evidence_complete [OF run_reachable(1) d] run_reachable(1) d
    by (auto simp: sample_defs sb_cleanup_snapshot_def sb_current_cleanup_def bt_values_def)
qed

theorem breakpoint_report_exact_witness:
  "\<exists>r s. reachable (bw_initial sample_code) bw_step armed_world
     \<and> sb_acknowledge_success (success_report sample_plan) (bw_machine armed_world) = (r, s)
     \<and> r \<noteq> Inl SbPanic \<and> (\<forall>t. r \<noteq> Inr t) \<and> sb_cleanup_snapshot s = sb_cleanup_snapshot (bw_machine armed_world)"
proof -
  obtain r s where r: "sb_acknowledge_success (success_report sample_plan) (bw_machine armed_world) = (r, s)"
    by (cases "sb_acknowledge_success (success_report sample_plan) (bw_machine armed_world)")
  have "sb_pending (bw_machine armed_world) = None" by (simp add: sample_defs)
  then show ?thesis
    using breakpoint_report_exact [OF run_reachable(2) r, of armed_world] run_reachable(2) r by auto
qed

end
