(* ===== verification/Live_Patch_History.thy ===== *)
theory Live_Patch_History
  imports Session_Machine
begin

text \<open>
  The receipt-driven history of live memory patches (\<open>live_patch_history.rs\<close>): a strict LIFO
  undo stack that reserves capacity before a write is dispatched, commits only on exact evidence,
  and freezes on anything else.  Every operation of the reducer is a definition here; \<open>LhPanic\<close> is
  where the source would panic, in an \<open>expect\<close>, a debug assertion or an arithmetic underflow.
\<close>

section \<open>Data\<close>

definition MAX_LIVE_PATCH_HISTORY_ENTRIES :: nat where
  "MAX_LIVE_PATCH_HISTORY_ENTRIES = 256"

definition MAX_LIVE_PATCH_HISTORY_STORED_BYTES :: nat where
  "MAX_LIVE_PATCH_HISTORY_STORED_BYTES = 1024 * 1024"

definition MEMORY_WRITE_FAILURE_REJECTION_CODE :: string where
  "MEMORY_WRITE_FAILURE_REJECTION_CODE = ''memory-write-failed''"

record live_patch_entry =
  pe_address :: memory_address
  pe_before :: "u8 list"
  pe_after :: "u8 list"
  pe_applied_stop :: stop_token
  pe_resulting_stop :: stop_token
  pe_command_id :: command_id

definition entry_stored_bytes :: "live_patch_entry \<Rightarrow> nat" where
  "entry_stored_bytes e = length (pe_before e) + length (pe_after e)"

datatype (plugins only: code size) live_patch_kind = ForwardWrite | Undo

datatype (plugins only: code size) live_patch_phase = Reserved | Dispatched

record pending_live_patch =
  pp_kind :: live_patch_kind
  pp_phase :: live_patch_phase
  pp_stop :: stop_token
  pp_address :: memory_address
  pp_expected :: "u8 list"
  pp_replacement :: "u8 list"

definition pending_command :: "pending_live_patch \<Rightarrow> debug_command" where
  "pending_command p = CmdWriteMemory (pp_stop p) (pp_address p) (pp_expected p) (pp_replacement p)"

definition reserved_history_bytes :: "pending_live_patch \<Rightarrow> nat" where
  "reserved_history_bytes p = (case pp_kind p of
     ForwardWrite \<Rightarrow> length (pp_expected p) + length (pp_replacement p)
   | Undo \<Rightarrow> 0)"

datatype (plugins only: code size) receipt_mismatch =
    RmNonMonotonicCommandId command_id command_id
  | RmSessionDrift
  | RmTargetDrift
  | RmEmptyReceipt
  | RmEventCorrelation
  | RmEventSession
  | RmCommandResultCount
  | RmCommandResultMismatch
  | RmCommandResultNotLast
  | RmDuplicateWriteEvidence
  | RmDuplicateFailureEvidence
  | RmWriteEvidenceMismatch
  | RmFailureEvidenceMismatch
  | RmStateEvidenceMismatch
  | RmContradictoryWriteEvidence
  | RmMissingSuccessEvidence
  | RmFailureReportedAsSuccess
  | RmUnexpectedSuccessEffect
  | RmReservedFailureCodeWithoutEvidence
  | RmRejectionProducedEffect
  | RmSafeFailureProducedStateChange
  | RmIndeterminateStateEvidenceMismatch

datatype (plugins only: code size) freeze_cause =
    FcTransportOutcomeUnknown
  | FcIndeterminateWrite memory_write_failure
  | FcReceiptMismatch receipt_mismatch

record freeze_evidence =
  fz_pending :: pending_live_patch
  fz_receipt_command_id :: "command_id option"
  fz_cause :: freeze_cause

datatype (plugins only: code size) patch_resolution =
    ForwardCommitted live_patch_entry
  | UndoCommitted live_patch_entry
  | RejectedNoEffect
  | Frozen

datatype (plugins only: code size) history_error =
    LhInspectionOnly
  | LhOperationPending
  | LhNoPendingOperation
  | LhOperationAlreadyDispatched
  | LhOperationNotDispatched
  | LhCannotCancelDispatched
  | LhDuplicateReceipt command_id
  | LhOutOfOrderReceipt command_id command_id
  | LhNothingToUndo
  | LhSessionDrift
  | LhTargetDrift
  | LhStopSessionDrift
  | LhNonMonotonicStopToken
  | LhEmptyPatch
  | LhLengthMismatch nat nat
  | LhUnchangedPatch
  | LhPatchTooLarge nat nat
  | LhInvalidImageSpan live_target_error
  | LhEntryLimit nat
  | LhByteLimit nat nat
  | LhPanic

record live_patch_history =
  lh_session_id :: session_id
  lh_binding :: live_target_binding
  lh_entries :: "live_patch_entry list"
  lh_stored_bytes :: nat
  lh_last_stop :: "stop_token option"
  lh_last_receipt_command_id :: "command_id option"
  lh_pending :: "pending_live_patch option"
  lh_freeze_evidence :: "freeze_evidence option"

type_synonym 'a history_op = "(live_patch_history, history_error, 'a) sm"

definition lh_new :: "session_id \<Rightarrow> live_target_binding \<Rightarrow> live_patch_history" where
  "lh_new sid binding =
     \<lparr>lh_session_id = sid, lh_binding = binding, lh_entries = [], lh_stored_bytes = 0, lh_last_stop = None,
      lh_last_receipt_command_id = None, lh_pending = None, lh_freeze_evidence = None\<rparr>"

definition lh_reserved_bytes :: "live_patch_history \<Rightarrow> nat" where
  "lh_reserved_bytes h =
     (let pending = (case lh_pending h of Some p \<Rightarrow> Some p | None \<Rightarrow> map_option fz_pending (lh_freeze_evidence h))
      in lh_stored_bytes h + (case pending of None \<Rightarrow> 0 | Some p \<Rightarrow> reserved_history_bytes p))"

section \<open>Guards\<close>

definition lh_require_ready_context ::
    "session_id \<Rightarrow> live_target_binding \<Rightarrow> stop_token \<Rightarrow> live_patch_history \<Rightarrow> history_error + unit" where
  "lh_require_ready_context sid binding stop h =
     rbind (guard (lh_freeze_evidence h = None) LhInspectionOnly) (\<lambda>_.
     rbind (guard (lh_pending h = None) LhOperationPending) (\<lambda>_.
     rbind (guard (sid = lh_session_id h) LhSessionDrift) (\<lambda>_.
     rbind (guard (binding = lh_binding h) LhTargetDrift) (\<lambda>_.
     rbind (guard (tk_session_id (sk_state stop) = lh_session_id h) LhStopSessionDrift) (\<lambda>_.
     case lh_last_stop h of
       None \<Rightarrow> Inr ()
     | Some previous \<Rightarrow>
         let g = tk_generation (sk_state stop); g' = tk_generation (sk_state previous);
             i = sk_stop_id stop; i' = sk_stop_id previous
         in guard (g = g' \<and> i = i' \<or> g' < g \<and> i' < i) LhNonMonotonicStopToken)))))"

definition lh_require_dispatched_pending :: "live_patch_history \<Rightarrow> history_error + unit" where
  "lh_require_dispatched_pending h =
     (if lh_freeze_evidence h \<noteq> None then Inl LhInspectionOnly
      else case lh_pending h of
        None \<Rightarrow> Inl LhNoPendingOperation
      | Some p \<Rightarrow> if pp_phase p = Reserved then Inl LhOperationNotDispatched else Inr ())"

definition validate_patch_bytes :: "u8 list \<Rightarrow> u8 list \<Rightarrow> history_error + unit" where
  "validate_patch_bytes before after =
     rbind (guard (before \<noteq> []) LhEmptyPatch) (\<lambda>_.
     rbind (guard (length before = length after) (LhLengthMismatch (length before) (length after))) (\<lambda>_.
     rbind (guard (before \<noteq> after) LhUnchangedPatch) (\<lambda>_.
     guard (length before \<le> MAX_MEMORY_WRITE_BYTES)
       (LhPatchTooLarge (length before) MAX_MEMORY_WRITE_BYTES))))"

definition is_exact_successor_stop :: "stop_token \<Rightarrow> stop_token \<Rightarrow> bool" where
  "is_exact_successor_stop prior resulting \<longleftrightarrow>
     tk_session_id (sk_state resulting) = tk_session_id (sk_state prior)
     \<and> checked_add (tk_generation (sk_state prior)) 1 = Some (tk_generation (sk_state resulting))
     \<and> checked_add (sk_stop_id prior) 1 = Some (sk_stop_id resulting)"

definition lh_validate_image_span :: "memory_address \<Rightarrow> nat \<Rightarrow> live_patch_history \<Rightarrow> history_error + unit" where
  "lh_validate_image_span address sz h =
     rbind (guard (sz < 2 ^ 64) (LhInvalidImageSpan (LteAddressSpanOverflow address (- 1)))) (\<lambda>_.
     rbind (map_err LhInvalidImageSpan (rva_for_address_span (lh_binding h) address (of_nat sz))) (\<lambda>_.
     Inr ()))"

section \<open>Reservations\<close>

definition lh_begin_forward_write ::
    "session_id \<Rightarrow> live_target_binding \<Rightarrow> stop_token \<Rightarrow> memory_address \<Rightarrow> u8 list \<Rightarrow> u8 list \<Rightarrow> unit history_op" where
  "lh_begin_forward_write sid binding stop address before after =
     and_then (lift_result (lh_require_ready_context sid binding stop)) (\<lambda>_.
     and_then (lift_result (\<lambda>_. validate_patch_bytes before after)) (\<lambda>_.
     and_then (lift_result (lh_validate_image_span address (length before))) (\<lambda>_.
     and_then (lift_result (\<lambda>h. guard (length (lh_entries h) < MAX_LIVE_PATCH_HISTORY_ENTRIES)
        (LhEntryLimit MAX_LIVE_PATCH_HISTORY_ENTRIES))) (\<lambda>_.
     and_then (lift_result (\<lambda>h.
        let prospective = lh_stored_bytes h + (length before + length after) in
        rbind (guard (prospective < 2 ^ 64) (LhByteLimit (2 ^ 64 - 1) MAX_LIVE_PATCH_HISTORY_STORED_BYTES)) (\<lambda>_.
        guard (prospective \<le> MAX_LIVE_PATCH_HISTORY_STORED_BYTES)
          (LhByteLimit prospective MAX_LIVE_PATCH_HISTORY_STORED_BYTES)))) (\<lambda>_.
     modify (\<lambda>h. h\<lparr>lh_last_stop := Some stop, lh_pending := Some \<lparr>pp_kind = ForwardWrite, pp_phase = Reserved,
        pp_stop = stop, pp_address = address, pp_expected = before, pp_replacement = after\<rparr>\<rparr>))))))"

definition lh_begin_undo :: "session_id \<Rightarrow> live_target_binding \<Rightarrow> stop_token \<Rightarrow> unit history_op" where
  "lh_begin_undo sid binding stop =
     and_then (lift_result (lh_require_ready_context sid binding stop)) (\<lambda>_.
     and_then (lift_result (\<lambda>h. if lh_entries h = [] then Inl LhNothingToUndo else Inr (last (lh_entries h)))) (\<lambda>e.
     and_then (lift_result (lh_validate_image_span (pe_address e) (length (pe_after e)))) (\<lambda>_.
     modify (\<lambda>h. h\<lparr>lh_last_stop := Some stop, lh_pending := Some \<lparr>pp_kind = Undo, pp_phase = Reserved,
        pp_stop = stop, pp_address = pe_address e, pp_expected = pe_after e, pp_replacement = pe_before e\<rparr>\<rparr>))))"

definition lh_mark_for_dispatch :: "debug_command history_op" where
  "lh_mark_for_dispatch =
     and_then (lift_result (\<lambda>h. guard (lh_freeze_evidence h = None) LhInspectionOnly)) (\<lambda>_.
     and_then (lift_result (\<lambda>h. ok_or (lh_pending h) LhNoPendingOperation)) (\<lambda>p.
     and_then (lift_result (\<lambda>_. guard (pp_phase p \<noteq> Dispatched) LhOperationAlreadyDispatched)) (\<lambda>_.
     and_then (modify (\<lambda>h. h\<lparr>lh_pending := Some (p\<lparr>pp_phase := Dispatched\<rparr>)\<rparr>)) (\<lambda>_.
     ok (pending_command p)))))"

definition lh_cancel_before_dispatch :: "unit history_op" where
  "lh_cancel_before_dispatch =
     and_then (lift_result (\<lambda>h. guard (lh_freeze_evidence h = None) LhInspectionOnly)) (\<lambda>_.
     and_then (lift_result (\<lambda>h. ok_or (lh_pending h) LhNoPendingOperation)) (\<lambda>p.
     and_then (lift_result (\<lambda>_. guard (pp_phase p \<noteq> Dispatched) LhCannotCancelDispatched)) (\<lambda>_.
     modify (\<lambda>h. h\<lparr>lh_pending := None\<rparr>))))"

section \<open>Receipt evidence\<close>

record command_receipt =
  rc_command_id :: command_id
  rc_outcome :: command_outcome
  rc_events :: "event_envelope list"

text \<open>
  What the scan of a receipt has seen.  The last two fields are the counters of the loop that the
  returned scan drops.
\<close>

record receipt_scan =
  sc_memory_written :: bool
  sc_failure :: "memory_write_failure option"
  sc_state_changes :: nat
  sc_states :: "session_state list"
  sc_command_result_state :: "state_token option"
  sc_unexpected_effect :: bool
  sc_command_results :: nat
  sc_result_index :: "nat option"

definition scan_start :: receipt_scan where
  "scan_start = \<lparr>sc_memory_written = False, sc_failure = None, sc_state_changes = 0, sc_states = [],
     sc_command_result_state = None, sc_unexpected_effect = False, sc_command_results = 0,
     sc_result_index = None\<rparr>"

definition scan_event ::
    "session_id \<Rightarrow> pending_live_patch \<Rightarrow> command_receipt \<Rightarrow> nat \<Rightarrow> event_envelope \<Rightarrow> receipt_scan
     \<Rightarrow> receipt_mismatch + receipt_scan" where
  "scan_event sid p r index e sc =
     rbind (guard (ee_caused_by e = Some (rc_command_id r)) RmEventCorrelation) (\<lambda>_.
     rbind (guard (ee_session_id e = Some sid) RmEventSession) (\<lambda>_.
     case ee_event e of
       EvCommandResult cid outcome \<Rightarrow>
         if cid \<noteq> rc_command_id r \<or> outcome \<noteq> rc_outcome r then Inl RmCommandResultMismatch
         else Inr (sc\<lparr>sc_command_results := sc_command_results sc + 1, sc_result_index := Some index,
                sc_command_result_state := ee_state e\<rparr>)
     | EvMemoryWritten stop address before after \<Rightarrow>
         if sc_memory_written sc then Inl RmDuplicateWriteEvidence
         else if stop \<noteq> pp_stop p \<or> address \<noteq> pp_address p \<or> before \<noteq> pp_expected p
                 \<or> after \<noteq> pp_replacement p \<or> ee_state e \<noteq> Some (sk_state (pp_stop p))
         then Inl RmWriteEvidenceMismatch
         else Inr (sc\<lparr>sc_memory_written := True\<rparr>)
     | EvMemoryWriteFailed actual \<Rightarrow>
         if sc_failure sc \<noteq> None then Inl RmDuplicateFailureEvidence
         else if mf_stop actual \<noteq> pp_stop p \<or> mf_address actual \<noteq> pp_address p
                 \<or> unat (mf_size actual) \<noteq> length (pp_expected p) \<or> ee_state e \<noteq> Some (sk_state (pp_stop p))
                 \<or> \<not> is_ok (memory_write_failure_validate actual)
         then Inl RmFailureEvidenceMismatch
         else Inr (sc\<lparr>sc_failure := Some actual\<rparr>)
     | EvStateChanged state \<Rightarrow>
         if ee_state e \<noteq> Some (session_state_token state) then Inl RmStateEvidenceMismatch
         else Inr (sc\<lparr>sc_state_changes := sc_state_changes sc + 1, sc_states := sc_states sc @ [state]\<rparr>)
     | EvWarning _ _ \<Rightarrow> Inr sc
     | _ \<Rightarrow> Inr (sc\<lparr>sc_unexpected_effect := True\<rparr>)))"

primrec scan_events ::
    "session_id \<Rightarrow> pending_live_patch \<Rightarrow> command_receipt \<Rightarrow> nat \<Rightarrow> event_envelope list \<Rightarrow> receipt_scan
     \<Rightarrow> receipt_mismatch + receipt_scan" where
  "scan_events sid p r index [] sc = Inr sc"
| "scan_events sid p r index (e # es) sc =
     rbind (scan_event sid p r index e sc) (scan_events sid p r (index + 1) es)"

definition receipt_inspect ::
    "session_id \<Rightarrow> pending_live_patch \<Rightarrow> command_receipt \<Rightarrow> receipt_mismatch + receipt_scan" where
  "receipt_inspect sid p r =
     rbind (guard (rc_events r \<noteq> []) RmEmptyReceipt) (\<lambda>_.
     rbind (scan_events sid p r 0 (rc_events r) scan_start) (\<lambda>sc.
     rbind (guard (sc_command_results sc = 1) RmCommandResultCount) (\<lambda>_.
     rbind (guard (sc_result_index sc = Some (length (rc_events r) - 1)) RmCommandResultNotLast) (\<lambda>_.
     Inr sc))))"

definition indeterminate_state_evidence_matches ::
    "pending_live_patch \<Rightarrow> memory_write_failure \<Rightarrow> receipt_scan \<Rightarrow> bool" where
  "indeterminate_state_evidence_matches p failure sc = (case sc_states sc of
     [StStopped refreshed _ _, StFailed token message] \<Rightarrow>
       tk_session_id (sk_state refreshed) = tk_session_id (sk_state (pp_stop p))
       \<and> checked_add (tk_generation (sk_state (pp_stop p))) 1 = Some (tk_generation (sk_state refreshed))
       \<and> checked_add (sk_stop_id (pp_stop p)) 1 = Some (sk_stop_id refreshed)
       \<and> tk_session_id token = tk_session_id (sk_state (pp_stop p))
       \<and> checked_add (tk_generation (sk_state refreshed)) 1 = Some (tk_generation token)
       \<and> sc_command_result_state sc = Some token
       \<and> message = mf_detail failure
   | _ \<Rightarrow> False)"

definition success_stop :: "pending_live_patch \<Rightarrow> receipt_scan \<Rightarrow> stop_token option" where
  "success_stop p sc = (case sc_states sc of
     [StStopped token _ _] \<Rightarrow>
       if tk_session_id (sk_state token) = tk_session_id (sk_state (pp_stop p))
          \<and> checked_add (tk_generation (sk_state (pp_stop p))) 1 = Some (tk_generation (sk_state token))
          \<and> checked_add (sk_stop_id (pp_stop p)) 1 = Some (sk_stop_id token)
          \<and> sc_command_result_state sc = Some (sk_state token)
       then Some token else None
   | _ \<Rightarrow> None)"

section \<open>Resolution\<close>

definition lh_clear_safe_rejection :: "command_id \<Rightarrow> unit history_op" where
  "lh_clear_safe_rejection cid =
     and_then (modify (\<lambda>h. h\<lparr>lh_last_receipt_command_id := Some cid\<rparr>)) (\<lambda>_.
     and_then (lift_result (\<lambda>h. ok_or (lh_pending h) LhPanic)) (\<lambda>p.
     modify (\<lambda>h. h\<lparr>lh_pending := None, lh_last_stop := Some (pp_stop p)\<rparr>)))"

definition lh_commit_success :: "command_id \<Rightarrow> stop_token \<Rightarrow> patch_resolution history_op" where
  "lh_commit_success cid resulting_stop =
     and_then (lift_result (\<lambda>h. ok_or (lh_pending h) LhPanic)) (\<lambda>p.
     and_then (modify (\<lambda>h. h\<lparr>lh_pending := None, lh_last_receipt_command_id := Some cid,
        lh_last_stop := Some resulting_stop\<rparr>)) (\<lambda>_.
     case pp_kind p of
       ForwardWrite \<Rightarrow>
         (let e = \<lparr>pe_address = pp_address p, pe_before = pp_expected p, pe_after = pp_replacement p,
                pe_applied_stop = pp_stop p, pe_resulting_stop = resulting_stop, pe_command_id = cid\<rparr>
          in and_then (modify (\<lambda>h. h\<lparr>lh_stored_bytes := lh_stored_bytes h + entry_stored_bytes e,
                lh_entries := lh_entries h @ [e]\<rparr>)) (\<lambda>_.
             ok (ForwardCommitted e)))
     | Undo \<Rightarrow>
         and_then (lift_result (\<lambda>h. if lh_entries h = [] then Inl LhPanic else Inr (last (lh_entries h)))) (\<lambda>e.
         and_then (lift_result (\<lambda>_. guard (pe_address e = pp_address p \<and> pe_after e = pp_expected p
            \<and> pe_before e = pp_replacement p) LhPanic)) (\<lambda>_.
         and_then (lift_result (\<lambda>h. guard (entry_stored_bytes e \<le> lh_stored_bytes h) LhPanic)) (\<lambda>_.
         and_then (modify (\<lambda>h. h\<lparr>lh_entries := butlast (lh_entries h),
            lh_stored_bytes := lh_stored_bytes h - entry_stored_bytes e\<rparr>)) (\<lambda>_.
         ok (UndoCommitted e)))))))"

definition lh_freeze :: "command_id option \<Rightarrow> freeze_cause \<Rightarrow> patch_resolution history_op" where
  "lh_freeze receipt_command_id cause =
     and_then (lift_result (\<lambda>h. ok_or (lh_pending h) LhPanic)) (\<lambda>p.
     and_then (modify (\<lambda>h. h\<lparr>lh_pending := None, lh_freeze_evidence := Some \<lparr>fz_pending = p,
        fz_receipt_command_id = receipt_command_id, fz_cause = cause\<rparr>\<rparr>)) (\<lambda>_.
     ok Frozen))"

text \<open>The entry checks that both receipt methods open with, up to the dispatched reservation.\<close>

definition lh_receipt_gate :: "command_id \<Rightarrow> live_patch_history \<Rightarrow> history_error + pending_live_patch" where
  "lh_receipt_gate cid h =
     rbind (guard (lh_freeze_evidence h = None) LhInspectionOnly) (\<lambda>_.
     case lh_pending h of
       None \<Rightarrow> Inl (case lh_last_receipt_command_id h of
           None \<Rightarrow> LhNoPendingOperation
         | Some previous \<Rightarrow> if cid = previous then LhDuplicateReceipt cid
             else if cid < previous then LhOutOfOrderReceipt previous cid else LhNoPendingOperation)
     | Some p \<Rightarrow> rbind (guard (pp_phase p = Dispatched) LhOperationNotDispatched) (\<lambda>_. Inr p))"

text \<open>
  The decision of \<open>resolve_receipt\<close> on a dispatched reservation, in the order of its checks: the
  reason to freeze, a rejection without effect (\<open>None\<close>) or the stop of a committed write.
\<close>

definition lh_context_drift ::
    "session_id \<Rightarrow> live_target_binding \<Rightarrow> command_id \<Rightarrow> live_patch_history \<Rightarrow> receipt_mismatch option" where
  "lh_context_drift sid binding cid h =
     (if sid \<noteq> lh_session_id h then Some RmSessionDrift
      else if binding \<noteq> lh_binding h then Some RmTargetDrift
      else case lh_last_receipt_command_id h of
        Some previous \<Rightarrow> if cid \<le> previous then Some (RmNonMonotonicCommandId previous cid) else None
      | None \<Rightarrow> None)"

definition judge_success :: "pending_live_patch \<Rightarrow> receipt_scan \<Rightarrow> freeze_cause + stop_token option" where
  "judge_success p sc =
     (if sc_failure sc \<noteq> None then Inl (FcReceiptMismatch RmFailureReportedAsSuccess)
      else if sc_unexpected_effect sc then Inl (FcReceiptMismatch RmUnexpectedSuccessEffect)
      else if \<not> sc_memory_written sc then Inl (FcReceiptMismatch RmMissingSuccessEvidence)
      else case success_stop p sc of
        None \<Rightarrow> Inl (FcReceiptMismatch RmUnexpectedSuccessEffect)
      | Some stop \<Rightarrow> Inr (Some stop))"

definition judge_rejection ::
    "pending_live_patch \<Rightarrow> string \<Rightarrow> string \<Rightarrow> receipt_scan \<Rightarrow> freeze_cause + stop_token option" where
  "judge_rejection p code message sc =
     (if sc_memory_written sc then Inl (FcReceiptMismatch RmContradictoryWriteEvidence)
      else case sc_failure sc of
        None \<Rightarrow>
          if code = MEMORY_WRITE_FAILURE_REJECTION_CODE
          then Inl (FcReceiptMismatch RmReservedFailureCodeWithoutEvidence)
          else if sc_state_changes sc \<noteq> 0 \<or> sc_unexpected_effect sc
                  \<or> sc_command_result_state sc \<noteq> Some (sk_state (pp_stop p))
          then Inl (FcReceiptMismatch RmRejectionProducedEffect)
          else Inr None
      | Some failure \<Rightarrow>
          if code \<noteq> MEMORY_WRITE_FAILURE_REJECTION_CODE \<or> message \<noteq> mf_detail failure
          then Inl (FcReceiptMismatch RmFailureEvidenceMismatch)
          else if sc_unexpected_effect sc then Inl (FcReceiptMismatch RmRejectionProducedEffect)
          else if is_rollback_safe (mf_recovery failure)
          then (if sc_state_changes sc \<noteq> 0 \<or> sc_command_result_state sc \<noteq> Some (sk_state (pp_stop p))
                then Inl (FcReceiptMismatch RmSafeFailureProducedStateChange) else Inr None)
          else if indeterminate_state_evidence_matches p failure sc
          then Inl (FcIndeterminateWrite failure)
          else Inl (FcReceiptMismatch RmIndeterminateStateEvidenceMismatch))"

definition judge_receipt ::
    "session_id \<Rightarrow> live_target_binding \<Rightarrow> command_receipt \<Rightarrow> live_patch_history \<Rightarrow> pending_live_patch
     \<Rightarrow> freeze_cause + stop_token option" where
  "judge_receipt sid binding r h p =
     (case lh_context_drift sid binding (rc_command_id r) h of
        Some m \<Rightarrow> Inl (FcReceiptMismatch m)
      | None \<Rightarrow> rbind (map_err FcReceiptMismatch (receipt_inspect (lh_session_id h) p r)) (\<lambda>sc.
          case rc_outcome r of
            CoSucceeded \<Rightarrow> judge_success p sc
          | CoRejected code message \<Rightarrow> judge_rejection p code message sc))"

definition lh_settle ::
    "command_id \<Rightarrow> freeze_cause + stop_token option \<Rightarrow> patch_resolution history_op" where
  "lh_settle cid verdict = (case verdict of
     Inl cause \<Rightarrow> lh_freeze (Some cid) cause
   | Inr (Some stop) \<Rightarrow> lh_commit_success cid stop
   | Inr None \<Rightarrow> and_then (lh_clear_safe_rejection cid) (\<lambda>_. ok RejectedNoEffect))"

definition lh_resolve_receipt ::
    "session_id \<Rightarrow> live_target_binding \<Rightarrow> command_receipt \<Rightarrow> patch_resolution history_op" where
  "lh_resolve_receipt sid binding r =
     and_then (lift_result (lh_receipt_gate (rc_command_id r))) (\<lambda>p.
     and_then (gets (\<lambda>h. judge_receipt sid binding r h p)) (lh_settle (rc_command_id r)))"

definition judge_local_receipt ::
    "live_patch_receipt \<Rightarrow> live_patch_history \<Rightarrow> pending_live_patch \<Rightarrow> freeze_cause + stop_token option" where
  "judge_local_receipt r h p =
     (let w = lp_write r in
      case lh_context_drift (tk_session_id (sk_state (wa_stop w))) (wa_binding w) (wa_command_id w) h of
        Some m \<Rightarrow> Inl (FcReceiptMismatch m)
      | None \<Rightarrow>
          if pp_stop p \<noteq> wa_stop w \<or> pp_address p \<noteq> wa_address w \<or> pp_expected p \<noteq> wa_expected w
             \<or> pp_replacement p \<noteq> wa_replacement w
          then Inl (FcReceiptMismatch RmWriteEvidenceMismatch)
          else case lp_resolution r of
            LrCommitted resulting_stop \<Rightarrow>
              if is_exact_successor_stop (pp_stop p) resulting_stop then Inr (Some resulting_stop)
              else Inl (FcReceiptMismatch RmStateEvidenceMismatch)
          | LrRejectedNoEffect \<Rightarrow> Inr None)"

definition lh_resolve_local_receipt :: "live_patch_receipt \<Rightarrow> patch_resolution history_op" where
  "lh_resolve_local_receipt r =
     and_then (lift_result (lh_receipt_gate (wa_command_id (lp_write r)))) (\<lambda>p.
     and_then (gets (\<lambda>h. judge_local_receipt r h p)) (lh_settle (wa_command_id (lp_write r))))"

definition lh_mark_transport_outcome_unknown :: "patch_resolution history_op" where
  "lh_mark_transport_outcome_unknown =
     and_then (lift_result lh_require_dispatched_pending) (\<lambda>_. lh_freeze None FcTransportOutcomeUnknown)"

end
