(* ===== verification/Patch_Laws.thy ===== *)
theory Patch_Laws
  imports Live_Patch_History Protocol_Laws
begin

text \<open>
  Laws of the live patch history: what each operation does on every branch, the invariant that all
  of them keep, and a world in which a debuggee performs the dispatched writes at any moment and its
  receipts tell the truth about them.
\<close>

section \<open>Operations, branch by branch\<close>

lemmas history_bounds = MAX_LIVE_PATCH_HISTORY_ENTRIES_def MAX_LIVE_PATCH_HISTORY_STORED_BYTES_def

text \<open>The operation that a history holds: pending, or retained by a freeze.\<close>

definition held :: "live_patch_history \<Rightarrow> pending_live_patch option" where
  "held h = (case lh_pending h of Some p \<Rightarrow> Some p | None \<Rightarrow> map_option fz_pending (lh_freeze_evidence h))"

definition patch_bytes_ok :: "u8 list \<Rightarrow> u8 list \<Rightarrow> bool" where
  "patch_bytes_ok before after \<longleftrightarrow> before \<noteq> [] \<and> length before = length after \<and> before \<noteq> after
     \<and> length before \<le> MAX_MEMORY_WRITE_BYTES"

lemma validate_patch_bytes_iff [simp]: "validate_patch_bytes b a = Inr u \<longleftrightarrow> patch_bytes_ok b a"
  by (auto simp: validate_patch_bytes_def patch_bytes_ok_def rbind_Inr_iff)

text \<open>A stop is coherent with the last one: the same, or later in both counters.\<close>

definition coherent_stop :: "stop_token option \<Rightarrow> stop_token \<Rightarrow> bool" where
  "coherent_stop previous stop = (case previous of None \<Rightarrow> True | Some p \<Rightarrow>
     tk_generation (sk_state stop) = tk_generation (sk_state p) \<and> sk_stop_id stop = sk_stop_id p
     \<or> tk_generation (sk_state p) < tk_generation (sk_state stop) \<and> sk_stop_id p < sk_stop_id stop)"

definition ready :: "session_id \<Rightarrow> live_target_binding \<Rightarrow> stop_token \<Rightarrow> live_patch_history \<Rightarrow> bool" where
  "ready sid binding stop h \<longleftrightarrow> held h = None \<and> sid = lh_session_id h \<and> binding = lh_binding h
     \<and> tk_session_id (sk_state stop) = lh_session_id h \<and> coherent_stop (lh_last_stop h) stop"

lemma held_None: "held h = None \<longleftrightarrow> lh_pending h = None \<and> lh_freeze_evidence h = None"
  by (auto simp: held_def split: option.splits)

lemma require_ready_iff [simp]: "lh_require_ready_context sid b stop h = Inr u \<longleftrightarrow> ready sid b stop h"
  by (auto simp: lh_require_ready_context_def ready_def held_None coherent_stop_def rbind_Inr_iff Let_def
      split: option.splits)

definition span_ok :: "live_target_binding \<Rightarrow> memory_address \<Rightarrow> nat \<Rightarrow> bool" where
  "span_ok b a n \<longleftrightarrow> n < 2 ^ 64 \<and> is_ok (rva_for_address_span b a (of_nat n))"

lemma image_span_iff [simp]: "lh_validate_image_span a n h = Inr u \<longleftrightarrow> span_ok (lh_binding h) a n"
  unfolding span_ok_def
  by (cases "rva_for_address_span (lh_binding h) a (of_nat n)")
    (auto simp: lh_validate_image_span_def rbind_Inr_iff map_err_def)

definition reservation ::
    "live_patch_kind \<Rightarrow> stop_token \<Rightarrow> memory_address \<Rightarrow> u8 list \<Rightarrow> u8 list \<Rightarrow> pending_live_patch" where
  "reservation kind stop address expected replacement = \<lparr>pp_kind = kind, pp_phase = Reserved, pp_stop = stop,
     pp_address = address, pp_expected = expected, pp_replacement = replacement\<rparr>"

lemma reservation_sel [simp]:
  "pp_kind (reservation k s a x y) = k" "pp_phase (reservation k s a x y) = Reserved"
  "pp_stop (reservation k s a x y) = s" "pp_address (reservation k s a x y) = a"
  "pp_expected (reservation k s a x y) = x" "pp_replacement (reservation k s a x y) = y"
  by (simp_all add: reservation_def)

lemma begin_forward_iff:
  "lh_begin_forward_write sid b stop address before after h = (Inr u, t) \<longleftrightarrow>
     ready sid b stop h \<and> patch_bytes_ok before after \<and> span_ok (lh_binding h) address (length before)
     \<and> length (lh_entries h) < MAX_LIVE_PATCH_HISTORY_ENTRIES
     \<and> lh_stored_bytes h + (length before + length after) \<le> MAX_LIVE_PATCH_HISTORY_STORED_BYTES
     \<and> t = h\<lparr>lh_last_stop := Some stop, lh_pending := Some (reservation ForwardWrite stop address before after)\<rparr>"
  by (cases "lh_validate_image_span address (length before) h")
    (auto simp: lh_begin_forward_write_def and_then_Inr_iff sm_defs Let_def rbind_Inr_iff reservation_def
      history_bounds)

lemma begin_undo_iff:
  "lh_begin_undo sid b stop h = (Inr u, t) \<longleftrightarrow>
     ready sid b stop h \<and> lh_entries h \<noteq> []
     \<and> (let e = last (lh_entries h) in span_ok (lh_binding h) (pe_address e) (length (pe_after e))
        \<and> t = h\<lparr>lh_last_stop := Some stop,
              lh_pending := Some (reservation Undo stop (pe_address e) (pe_after e) (pe_before e))\<rparr>)"
  by (cases "lh_validate_image_span (pe_address (last (lh_entries h))) (length (pe_after (last (lh_entries h)))) h")
    (auto simp: lh_begin_undo_def and_then_Inr_iff sm_defs Let_def reservation_def split: if_splits)

lemma mark_for_dispatch_iff:
  "lh_mark_for_dispatch h = (Inr c, t) \<longleftrightarrow> lh_freeze_evidence h = None \<and> (\<exists>p. lh_pending h = Some p \<and> pp_phase p = Reserved
     \<and> c = pending_command p \<and> t = h\<lparr>lh_pending := Some (p\<lparr>pp_phase := Dispatched\<rparr>)\<rparr>)"
  by (cases "lh_pending h")
    (auto simp: lh_mark_for_dispatch_def and_then_Inr_iff sm_defs ok_or_def intro: live_patch_phase.exhaust)

lemma cancel_iff:
  "lh_cancel_before_dispatch h = (Inr u, t) \<longleftrightarrow> lh_freeze_evidence h = None \<and> (\<exists>p. lh_pending h = Some p \<and> pp_phase p = Reserved
     \<and> t = h\<lparr>lh_pending := None\<rparr>)"
  by (cases "lh_pending h")
    (auto simp: lh_cancel_before_dispatch_def and_then_Inr_iff sm_defs ok_or_def intro: live_patch_phase.exhaust)

lemma begin_refused:
  "lh_begin_forward_write sid b stop address before after h = (Inl x, t) \<Longrightarrow> t = h"
  "lh_begin_undo sid b stop h = (Inl x, t) \<Longrightarrow> t = h"
  "lh_mark_for_dispatch h = (Inl x, t) \<Longrightarrow> t = h"
  "lh_cancel_before_dispatch h = (Inl x, t) \<Longrightarrow> t = h"
  by (auto simp: lh_begin_forward_write_def lh_begin_undo_def lh_mark_for_dispatch_def lh_cancel_before_dispatch_def
      and_then_Inl_iff sm_defs)

text \<open>The receipt methods settle a verdict on the dispatched reservation and refuse anything else.\<close>

definition dispatched :: "live_patch_history \<Rightarrow> pending_live_patch \<Rightarrow> bool" where
  "dispatched h p \<longleftrightarrow> lh_freeze_evidence h = None \<and> lh_pending h = Some p \<and> pp_phase p = Dispatched"

lemma receipt_gate_iff [simp]: "lh_receipt_gate cid h = Inr p \<longleftrightarrow> dispatched h p"
  by (auto simp: lh_receipt_gate_def dispatched_def rbind_Inr_iff split: option.splits)

lemma receipt_gate_no_panic: "lh_receipt_gate cid h \<noteq> Inl LhPanic"
  by (auto simp: lh_receipt_gate_def rbind_Inl_iff split: option.splits)

lemma resolve_receipt_eq:
  "dispatched h p \<Longrightarrow> lh_resolve_receipt sid b r h = lh_settle (rc_command_id r) (judge_receipt sid b r h p) h"
  "dispatched h p \<Longrightarrow>
     lh_resolve_local_receipt l h = lh_settle (wa_command_id (lp_write l)) (judge_local_receipt l h p) h"
  by (simp_all add: lh_resolve_receipt_def lh_resolve_local_receipt_def and_then_def sm_defs
      receipt_gate_iff [THEN iffD2])

lemma resolve_receipt_refused:
  assumes "\<nexists>p. dispatched h p"
  shows "\<exists>x. lh_resolve_receipt sid b r h = (Inl x, h) \<and> x \<noteq> LhPanic"
    and "\<exists>x. lh_resolve_local_receipt l h = (Inl x, h) \<and> x \<noteq> LhPanic"
proof -
  have g: "\<exists>x. lh_receipt_gate cid h = Inl x \<and> x \<noteq> LhPanic" for cid
    using assms receipt_gate_no_panic [of cid h] by (cases "lh_receipt_gate cid h") auto
  show "\<exists>x. lh_resolve_receipt sid b r h = (Inl x, h) \<and> x \<noteq> LhPanic"
    using g [of "rc_command_id r"] by (auto simp: lh_resolve_receipt_def and_then_def sm_defs)
  show "\<exists>x. lh_resolve_local_receipt l h = (Inl x, h) \<and> x \<noteq> LhPanic"
    using g [of "wa_command_id (lp_write l)"] by (auto simp: lh_resolve_local_receipt_def and_then_def sm_defs)
qed

lemma outcome_unknown_eq:
  "dispatched h p \<Longrightarrow> lh_mark_transport_outcome_unknown h = lh_freeze None FcTransportOutcomeUnknown h"
  by (simp add: lh_mark_transport_outcome_unknown_def and_then_def sm_defs lh_require_dispatched_pending_def
      dispatched_def)

lemma outcome_unknown_refused:
  "\<nexists>p. dispatched h p \<Longrightarrow> \<exists>x. lh_mark_transport_outcome_unknown h = (Inl x, h) \<and> x \<noteq> LhPanic"
  by (auto simp: lh_mark_transport_outcome_unknown_def and_then_def sm_defs lh_require_dispatched_pending_def
      dispatched_def split: option.splits) (metis live_patch_phase.exhaust)

definition frozen_with :: "pending_live_patch \<Rightarrow> command_id option \<Rightarrow> freeze_cause \<Rightarrow> live_patch_history \<Rightarrow> live_patch_history" where
  "frozen_with p cid cause h = h\<lparr>lh_pending := None,
     lh_freeze_evidence := Some \<lparr>fz_pending = p, fz_receipt_command_id = cid, fz_cause = cause\<rparr>\<rparr>"

lemma freeze_eq: "lh_pending h = Some p \<Longrightarrow> lh_freeze cid cause h = (Inr Frozen, frozen_with p cid cause h)"
  by (simp add: lh_freeze_def and_then_def sm_defs ok_or_def frozen_with_def)

lemma clear_eq:
  "lh_pending h = Some p \<Longrightarrow> lh_clear_safe_rejection cid h = (Inr (),
     h\<lparr>lh_last_receipt_command_id := Some cid, lh_pending := None, lh_last_stop := Some (pp_stop p)\<rparr>)"
  by (simp add: lh_clear_safe_rejection_def and_then_def sm_defs ok_or_def)

definition committed_entry :: "pending_live_patch \<Rightarrow> command_id \<Rightarrow> stop_token \<Rightarrow> live_patch_entry" where
  "committed_entry p cid stop = \<lparr>pe_address = pp_address p, pe_before = pp_expected p, pe_after = pp_replacement p,
     pe_applied_stop = pp_stop p, pe_resulting_stop = stop, pe_command_id = cid\<rparr>"

lemma committed_entry_sel [simp]:
  "pe_address (committed_entry p cid stop) = pp_address p" "pe_before (committed_entry p cid stop) = pp_expected p"
  "pe_after (committed_entry p cid stop) = pp_replacement p" "pe_applied_stop (committed_entry p cid stop) = pp_stop p"
  "pe_resulting_stop (committed_entry p cid stop) = stop" "pe_command_id (committed_entry p cid stop) = cid"
  by (simp_all add: committed_entry_def)

definition settled :: "command_id \<Rightarrow> stop_token \<Rightarrow> live_patch_history \<Rightarrow> live_patch_history" where
  "settled cid stop h = h\<lparr>lh_pending := None, lh_last_receipt_command_id := Some cid, lh_last_stop := Some stop\<rparr>"

lemma settled_sel [simp]:
  "lh_pending (settled cid stop h) = None" "lh_last_receipt_command_id (settled cid stop h) = Some cid"
  "lh_last_stop (settled cid stop h) = Some stop" "lh_entries (settled cid stop h) = lh_entries h"
  "lh_stored_bytes (settled cid stop h) = lh_stored_bytes h" "lh_session_id (settled cid stop h) = lh_session_id h"
  "lh_binding (settled cid stop h) = lh_binding h" "lh_freeze_evidence (settled cid stop h) = lh_freeze_evidence h"
  by (simp_all add: settled_def)

lemma commit_forward_eq:
  assumes "lh_pending h = Some p" "pp_kind p = ForwardWrite"
  shows "lh_commit_success cid stop h = (let e = committed_entry p cid stop in (Inr (ForwardCommitted e),
    (settled cid stop h)\<lparr>lh_stored_bytes := lh_stored_bytes h + entry_stored_bytes e, lh_entries := lh_entries h @ [e]\<rparr>))"
  using assms
  by (simp add: lh_commit_success_def and_then_def sm_defs ok_or_def settled_def committed_entry_def Let_def)

lemma commit_undo_eq:
  assumes "lh_pending h = Some p" "pp_kind p = Undo" "lh_entries h = es @ [e]"
    and "pe_address e = pp_address p" "pe_after e = pp_expected p" "pe_before e = pp_replacement p"
    and "entry_stored_bytes e \<le> lh_stored_bytes h"
  shows "lh_commit_success cid stop h = (Inr (UndoCommitted e),
    (settled cid stop h)\<lparr>lh_stored_bytes := lh_stored_bytes h - entry_stored_bytes e, lh_entries := es\<rparr>)"
  using assms by (simp add: lh_commit_success_def and_then_def sm_defs ok_or_def settled_def)

section \<open>The invariant of a history\<close>

text \<open>
  Every retained patch is a well-formed one, the byte count is the sum over the stack, and the held
  operation fits: a forward write has its entry and its bytes reserved, an undo is the inverse of
  the top of the stack.
\<close>

definition op_fits :: "live_patch_history \<Rightarrow> pending_live_patch \<Rightarrow> bool" where
  "op_fits h p \<longleftrightarrow> patch_bytes_ok (pp_expected p) (pp_replacement p)
     \<and> span_ok (lh_binding h) (pp_address p) (length (pp_expected p)) \<and> (case pp_kind p of
     ForwardWrite \<Rightarrow> length (lh_entries h) < MAX_LIVE_PATCH_HISTORY_ENTRIES
       \<and> lh_stored_bytes h + reserved_history_bytes p \<le> MAX_LIVE_PATCH_HISTORY_STORED_BYTES
   | Undo \<Rightarrow> (\<exists>es e. lh_entries h = es @ [e] \<and> pe_address e = pp_address p \<and> pe_after e = pp_expected p
       \<and> pe_before e = pp_replacement p))"

definition lh_inv :: "live_patch_history \<Rightarrow> bool" where
  "lh_inv h \<longleftrightarrow>
     lh_stored_bytes h = sum_list (map entry_stored_bytes (lh_entries h))
     \<and> length (lh_entries h) \<le> MAX_LIVE_PATCH_HISTORY_ENTRIES
     \<and> lh_stored_bytes h \<le> MAX_LIVE_PATCH_HISTORY_STORED_BYTES
     \<and> (\<forall>e \<in> set (lh_entries h). patch_bytes_ok (pe_before e) (pe_after e)
          \<and> span_ok (lh_binding h) (pe_address e) (length (pe_before e)))
     \<and> (lh_pending h \<noteq> None \<longrightarrow> lh_freeze_evidence h = None)
     \<and> (\<forall>z. lh_freeze_evidence h = Some z \<longrightarrow> pp_phase (fz_pending z) = Dispatched)
     \<and> (\<forall>p. held h = Some p \<longrightarrow> op_fits h p)"

lemma patch_bytes_swap: "patch_bytes_ok x y \<Longrightarrow> patch_bytes_ok y x"
  by (auto simp: patch_bytes_ok_def)

lemma lh_inv_new: "lh_inv (lh_new sid b)"
  by (simp add: lh_inv_def lh_new_def held_def history_bounds)

lemma held_dispatched: "dispatched h p \<Longrightarrow> held h = Some p"
  by (simp add: dispatched_def held_def)

lemma dispatched_fits: "lh_inv h \<Longrightarrow> dispatched h p \<Longrightarrow> op_fits h p"
  by (simp add: lh_inv_def held_dispatched)

lemma op_fits_cong:
  "lh_entries t = lh_entries h \<Longrightarrow> lh_stored_bytes t = lh_stored_bytes h \<Longrightarrow> lh_binding t = lh_binding h \<Longrightarrow>
     op_fits t p = op_fits h p"
  by (cases "pp_kind p") (simp_all add: op_fits_def)

lemma op_fits_phase [simp]: "op_fits h (p\<lparr>pp_phase := f\<rparr>) = op_fits h p"
  by (cases "pp_kind p") (simp_all add: op_fits_def reserved_history_bytes_def)

lemma lh_inv_idle:
  assumes "lh_inv h" "lh_pending t = None" "lh_freeze_evidence t = None" "lh_entries t = lh_entries h"
    "lh_stored_bytes t = lh_stored_bytes h" "lh_binding t = lh_binding h"
  shows "lh_inv t"
  using assms by (simp add: lh_inv_def held_def)

lemma lh_inv_begin:
  assumes "lh_inv h"
  shows "lh_begin_forward_write sid b stop address before after h = (Inr u, t) \<Longrightarrow> lh_inv t"
    and "lh_begin_undo sid b stop h = (Inr u, t) \<Longrightarrow> lh_inv t"
proof -
  let ?put = "\<lambda>p. h\<lparr>lh_last_stop := Some stop, lh_pending := Some p\<rparr>"
  have put: "lh_inv (?put p)" if "held h = None" "op_fits h p" for p
    using assms that by (simp add: lh_inv_def held_None op_fits_cong [of "?put p" h]) (simp add: held_def)
  show "lh_begin_forward_write sid b stop address before after h = (Inr u, t) \<Longrightarrow> lh_inv t"
    by (auto simp: begin_forward_iff ready_def op_fits_def reserved_history_bytes_def intro!: put)
  show "lh_begin_undo sid b stop h = (Inr u, t) \<Longrightarrow> lh_inv t"
  proof -
    assume a: "lh_begin_undo sid b stop h = (Inr u, t)"
    then obtain es e where e: "lh_entries h = es @ [e]" by (auto simp: begin_undo_iff dest: append_butlast_last_id [symmetric])
    then have "patch_bytes_ok (pe_after e) (pe_before e)" using assms by (auto simp: lh_inv_def intro: patch_bytes_swap)
    then show ?thesis using a e by (auto simp: begin_undo_iff Let_def ready_def op_fits_def intro!: put)
  qed
qed

lemma lh_inv_dispatch: "lh_inv h \<Longrightarrow> lh_mark_for_dispatch h = (Inr c, t) \<Longrightarrow> lh_inv t"
  by (auto simp: mark_for_dispatch_iff lh_inv_def held_def op_fits_cong [of "h\<lparr>lh_pending := _\<rparr>" h])

lemma lh_inv_cancel: "lh_inv h \<Longrightarrow> lh_cancel_before_dispatch h = (Inr u, t) \<Longrightarrow> lh_inv t"
  by (auto simp: cancel_iff intro: lh_inv_idle)

lemma lh_inv_frozen: "lh_inv h \<Longrightarrow> dispatched h p \<Longrightarrow> lh_inv (frozen_with p cid cause h)"
  by (auto simp: lh_inv_def frozen_with_def dispatched_def held_def op_fits_cong [of "h\<lparr>lh_pending := _, lh_freeze_evidence := _\<rparr>" h])

text \<open>
  A commit on a history that keeps the invariant: it cannot panic, and it pushes the write or pops
  its inverse.
\<close>

definition stack_after :: "pending_live_patch \<Rightarrow> command_id \<Rightarrow> stop_token \<Rightarrow> live_patch_entry list \<Rightarrow> live_patch_entry list" where
  "stack_after p cid stop es = (case pp_kind p of ForwardWrite \<Rightarrow> es @ [committed_entry p cid stop] | Undo \<Rightarrow> butlast es)"

lemma commit_run:
  assumes "lh_inv h" "dispatched h p"
  shows "\<exists>r n. lh_commit_success cid stop h = (Inr r, (settled cid stop h)\<lparr>lh_stored_bytes := n,
      lh_entries := stack_after p cid stop (lh_entries h)\<rparr>)
    \<and> (r = ForwardCommitted (committed_entry p cid stop) \<and> pp_kind p = ForwardWrite
       \<or> r = UndoCommitted (last (lh_entries h)) \<and> pp_kind p = Undo)
    \<and> n = sum_list (map entry_stored_bytes (stack_after p cid stop (lh_entries h)))
    \<and> n \<le> MAX_LIVE_PATCH_HISTORY_STORED_BYTES"
proof -
  have p: "lh_pending h = Some p" using assms(2) by (simp add: dispatched_def)
  have fits: "op_fits h p" by (rule dispatched_fits [OF assms])
  have sum: "lh_stored_bytes h = sum_list (map entry_stored_bytes (lh_entries h))"
    "lh_stored_bytes h \<le> MAX_LIVE_PATCH_HISTORY_STORED_BYTES"
    using assms(1) by (simp_all add: lh_inv_def)
  show ?thesis
  proof (cases "pp_kind p")
    case ForwardWrite
    then show ?thesis
      using fits sum by (simp add: commit_forward_eq [OF p] Let_def stack_after_def op_fits_def reserved_history_bytes_def
          entry_stored_bytes_def)
  next
    case Undo
    then obtain es e where e: "lh_entries h = es @ [e]" "pe_address e = pp_address p" "pe_after e = pp_expected p"
      "pe_before e = pp_replacement p"
      using fits by (auto simp: op_fits_def)
    then show ?thesis
      using sum commit_undo_eq [OF p Undo e] by (simp add: stack_after_def Undo)
  qed
qed

lemma lh_inv_commit:
  assumes "lh_inv h" "dispatched h p" "lh_commit_success cid stop h = (r, t)"
  shows "lh_inv t"
proof -
  have fits: "op_fits h p" by (rule dispatched_fits [OF assms(1,2)])
  have "length (stack_after p cid stop (lh_entries h)) \<le> MAX_LIVE_PATCH_HISTORY_ENTRIES
      \<and> (\<forall>e \<in> set (stack_after p cid stop (lh_entries h)). patch_bytes_ok (pe_before e) (pe_after e)
           \<and> span_ok (lh_binding h) (pe_address e) (length (pe_before e)))"
    using assms(1) fits
    by (cases "pp_kind p") (auto simp: stack_after_def op_fits_def lh_inv_def dest: in_set_butlastD)
  then show ?thesis
    using commit_run [OF assms(1,2), of cid stop] assms by (auto simp: lh_inv_def held_def dispatched_def)
qed

lemma settle_run:
  assumes "lh_inv h" "dispatched h p"
  shows "\<exists>r t. lh_settle cid verdict h = (Inr r, t) \<and> lh_inv t"
proof -
  have p: "lh_pending h = Some p" "lh_freeze_evidence h = None" using assms(2) by (simp_all add: dispatched_def)
  consider (freeze) cause where "verdict = Inl cause" | (commit) stop where "verdict = Inr (Some stop)"
    | (reject) "verdict = Inr None"
    by (metis option.exhaust sum.exhaust)
  then show ?thesis
  proof cases
    case freeze
    then show ?thesis using lh_inv_frozen [OF assms] by (simp add: lh_settle_def freeze_eq [OF p(1)])
  next
    case commit
    then show ?thesis using commit_run [OF assms, of cid stop] lh_inv_commit [OF assms] by (auto simp: lh_settle_def)
  next
    case reject
    then show ?thesis
      using p(2) by (auto simp: lh_settle_def and_then_def clear_eq [OF p(1)] sm_defs intro: lh_inv_idle [OF assms(1)])
  qed
qed

end
