(* ===== verification/Patch_World.thy ===== *)
theory Patch_World
  imports Patch_Laws
begin

text \<open>
  The live patch history next to the memory it patches.  A dispatched write is a compare-and-write
  that the debuggee may perform at any moment, also after the history has frozen; receipts arrive in
  any order and are only assumed to tell the truth about the write that is pending.
\<close>

section \<open>Memory\<close>

type_synonym memory = "memory_address \<Rightarrow> u8"

definition mem_read :: "memory \<Rightarrow> memory_address \<Rightarrow> nat \<Rightarrow> u8 list" where
  "mem_read m a n = map (\<lambda>i. m (a + of_nat i)) [0..<n]"

definition mem_write :: "memory \<Rightarrow> memory_address \<Rightarrow> u8 list \<Rightarrow> memory" where
  "mem_write m a bs = (\<lambda>x. if unat (x - a) < length bs then bs ! unat (x - a) else m x)"

lemma unat_of_small: "i < n \<Longrightarrow> n \<le> 2 ^ 64 \<Longrightarrow> unat (of_nat i :: u64) = i"
  by (simp add: unat_of_nat take_bit_nat_eq_self_iff)

lemma mem_read_write:
  assumes "length bs \<le> 2 ^ 64"
  shows "mem_read (mem_write m a bs) a (length bs) = bs"
  using assms by (auto simp: mem_read_def mem_write_def unat_of_small intro!: nth_equalityI)

lemma mem_write_undo:
  assumes "mem_read m a (length x) = x" "length y = length x"
  shows "mem_write (mem_write m a y) a x = m"
proof
  fix b
  have "x ! i = m (a + of_nat i)" if "i < length x" for i
    using arg_cong [OF assms(1), of "\<lambda>z. z ! i"] that by (simp add: mem_read_def)
  then show "mem_write (mem_write m a y) a x b = m b"
    using assms(2) by (simp add: mem_write_def)
qed

text \<open>A stack of patches replayed over a memory, oldest first, and taken off again, newest first.\<close>

primrec replay :: "memory \<Rightarrow> live_patch_entry list \<Rightarrow> memory" where
  "replay m [] = m"
| "replay m (e # es) = replay (mem_write m (pe_address e) (pe_after e)) es"

primrec unwind :: "memory \<Rightarrow> live_patch_entry list \<Rightarrow> memory" where
  "unwind m [] = m"
| "unwind m (e # es) = mem_write (unwind m es) (pe_address e) (pe_before e)"

primrec faithful :: "memory \<Rightarrow> live_patch_entry list \<Rightarrow> bool" where
  "faithful m [] = True"
| "faithful m (e # es) \<longleftrightarrow> mem_read m (pe_address e) (length (pe_before e)) = pe_before e
     \<and> faithful (mem_write m (pe_address e) (pe_after e)) es"

lemma replay_append [simp]: "replay m (xs @ ys) = replay (replay m xs) ys"
  by (induction xs arbitrary: m) simp_all

lemma unwind_append [simp]: "unwind m (xs @ ys) = unwind (unwind m ys) xs"
  by (induction xs) simp_all

lemma faithful_append [simp]: "faithful m (xs @ ys) \<longleftrightarrow> faithful m xs \<and> faithful (replay m xs) ys"
  by (induction xs arbitrary: m) simp_all

lemma patch_bytes_length: "patch_bytes_ok x y \<Longrightarrow> length y = length x"
  by (simp add: patch_bytes_ok_def)

lemma unwind_replay:
  assumes "faithful m es" "\<forall>e \<in> set es. patch_bytes_ok (pe_before e) (pe_after e)"
  shows "unwind (replay m es) es = m"
  using assms by (induction es arbitrary: m) (simp_all add: mem_write_undo patch_bytes_length)

section \<open>What a scanned receipt has shown\<close>

definition written_evidence :: "pending_live_patch \<Rightarrow> debug_event" where
  "written_evidence p = EvMemoryWritten (pp_stop p) (pp_address p) (pp_expected p) (pp_replacement p)"

definition failure_about :: "pending_live_patch \<Rightarrow> memory_write_failure \<Rightarrow> bool" where
  "failure_about p f \<longleftrightarrow> mf_stop f = pp_stop p \<and> mf_address f = pp_address p
     \<and> unat (mf_size f) = length (pp_expected p)"

lemma scan_event_shows:
  assumes "scan_event sid p r i e sc = Inr sc'"
  shows "sc_memory_written sc' \<longleftrightarrow> sc_memory_written sc \<or> ee_event e = written_evidence p"
    and "sc_failure sc' = Some f \<Longrightarrow> sc_failure sc = Some f \<or> ee_event e = EvMemoryWriteFailed f \<and> failure_about p f"
    and "sc_failure sc' = None \<Longrightarrow> sc_failure sc = None \<and> (\<forall>f. ee_event e \<noteq> EvMemoryWriteFailed f)"
  using assms
  by (auto simp: scan_event_def rbind_Inr_iff written_evidence_def failure_about_def
      split: debug_event.splits if_splits)

lemma scan_events_shows:
  assumes "scan_events sid p r i es sc = Inr sc'"
  shows "(sc_memory_written sc' \<longleftrightarrow> sc_memory_written sc \<or> written_evidence p \<in> ee_event ` set es)
    \<and> (\<forall>f. sc_failure sc' = Some f \<longrightarrow>
         sc_failure sc = Some f \<or> EvMemoryWriteFailed f \<in> ee_event ` set es \<and> failure_about p f)
    \<and> (sc_failure sc' = None \<longrightarrow> sc_failure sc = None \<and> (\<forall>f. EvMemoryWriteFailed f \<notin> ee_event ` set es))"
  using assms
proof (induction es arbitrary: i sc)
  case (Cons e es)
  then obtain u where u: "scan_event sid p r i e sc = Inr u" "scan_events sid p r (i + 1) es u = Inr sc'"
    by (auto simp: rbind_Inr_iff)
  show ?case
    using Cons.IH [OF u(2)] scan_event_shows [OF u(1)]
    by (auto simp: image_iff) metis+
qed simp

lemma inspect_shows:
  assumes "receipt_inspect sid p r = Inr sc"
  shows "sc_memory_written sc \<longleftrightarrow> written_evidence p \<in> ee_event ` set (rc_events r)"
    and "sc_failure sc = Some f \<Longrightarrow> EvMemoryWriteFailed f \<in> ee_event ` set (rc_events r) \<and> failure_about p f"
    and "sc_failure sc = None \<Longrightarrow> EvMemoryWriteFailed f \<notin> ee_event ` set (rc_events r)"
  using assms scan_events_shows [of sid p r 0 "rc_events r" scan_start sc]
  by (auto simp: receipt_inspect_def rbind_Inr_iff scan_start_def)

section \<open>The world\<close>

record history_world =
  hw_history :: live_patch_history
  hw_memory :: memory
  hw_applied :: bool

datatype (plugins only: code size) history_input =
    HiWrite session_id live_target_binding stop_token memory_address "u8 list" "u8 list"
  | HiUndo session_id live_target_binding stop_token
  | HiDispatch
  | HiCancel
  | HiApply
  | HiReceipt session_id live_target_binding command_receipt
  | HiLocal live_patch_receipt
  | HiUnknown

definition hw_call :: "'a history_op \<Rightarrow> history_world \<Rightarrow> history_world" where
  "hw_call m w = (let h = snd (m (hw_history w)) in
     w\<lparr>hw_history := h, hw_applied := (hw_applied w \<and> held h \<noteq> None)\<rparr>)"

definition hw_apply :: "history_world \<Rightarrow> history_world" where
  "hw_apply w = (case held (hw_history w) of
     None \<Rightarrow> w
   | Some p \<Rightarrow>
       if pp_phase p = Dispatched \<and> \<not> hw_applied w
          \<and> mem_read (hw_memory w) (pp_address p) (length (pp_expected p)) = pp_expected p
       then w\<lparr>hw_memory := mem_write (hw_memory w) (pp_address p) (pp_replacement p), hw_applied := True\<rparr>
       else w)"

definition hw_exec :: "history_input \<Rightarrow> history_world \<Rightarrow> history_world" where
  "hw_exec i w = (case i of
     HiWrite sid b stop address before after \<Rightarrow> hw_call (lh_begin_forward_write sid b stop address before after) w
   | HiUndo sid b stop \<Rightarrow> hw_call (lh_begin_undo sid b stop) w
   | HiDispatch \<Rightarrow> hw_call lh_mark_for_dispatch w
   | HiCancel \<Rightarrow> hw_call lh_cancel_before_dispatch w
   | HiApply \<Rightarrow> hw_apply w
   | HiReceipt sid b r \<Rightarrow> hw_call (lh_resolve_receipt sid b r) w
   | HiLocal r \<Rightarrow> hw_call (lh_resolve_local_receipt r) w
   | HiUnknown \<Rightarrow> hw_call lh_mark_transport_outcome_unknown w)"

text \<open>
  A host tells the truth about the pending write: it reports the write only when it was performed,
  and reports a failure as rolled back, or rejects the command without any failure report, only when
  the memory does not carry the write.
\<close>

definition failure_reported :: "command_receipt \<Rightarrow> bool" where
  "failure_reported r = list_ex (\<lambda>e. case ee_event e of EvMemoryWriteFailed f \<Rightarrow> True | _ \<Rightarrow> False) (rc_events r)"

definition receipt_truthful :: "bool \<Rightarrow> pending_live_patch \<Rightarrow> command_receipt \<Rightarrow> bool" where
  "receipt_truthful applied p r \<longleftrightarrow>
     (written_evidence p \<in> set (map ee_event (rc_events r)) \<longrightarrow> applied)
     \<and> list_all (\<lambda>e. case ee_event e of
          EvMemoryWriteFailed f \<Rightarrow> failure_about p f \<longrightarrow> is_rollback_safe (mf_recovery f) \<longrightarrow> \<not> applied
        | _ \<Rightarrow> True) (rc_events r)
     \<and> (rc_outcome r \<noteq> CoSucceeded \<longrightarrow> applied \<longrightarrow> failure_reported r)"

definition local_about :: "pending_live_patch \<Rightarrow> live_patch_receipt \<Rightarrow> bool" where
  "local_about p r \<longleftrightarrow> pp_stop p = wa_stop (lp_write r) \<and> pp_address p = wa_address (lp_write r)
     \<and> pp_expected p = wa_expected (lp_write r) \<and> pp_replacement p = wa_replacement (lp_write r)"

definition local_truthful :: "bool \<Rightarrow> pending_live_patch \<Rightarrow> live_patch_receipt \<Rightarrow> bool" where
  "local_truthful applied p r \<longleftrightarrow> (local_about p r \<longrightarrow>
     (case lp_resolution r of LrCommitted stop \<Rightarrow> applied | LrRejectedNoEffect \<Rightarrow> \<not> applied))"

definition truthful :: "history_input \<Rightarrow> history_world \<Rightarrow> bool" where
  "truthful i w = (case lh_pending (hw_history w) of
     None \<Rightarrow> True
   | Some p \<Rightarrow> (case i of
        HiReceipt sid b r \<Rightarrow> receipt_truthful (hw_applied w) p r
      | HiLocal r \<Rightarrow> local_truthful (hw_applied w) p r
      | _ \<Rightarrow> True))"

inductive hw_step :: "history_world \<Rightarrow> history_world \<Rightarrow> bool" where
  call: "truthful i w \<Longrightarrow> hw_step w (hw_exec i w)"

definition hw_initial :: "memory \<Rightarrow> history_world \<Rightarrow> bool" where
  "hw_initial original w \<longleftrightarrow> (\<exists>sid b. w = \<lparr>hw_history = lh_new sid b, hw_memory = original, hw_applied = False\<rparr>)"

section \<open>A verdict never contradicts the memory\<close>

lemma success_verdict:
  assumes "judge_success p sc = Inr v"
  shows "sc_memory_written sc \<and> v \<noteq> None"
  using assms by (cases "success_stop p sc") (auto simp: judge_success_def split: if_splits dest: sym [of "Some _"])

lemma rejection_verdict:
  assumes "judge_rejection p code message sc = Inr v"
  shows "v = None \<and> (\<forall>f. sc_failure sc = Some f \<longrightarrow> is_rollback_safe (mf_recovery f))"
  using assms by (auto simp: judge_rejection_def split: if_splits option.splits)

lemma receipt_verdict:
  assumes "judge_receipt sid b r h p = Inr v" "receipt_truthful applied p r"
  shows "applied \<longleftrightarrow> v \<noteq> None"
proof -
  obtain sc where sc: "receipt_inspect (lh_session_id h) p r = Inr sc"
    and v: "(case rc_outcome r of CoSucceeded \<Rightarrow> judge_success p sc
       | CoRejected code message \<Rightarrow> judge_rejection p code message sc) = Inr v"
    using assms(1) by (auto simp: judge_receipt_def rbind_Inr_iff map_err_Inr_iff split: option.splits)
  show ?thesis
  proof (cases "rc_outcome r")
    case CoSucceeded
    then show ?thesis
      using v success_verdict inspect_shows(1) [OF sc] assms(2) by (auto simp: receipt_truthful_def)
  next
    case (CoRejected code message)
    then have none: "v = None" and safe: "\<And>f. sc_failure sc = Some f \<Longrightarrow> is_rollback_safe (mf_recovery f)"
      using v rejection_verdict [of p code message sc v] by auto
    have "\<not> applied"
    proof (cases "sc_failure sc")
      case None
      then have "\<not> failure_reported r"
        using inspect_shows(3) [OF sc]
        by (auto simp: failure_reported_def list_ex_iff image_iff split: debug_event.splits) (metis)
      then show ?thesis using assms(2) CoRejected by (auto simp: receipt_truthful_def)
    next
      case (Some f)
      then obtain e where "e \<in> set (rc_events r)" "ee_event e = EvMemoryWriteFailed f" "failure_about p f"
        using inspect_shows(2) [OF sc] by fastforce
      then show ?thesis
        using assms(2) safe [OF Some] by (fastforce simp: receipt_truthful_def list_all_iff)
    qed
    then show ?thesis using none by simp
  qed
qed

lemma local_verdict:
  assumes "judge_local_receipt r h p = Inr v" "local_truthful applied p r"
  shows "applied \<longleftrightarrow> v \<noteq> None"
  using assms
  by (auto simp: judge_local_receipt_def local_truthful_def local_about_def Let_def
      split: if_splits option.splits live_patch_resolution.splits)

section \<open>The invariant of the world\<close>

definition hw_inv :: "memory \<Rightarrow> history_world \<Rightarrow> bool" where
  "hw_inv original w \<longleftrightarrow> lh_inv (hw_history w) \<and> faithful original (lh_entries (hw_history w))
     \<and> (let base = replay original (lh_entries (hw_history w)) in
        if hw_applied w
        then (\<exists>p. held (hw_history w) = Some p \<and> pp_phase p = Dispatched
               \<and> mem_read base (pp_address p) (length (pp_expected p)) = pp_expected p
               \<and> hw_memory w = mem_write base (pp_address p) (pp_replacement p))
        else hw_memory w = base)"

lemma hw_inv_initial: "hw_initial original w \<Longrightarrow> hw_inv original w"
  by (auto simp: hw_initial_def hw_inv_def lh_inv_new) (simp_all add: lh_new_def)

text \<open>A call that leaves the stack alone and still holds what was performed keeps the invariant.\<close>

lemma hw_inv_quiet:
  assumes "hw_inv original w" "lh_inv (snd (m (hw_history w)))"
    and "lh_entries (snd (m (hw_history w))) = lh_entries (hw_history w)"
    and "hw_applied w \<Longrightarrow> held (snd (m (hw_history w))) = held (hw_history w)"
  shows "hw_inv original (hw_call m w)"
  using assms by (cases "hw_applied w") (auto simp: hw_inv_def hw_call_def Let_def)

lemma hw_inv_apply: "hw_inv original w \<Longrightarrow> hw_inv original (hw_apply w)"
  by (auto simp: hw_inv_def hw_apply_def Let_def split: option.splits if_splits)

text \<open>A settled verdict: the stack moves by exactly the write that the memory carries.\<close>

lemma stack_after_memory:
  assumes "lh_inv h" "dispatched h p" "faithful original (lh_entries h)"
    and "mem_read (replay original (lh_entries h)) (pp_address p) (length (pp_expected p)) = pp_expected p"
  shows "faithful original (stack_after p cid stop (lh_entries h))"
    and "replay original (stack_after p cid stop (lh_entries h))
      = mem_write (replay original (lh_entries h)) (pp_address p) (pp_replacement p)"
proof -
  have fits: "op_fits h p" by (rule dispatched_fits [OF assms(1,2)])
  have "faithful original (stack_after p cid stop (lh_entries h))
    \<and> replay original (stack_after p cid stop (lh_entries h))
      = mem_write (replay original (lh_entries h)) (pp_address p) (pp_replacement p)"
  proof (cases "pp_kind p")
    case ForwardWrite
    then show ?thesis using assms(3,4) by (simp add: stack_after_def)
  next
    case Undo
    then obtain es e where e: "lh_entries h = es @ [e]" "pe_address e = pp_address p" "pe_after e = pp_expected p"
      "pe_before e = pp_replacement p" and bytes: "patch_bytes_ok (pp_expected p) (pp_replacement p)"
      using fits by (auto simp: op_fits_def)
    show ?thesis
      using assms(3) e patch_bytes_length [OF bytes]
      by (simp add: stack_after_def Undo) (metis e(2-4) mem_write_undo)
  qed
  then show "faithful original (stack_after p cid stop (lh_entries h))"
    and "replay original (stack_after p cid stop (lh_entries h))
      = mem_write (replay original (lh_entries h)) (pp_address p) (pp_replacement p)"
    by auto
qed

lemma hw_inv_settle:
  assumes w: "hw_inv original w" "dispatched (hw_history w) p"
    and m: "m (hw_history w) = lh_settle cid verdict (hw_history w)"
    and v: "\<And>v. verdict = Inr v \<Longrightarrow> hw_applied w \<longleftrightarrow> v \<noteq> None"
  shows "hw_inv original (hw_call m w)"
proof -
  let ?h = "hw_history w"
  have inv: "lh_inv ?h" using w(1) by (simp add: hw_inv_def)
  have keep: "lh_inv (snd (m ?h))" using settle_run [OF inv w(2), of cid verdict] m by auto
  have p: "lh_pending ?h = Some p" "lh_freeze_evidence ?h = None" using w(2) by (simp_all add: dispatched_def)
  consider (freeze) cause where "verdict = Inl cause" | (commit) stop where "verdict = Inr (Some stop)"
    | (reject) "verdict = Inr None"
    by (metis option.exhaust sum.exhaust)
  then show ?thesis
  proof cases
    case freeze
    show ?thesis
      by (rule hw_inv_quiet [of original w m, OF w(1) keep])
        (simp_all add: m freeze lh_settle_def freeze_eq [OF p(1)] frozen_with_def held_def p)
  next
    case commit
    then have app: "hw_applied w" using v by auto
    then have mem: "mem_read (replay original (lh_entries ?h)) (pp_address p) (length (pp_expected p)) = pp_expected p"
      "hw_memory w = mem_write (replay original (lh_entries ?h)) (pp_address p) (pp_replacement p)"
      using w(1) held_dispatched [OF w(2)] by (auto simp: hw_inv_def Let_def)
    have fa: "faithful original (lh_entries ?h)" using w(1) by (simp add: hw_inv_def)
    obtain n where n: "snd (m ?h) = (settled cid stop ?h)\<lparr>lh_stored_bytes := n, lh_entries := stack_after p cid stop (lh_entries ?h)\<rparr>"
      using commit_run [OF inv w(2), of cid stop] m commit by (auto simp: lh_settle_def)
    then have "held (snd (m ?h)) = None" using p(2) by (simp add: held_None)
    then show ?thesis
      using keep n stack_after_memory [OF inv w(2) fa mem(1), of cid stop] mem(2)
      by (simp add: hw_inv_def hw_call_def Let_def)
  next
    case reject
    then have "\<not> hw_applied w" using v by auto
    then show ?thesis
      by (intro hw_inv_quiet [of original w m, OF w(1) keep])
        (simp_all add: m reject lh_settle_def and_then_def clear_eq [OF p(1)] sm_defs)
  qed
qed

lemma hw_inv_receipt:
  assumes "hw_inv original w" "truthful (HiReceipt sid b r) w"
  shows "hw_inv original (hw_call (lh_resolve_receipt sid b r) w)"
proof (cases "\<exists>p. dispatched (hw_history w) p")
  case True
  then obtain p where p: "dispatched (hw_history w) p" by blast
  then have "receipt_truthful (hw_applied w) p r" using assms(2) by (simp add: truthful_def dispatched_def)
  then show ?thesis by (intro hw_inv_settle [OF assms(1) p, of "lh_resolve_receipt sid b r", OF resolve_receipt_eq(1) [OF p]]) (rule receipt_verdict)
next
  case False
  then show ?thesis
    using resolve_receipt_refused(1) [OF False, of sid b r] assms(1)
    by (intro hw_inv_quiet [OF assms(1)]) (auto simp: hw_inv_def)
qed

lemma hw_inv_local:
  assumes "hw_inv original w" "truthful (HiLocal r) w"
  shows "hw_inv original (hw_call (lh_resolve_local_receipt r) w)"
proof (cases "\<exists>p. dispatched (hw_history w) p")
  case True
  then obtain p where p: "dispatched (hw_history w) p" by blast
  then have "local_truthful (hw_applied w) p r" using assms(2) by (simp add: truthful_def dispatched_def)
  then show ?thesis by (intro hw_inv_settle [OF assms(1) p, of "lh_resolve_local_receipt r", OF resolve_receipt_eq(2) [OF p]]) (rule local_verdict)
next
  case False
  then show ?thesis
    using resolve_receipt_refused(2) [OF False, of r] assms(1)
    by (intro hw_inv_quiet [OF assms(1)]) (auto simp: hw_inv_def)
qed

lemma hw_inv_unknown:
  assumes "hw_inv original w"
  shows "hw_inv original (hw_call lh_mark_transport_outcome_unknown w)"
proof (cases "\<exists>p. dispatched (hw_history w) p")
  case True
  then obtain p where p: "dispatched (hw_history w) p" by blast
  then have "lh_pending (hw_history w) = Some p" by (simp add: dispatched_def)
  then show ?thesis
    using lh_inv_frozen [OF _ p] assms
    by (intro hw_inv_quiet [OF assms])
      (auto simp: hw_inv_def outcome_unknown_eq [OF p] freeze_eq frozen_with_def held_def)
next
  case False
  then show ?thesis
    using outcome_unknown_refused [OF False] assms by (intro hw_inv_quiet [OF assms]) (auto simp: hw_inv_def)
qed

text \<open>The operations before dispatch change no stack, and nothing is performed that they could drop.\<close>

lemma hw_inv_before_dispatch:
  assumes w: "hw_inv original w"
    and refused: "\<And>x t. m (hw_history w) = (Inl x, t) \<Longrightarrow> t = hw_history w"
    and moved: "\<And>u t. m (hw_history w) = (Inr u, t) \<Longrightarrow> lh_inv t \<and> lh_entries t = lh_entries (hw_history w)
       \<and> (\<forall>p. held (hw_history w) = Some p \<longrightarrow> pp_phase p = Reserved)"
  shows "hw_inv original (hw_call m w)"
proof (cases "m (hw_history w)")
  case (Pair r t)
  show ?thesis
  proof (cases r)
    case (Inl x)
    then show ?thesis using w refused Pair by (intro hw_inv_quiet [OF w]) (auto simp: hw_inv_def)
  next
    case (Inr u)
    then have t: "lh_inv t" "lh_entries t = lh_entries (hw_history w)"
      "\<And>p. held (hw_history w) = Some p \<Longrightarrow> pp_phase p = Reserved"
      using moved Pair by auto
    then have "\<not> hw_applied w" using w by (force simp: hw_inv_def Let_def)
    then show ?thesis using t Pair by (intro hw_inv_quiet [OF w]) auto
  qed
qed

lemma hw_inv_exec:
  assumes "hw_inv original w" "truthful i w"
  shows "hw_inv original (hw_exec i w)"
proof -
  have h: "lh_inv (hw_history w)" using assms(1) by (simp add: hw_inv_def)
  note before = hw_inv_before_dispatch [OF assms(1)]
  show ?thesis
  proof (cases i)
    case (HiWrite sid b stop address bf af)
    have "hw_inv original (hw_call (lh_begin_forward_write sid b stop address bf af) w)"
      by (rule before, blast dest: begin_refused(1))
        (use lh_inv_begin(1) [OF h] in \<open>auto simp: begin_forward_iff ready_def\<close>)
    then show ?thesis by (simp add: hw_exec_def HiWrite)
  next
    case (HiUndo sid b stop)
    have "hw_inv original (hw_call (lh_begin_undo sid b stop) w)"
      by (rule before, blast dest: begin_refused(2))
        (use lh_inv_begin(2) [OF h] in \<open>auto simp: begin_undo_iff ready_def Let_def\<close>)
    then show ?thesis by (simp add: hw_exec_def HiUndo)
  next
    case HiDispatch
    have "hw_inv original (hw_call lh_mark_for_dispatch w)"
      by (rule before, blast dest: begin_refused(3))
        (use lh_inv_dispatch [OF h] in \<open>auto simp: mark_for_dispatch_iff held_def\<close>)
    then show ?thesis by (simp add: hw_exec_def HiDispatch)
  next
    case HiCancel
    have "hw_inv original (hw_call lh_cancel_before_dispatch w)"
      by (rule before, blast dest: begin_refused(4))
        (use lh_inv_cancel [OF h] in \<open>auto simp: cancel_iff held_def\<close>)
    then show ?thesis by (simp add: hw_exec_def HiCancel)
  next
    case (HiReceipt sid b r)
    then show ?thesis using hw_inv_receipt [OF assms(1)] assms(2) by (simp add: hw_exec_def)
  next
    case (HiLocal r)
    then show ?thesis using hw_inv_local [OF assms(1)] assms(2) by (simp add: hw_exec_def)
  qed (simp_all add: hw_exec_def hw_inv_apply hw_inv_unknown assms(1))
qed

interpretation hw: reducer "hw_initial original" hw_step "hw_inv original" for original
  by unfold_locales (auto intro: hw_inv_initial hw_inv_exec elim!: hw_step.cases)

lemma hw_reach:
  "reachable (hw_initial original) hw_step w \<Longrightarrow> truthful i w \<Longrightarrow> reachable (hw_initial original) hw_step (hw_exec i w)"
  by (blast intro: reachable.next_state hw_step.call)

text \<open>A frozen history answers every call with the same refusal and never changes.\<close>

lemma frozen_refuses:
  assumes "lh_freeze_evidence h \<noteq> None"
  shows "lh_begin_forward_write sid b stop address before after h = (Inl LhInspectionOnly, h)"
    and "lh_begin_undo sid b stop h = (Inl LhInspectionOnly, h)"
    and "lh_mark_for_dispatch h = (Inl LhInspectionOnly, h)"
    and "lh_cancel_before_dispatch h = (Inl LhInspectionOnly, h)"
    and "lh_resolve_receipt sid b r h = (Inl LhInspectionOnly, h)"
    and "lh_resolve_local_receipt l h = (Inl LhInspectionOnly, h)"
    and "lh_mark_transport_outcome_unknown h = (Inl LhInspectionOnly, h)"
  using assms
  by (auto simp: lh_begin_forward_write_def lh_begin_undo_def lh_mark_for_dispatch_def lh_cancel_before_dispatch_def
      lh_resolve_receipt_def lh_resolve_local_receipt_def lh_mark_transport_outcome_unknown_def
      lh_require_ready_context_def lh_receipt_gate_def lh_require_dispatched_pending_def and_then_def sm_defs)

lemma frozen_exec: "lh_freeze_evidence (hw_history w) \<noteq> None \<Longrightarrow> hw_history (hw_exec i w) = hw_history w"
  by (cases i) (simp_all add: hw_exec_def hw_call_def frozen_refuses Let_def hw_apply_def split: option.split)

interpretation frozen: trap "hw_initial original" hw_step "hw_inv original"
    "\<lambda>w. hw_history w = h \<and> lh_freeze_evidence h \<noteq> None" for original h
  by unfold_locales (auto simp: frozen_exec elim!: hw_step.cases)

end
