(* ===== verification/Patch_Receipts.thy ===== *)
theory Patch_Receipts
  imports Patch_World
begin

text \<open>
  The scan of a receipt against a declarative account of it: which event lists pass the loop, what
  the loop has counted at its end, and the one shape of receipt on which a history commits.
\<close>

section \<open>What passes the scan\<close>

definition event_fine :: "session_id \<Rightarrow> pending_live_patch \<Rightarrow> command_receipt \<Rightarrow> event_envelope \<Rightarrow> bool" where
  "event_fine sid p r e \<longleftrightarrow> ee_caused_by e = Some (rc_command_id r) \<and> ee_session_id e = Some sid \<and> (case ee_event e of
     EvCommandResult cid outcome \<Rightarrow> cid = rc_command_id r \<and> outcome = rc_outcome r
   | EvMemoryWritten stop address before after \<Rightarrow>
       ee_event e = written_evidence p \<and> ee_state e = Some (sk_state (pp_stop p))
   | EvStateChanged state \<Rightarrow> ee_state e = Some (session_state_token state)
   | _ \<Rightarrow> True)"

definition is_warning :: "debug_event \<Rightarrow> bool" where
  "is_warning ev = (case ev of EvWarning code message \<Rightarrow> True | _ \<Rightarrow> False)"

text \<open>The events that a scan neither counts, records nor ignores.\<close>

definition is_other_effect :: "debug_event \<Rightarrow> bool" where
  "is_other_effect ev = (case ev of
     EvCommandResult cid outcome \<Rightarrow> False
   | EvMemoryWritten stop address before after \<Rightarrow> False
   | EvMemoryWriteFailed f \<Rightarrow> False
   | EvStateChanged state \<Rightarrow> False
   | EvWarning code message \<Rightarrow> False
   | _ \<Rightarrow> True)"

definition result_event :: "command_receipt \<Rightarrow> debug_event" where
  "result_event r = EvCommandResult (rc_command_id r) (rc_outcome r)"

primrec states_of :: "debug_event list \<Rightarrow> session_state list" where
  "states_of [] = []"
| "states_of (ev # evs) = (case ev of EvStateChanged state \<Rightarrow> state # states_of evs | _ \<Rightarrow> states_of evs)"

lemma written_not [simp]:
  "written_evidence p \<noteq> EvStateChanged s" "EvStateChanged s \<noteq> written_evidence p"
  "written_evidence p \<noteq> result_event r" "result_event r \<noteq> written_evidence p"
  "result_event r \<noteq> EvStateChanged s" "EvStateChanged s \<noteq> result_event r"
  by (simp_all add: written_evidence_def result_event_def)

lemma not_warning [simp]:
  "\<not> is_warning (written_evidence p)" "\<not> is_warning (EvStateChanged s)" "\<not> is_warning (result_event r)"
  by (simp_all add: is_warning_def written_evidence_def result_event_def)

lemma scan_event_account:
  assumes "scan_event sid p r i e sc = Inr sc'"
  shows "event_fine sid p r e"
    and "sc_states sc' = sc_states sc @ states_of [ee_event e]"
    and "of_bool (sc_memory_written sc') = (of_bool (sc_memory_written sc) + (if ee_event e = written_evidence p then 1 else 0) :: nat)"
    and "sc_command_results sc' = sc_command_results sc + (if ee_event e = result_event r then 1 else 0)"
    and "sc_unexpected_effect sc' \<longleftrightarrow> sc_unexpected_effect sc \<or> is_other_effect (ee_event e)"
    and "ee_event e = result_event r \<and> sc_result_index sc' = Some i \<and> sc_command_result_state sc' = ee_state e
      \<or> sc_result_index sc' = sc_result_index sc"
  using assms
  by (auto simp: scan_event_def rbind_Inr_iff event_fine_def written_evidence_def result_event_def is_other_effect_def
      split: debug_event.splits if_splits)

lemma scan_events_account:
  assumes "scan_events sid p r i es sc = Inr sc'"
  shows "list_all (event_fine sid p r) es \<and> sc_states sc' = sc_states sc @ states_of (map ee_event es)
    \<and> of_bool (sc_memory_written sc') = (of_bool (sc_memory_written sc) + count_list (map ee_event es) (written_evidence p) :: nat)
    \<and> sc_command_results sc' = sc_command_results sc + count_list (map ee_event es) (result_event r)
    \<and> (sc_unexpected_effect sc' \<longleftrightarrow> sc_unexpected_effect sc \<or> list_ex is_other_effect (map ee_event es))
    \<and> (sc_result_index sc' = sc_result_index sc \<or> (\<exists>j < i + length es. sc_result_index sc' = Some j))"
  using assms
proof (induction es arbitrary: i sc)
  case (Cons e es)
  then obtain u where u: "scan_event sid p r i e sc = Inr u" "scan_events sid p r (i + 1) es u = Inr sc'"
    by (auto simp: rbind_Inr_iff)
  have "sc_states sc @ states_of (map ee_event (e # es)) = sc_states u @ states_of (map ee_event es)"
    by (simp add: scan_event_account(2) [OF u(1)] split: debug_event.split)
  moreover have "sc_result_index sc' = sc_result_index sc \<or> (\<exists>j < i + length (e # es). sc_result_index sc' = Some j)"
    using Cons.IH [OF u(2)] scan_event_account(6) [OF u(1)] by auto
  ultimately show ?case
    using Cons.IH [OF u(2)] scan_event_account(1,3-5) [OF u(1)] by simp
qed simp

lemma scan_events_append:
  "scan_events sid p r i (xs @ ys) sc = rbind (scan_events sid p r i xs sc) (scan_events sid p r (i + length xs) ys)"
  by (induction xs arbitrary: i sc) (simp_all add: rbind_def split: sum.split)

section \<open>The receipt that commits\<close>

text \<open>
  The written evidence of exactly the pending write at the pending stop, one refresh to the exact
  successor of that stop, and one success result as the last event; nothing else but warnings, all
  of it correlated with the command and the session.
\<close>

definition exact_success :: "session_id \<Rightarrow> pending_live_patch \<Rightarrow> command_receipt \<Rightarrow> session_state \<Rightarrow> bool" where
  "exact_success sid p r state \<longleftrightarrow> (case state of
     StStopped stop reason tid \<Rightarrow>
       is_exact_successor_stop (pp_stop p) stop \<and> rc_outcome r = CoSucceeded
       \<and> list_all (\<lambda>e. ee_caused_by e = Some (rc_command_id r) \<and> ee_session_id e = Some sid
            \<and> (ee_event e = written_evidence p \<and> ee_state e = Some (sk_state (pp_stop p))
               \<or> ee_event e \<in> {EvStateChanged state, result_event r} \<and> ee_state e = Some (sk_state stop)
               \<or> is_warning (ee_event e))) (rc_events r)
       \<and> (\<forall>ev \<in> {written_evidence p, EvStateChanged state, result_event r}. count_list (map ee_event (rc_events r)) ev = 1)
       \<and> rc_events r \<noteq> [] \<and> ee_event (last (rc_events r)) = result_event r
   | _ \<Rightarrow> False)"

lemma exact_success_stopped:
  "exact_success sid p r state \<Longrightarrow> \<exists>stop reason tid. state = StStopped stop reason tid"
  by (cases state) (simp_all add: exact_success_def)

lemma success_stop_Some:
  "success_stop p sc = Some stop \<longleftrightarrow> is_exact_successor_stop (pp_stop p) stop
     \<and> sc_command_result_state sc = Some (sk_state stop) \<and> (\<exists>reason tid. sc_states sc = [StStopped stop reason tid])"
  by (auto simp: success_stop_def is_exact_successor_stop_def split: list.split session_state.split)

lemma judge_success_Inr:
  "judge_success p sc = Inr (Some stop) \<longleftrightarrow> sc_failure sc = None \<and> \<not> sc_unexpected_effect sc \<and> sc_memory_written sc
     \<and> success_stop p sc = Some stop"
  by (cases "success_stop p sc") (auto simp: judge_success_def)

lemma states_of_singleton:
  assumes "states_of evs = [s]"
  shows "count_list evs (EvStateChanged s) = 1 \<and> (\<forall>s'. EvStateChanged s' \<in> set evs \<longrightarrow> s' = s)"
proof -
  have none: "EvStateChanged s' \<notin> set evs" if "states_of evs = []" for s' evs
    using that by (induction evs) (auto split: debug_event.splits)
  show ?thesis
    using assms
  proof (induction evs)
    case (Cons ev evs)
    show ?case
    proof (cases "\<exists>s'. ev = EvStateChanged s'")
      case True
      then have "ev = EvStateChanged s" "states_of evs = []" using Cons.prems by auto
      then show ?thesis using none by (auto simp: count_list_0_iff)
    next
      case False
      then have "states_of evs = [s]" using Cons.prems by (cases ev) auto
      then show ?thesis using Cons.IH False by auto
    qed
  qed simp
qed

lemma inspected_exact:
  assumes "receipt_inspect sid p r = Inr sc" "judge_success p sc = Inr (Some stop)" "rc_outcome r = CoSucceeded"
  shows "\<exists>reason tid. exact_success sid p r (StStopped stop reason tid)"
proof -
  let ?evs = "map ee_event (rc_events r)"
  have ne: "rc_events r \<noteq> []" and scan: "scan_events sid p r 0 (rc_events r) scan_start = Inr sc"
    and one: "sc_command_results sc = 1" and idx: "sc_result_index sc = Some (length (rc_events r) - 1)"
    using assms(1) by (auto simp: receipt_inspect_def rbind_Inr_iff)
  obtain reason tid where st: "sc_states sc = [StStopped stop reason tid]" "is_exact_successor_stop (pp_stop p) stop"
      "sc_command_result_state sc = Some (sk_state stop)"
    and j: "sc_failure sc = None" "\<not> sc_unexpected_effect sc" "sc_memory_written sc"
    using assms(2) by (auto simp: judge_success_Inr success_stop_Some)
  have acc: "list_all (event_fine sid p r) (rc_events r)" "states_of ?evs = [StStopped stop reason tid]"
      "count_list ?evs (written_evidence p) = 1" "count_list ?evs (result_event r) = 1" "\<not> list_ex is_other_effect ?evs"
    using scan_events_account [OF scan] st j one by (auto simp: scan_start_def)
  have states: "count_list ?evs (EvStateChanged (StStopped stop reason tid)) = 1"
      "\<And>s. EvStateChanged s \<in> set ?evs \<Longrightarrow> s = StStopped stop reason tid"
    using states_of_singleton [OF acc(2)] by auto
  obtain xs e where xs: "rc_events r = xs @ [e]" using ne by (metis append_butlast_last_id)
  then obtain u where u: "scan_events sid p r 0 xs scan_start = Inr u" "scan_event sid p r (length xs) e u = Inr sc"
    using scan by (auto simp: scan_events_append rbind_Inr_iff)
  have "sc_result_index u \<noteq> Some (length xs)"
    using scan_events_account [OF u(1)] by (auto simp: scan_start_def)
  then have last: "ee_event e = result_event r" "ee_state e = Some (sk_state stop)"
    using scan_event_account(6) [OF u(2)] idx st(3) xs by auto
  have only: "e' = e" if e': "e' \<in> set (rc_events r)" "ee_event e' = result_event r" for e'
  proof -
    have "count_list (map ee_event xs) (result_event r) = 0" using acc(4) last(1) by (simp add: xs)
    then show ?thesis using e' xs by (force simp: count_list_0_iff)
  qed
  have "ee_event e' = written_evidence p \<and> ee_state e' = Some (sk_state (pp_stop p))
      \<or> ee_event e' \<in> {EvStateChanged (StStopped stop reason tid), result_event r} \<and> ee_state e' = Some (sk_state stop)
      \<or> is_warning (ee_event e')" if e': "e' \<in> set (rc_events r)" for e'
  proof -
    have "ee_event e' \<noteq> EvMemoryWriteFailed f" for f
      using inspect_shows(3) [OF assms(1) j(1), of f] e' by force
    moreover have "event_fine sid p r e'" "\<not> is_other_effect (ee_event e')"
      using acc(1,5) e' by (auto simp: list_all_iff list_ex_iff)
    ultimately show ?thesis
      using only [OF e'] last states(2) e'
      by (cases "ee_event e'")
        (force simp: event_fine_def is_other_effect_def is_warning_def result_event_def image_iff)+
  qed
  then have "exact_success sid p r (StStopped stop reason tid)"
    using st(2) assms(3) acc states(1) ne last(1) xs by (auto simp: exact_success_def list_all_iff event_fine_def)
  then show ?thesis by blast
qed

text \<open>Conversely, the loop runs through such a receipt and records it as it should.\<close>

lemma warning_scans:
  assumes "ee_caused_by e = Some (rc_command_id r)" "ee_session_id e = Some sid"
  shows "is_warning (ee_event e) \<Longrightarrow> scan_event sid p r i e sc = Inr sc"
    and "ee_event e = EvStateChanged s \<Longrightarrow> ee_state e = Some (session_state_token s) \<Longrightarrow>
      scan_event sid p r i e sc = Inr (sc\<lparr>sc_state_changes := sc_state_changes sc + 1, sc_states := sc_states sc @ [s]\<rparr>)"
    and "ee_event e = written_evidence p \<Longrightarrow> ee_state e = Some (sk_state (pp_stop p)) \<Longrightarrow> \<not> sc_memory_written sc \<Longrightarrow>
      scan_event sid p r i e sc = Inr (sc\<lparr>sc_memory_written := True\<rparr>)"
    and "ee_event e = result_event r \<Longrightarrow> scan_event sid p r i e sc = Inr (sc\<lparr>sc_command_results := sc_command_results sc + 1,
      sc_result_index := Some i, sc_command_result_state := ee_state e\<rparr>)"
  using assms
  by (auto simp: scan_event_def is_warning_def written_evidence_def result_event_def split: debug_event.splits)

lemma exact_prefix_scans:
  assumes "list_all (\<lambda>e. ee_caused_by e = Some (rc_command_id r) \<and> ee_session_id e = Some sid
      \<and> (ee_event e = written_evidence p \<and> ee_state e = Some (sk_state (pp_stop p))
         \<or> ee_event e = EvStateChanged s \<and> ee_state e = Some (session_state_token s)
         \<or> is_warning (ee_event e))) es"
    and "of_bool (sc_memory_written sc) + count_list (map ee_event es) (written_evidence p) \<le> (1 :: nat)"
  shows "\<exists>sc'. scan_events sid p r i es sc = Inr sc'
    \<and> sc' = sc\<lparr>sc_memory_written := (sc_memory_written sc \<or> 0 < count_list (map ee_event es) (written_evidence p)),
        sc_state_changes := sc_state_changes sc + count_list (map ee_event es) (EvStateChanged s),
        sc_states := sc_states sc @ replicate (count_list (map ee_event es) (EvStateChanged s)) s\<rparr>"
  using assms
proof (induction es arbitrary: i sc)
  case (Cons e es)
  have c: "ee_caused_by e = Some (rc_command_id r)" "ee_session_id e = Some sid" using Cons.prems(1) by simp_all
  consider (written) "ee_event e = written_evidence p" "ee_state e = Some (sk_state (pp_stop p))"
    | (state) "ee_event e = EvStateChanged s" "ee_state e = Some (session_state_token s)"
    | (warning) "is_warning (ee_event e)" "ee_event e \<noteq> written_evidence p" "ee_event e \<noteq> EvStateChanged s"
    using Cons.prems(1) by (cases "ee_event e = written_evidence p"; cases "ee_event e = EvStateChanged s") auto
  then show ?case
  proof cases
    case written
    then have "\<not> sc_memory_written sc" using Cons.prems(2) by (cases "sc_memory_written sc") auto
    then show ?thesis
      using Cons.IH [of "sc\<lparr>sc_memory_written := True\<rparr>" "i + 1"] Cons.prems written by (simp add: warning_scans(3) [OF c])
  next
    case state
    then show ?thesis
      using Cons.IH [of "sc\<lparr>sc_state_changes := sc_state_changes sc + 1, sc_states := sc_states sc @ [s]\<rparr>" "i + 1"]
        Cons.prems by (simp add: warning_scans(2) [OF c])
  next
    case warning
    then show ?thesis using Cons.IH [of sc "i + 1"] Cons.prems by (simp add: warning_scans(1) [OF c])
  qed
qed simp

lemma exact_inspected:
  assumes "exact_success sid p r (StStopped stop reason tid)"
  shows "\<exists>sc. receipt_inspect sid p r = Inr sc \<and> judge_success p sc = Inr (Some stop)"
proof -
  let ?s = "StStopped stop reason tid"
  have x: "is_exact_successor_stop (pp_stop p) stop" "rc_events r \<noteq> []" "ee_event (last (rc_events r)) = result_event r"
    using assms by (simp_all add: exact_success_def)
  then obtain xs e where xs: "rc_events r = xs @ [e]" "ee_event e = result_event r"
    by (metis append_butlast_last_id last_snoc)
  have c: "ee_caused_by e = Some (rc_command_id r)" "ee_session_id e = Some sid"
    using assms xs by (simp_all add: exact_success_def)
  have counts: "count_list (map ee_event xs) (written_evidence p) = 1" "count_list (map ee_event xs) (EvStateChanged ?s) = 1"
      "result_event r \<notin> set (map ee_event xs)"
    using assms by (simp_all add: exact_success_def xs count_list_0_iff)
  have e: "ee_state e = Some (sk_state stop)"
    using assms xs by (auto simp: exact_success_def is_warning_def result_event_def written_evidence_def)
  have fine: "list_all (\<lambda>e. ee_caused_by e = Some (rc_command_id r) \<and> ee_session_id e = Some sid
      \<and> (ee_event e = written_evidence p \<and> ee_state e = Some (sk_state (pp_stop p))
         \<or> ee_event e = EvStateChanged ?s \<and> ee_state e = Some (session_state_token ?s)
         \<or> is_warning (ee_event e))) xs"
    unfolding list_all_iff
  proof
    fix f
    assume f: "f \<in> set xs"
    then have "ee_event f \<noteq> result_event r" using counts(3) by force
    then show "ee_caused_by f = Some (rc_command_id r) \<and> ee_session_id f = Some sid
      \<and> (ee_event f = written_evidence p \<and> ee_state f = Some (sk_state (pp_stop p))
         \<or> ee_event f = EvStateChanged ?s \<and> ee_state f = Some (session_state_token ?s)
         \<or> is_warning (ee_event f))"
      using assms f by (auto simp: exact_success_def xs list_all_iff)
  qed
  obtain u where u: "scan_events sid p r 0 xs scan_start = Inr u"
    "u = scan_start\<lparr>sc_memory_written := True, sc_state_changes := 1, sc_states := [?s]\<rparr>"
    using exact_prefix_scans [OF fine, of scan_start 0] by (auto simp: counts scan_start_def)
  then show ?thesis
    using xs e x(1)
    by (simp add: receipt_inspect_def scan_events_append warning_scans(4) [OF c] judge_success_Inr success_stop_Some)
      (simp add: scan_start_def)
qed

text \<open>Which receipts commit, over the history itself.\<close>

lemma receipt_commits_iff:
  "judge_receipt sid b r h p = Inr (Some stop) \<longleftrightarrow>
     lh_context_drift sid b (rc_command_id r) h = None
     \<and> (\<exists>reason tid. exact_success (lh_session_id h) p r (StStopped stop reason tid))"
proof
  assume a: "judge_receipt sid b r h p = Inr (Some stop)"
  then have d: "lh_context_drift sid b (rc_command_id r) h = None" by (simp add: judge_receipt_def split: option.splits)
  then obtain sc where sc: "receipt_inspect (lh_session_id h) p r = Inr sc"
    "(case rc_outcome r of CoSucceeded \<Rightarrow> judge_success p sc
       | CoRejected code message \<Rightarrow> judge_rejection p code message sc) = Inr (Some stop)"
    using a by (auto simp: judge_receipt_def rbind_Inr_iff)
  then have o: "rc_outcome r = CoSucceeded"
    by (cases "rc_outcome r") (auto dest: rejection_verdict)
  then show "lh_context_drift sid b (rc_command_id r) h = None
     \<and> (\<exists>reason tid. exact_success (lh_session_id h) p r (StStopped stop reason tid))"
    using d inspected_exact [OF sc(1) _ o] sc(2) by simp
next
  assume a: "lh_context_drift sid b (rc_command_id r) h = None
     \<and> (\<exists>reason tid. exact_success (lh_session_id h) p r (StStopped stop reason tid))"
  then obtain reason tid where x: "exact_success (lh_session_id h) p r (StStopped stop reason tid)" by blast
  then have "rc_outcome r = CoSucceeded" by (simp add: exact_success_def)
  then show "judge_receipt sid b r h p = Inr (Some stop)"
    using a exact_inspected [OF x] by (auto simp: judge_receipt_def)
qed

end
