(* ===== verification/Patch_Properties.thy ===== *)
theory Patch_Properties
  imports Patch_Receipts Protocol_Examples
begin

text \<open>
  What the live patch history promises: the memory is the replay of its stack, its bounds hold and
  it cannot panic, it commits on exactly one shape of receipt, and every patched memory can be
  brought back.  A concrete run closes the theory.
\<close>

section \<open>Faithfulness and bounds\<close>

text \<open>
  C10. The stack explains the memory.  In every reachable world the memory is the original one with
  the stack replayed over it, up to the one dispatched write that the history still holds, pending
  or frozen; taking the stack off the replayed memory, newest patch first, gives the original memory
  bit for bit, so with nothing held the undo stack restores the debuggee exactly.
\<close>

theorem patch_history_faithful:
  assumes "reachable (hw_initial original) hw_step w"
  defines "base \<equiv> replay original (lh_entries (hw_history w))"
  shows "(hw_memory w = base
      \<or> (\<exists>p. held (hw_history w) = Some p \<and> pp_phase p = Dispatched
           \<and> mem_read base (pp_address p) (length (pp_expected p)) = pp_expected p
           \<and> hw_memory w = mem_write base (pp_address p) (pp_replacement p)))
    \<and> unwind base (lh_entries (hw_history w)) = original
    \<and> (held (hw_history w) = None \<longrightarrow> unwind (hw_memory w) (lh_entries (hw_history w)) = original)"
proof -
  have inv: "hw_inv original w" by (rule hw.reachable_inv [OF assms(1)])
  then have "unwind base (lh_entries (hw_history w)) = original"
    unfolding base_def by (intro unwind_replay) (auto simp: hw_inv_def lh_inv_def)
  then show ?thesis using inv by (auto simp: hw_inv_def base_def Let_def split: if_splits)
qed

definition history_call :: "history_input \<Rightarrow> live_patch_history \<Rightarrow> history_error option" where
  "history_call i h = (case i of
     HiWrite sid b stop address before after \<Rightarrow>
       (case fst (lh_begin_forward_write sid b stop address before after h) of Inl x \<Rightarrow> Some x | Inr _ \<Rightarrow> None)
   | HiUndo sid b stop \<Rightarrow> (case fst (lh_begin_undo sid b stop h) of Inl x \<Rightarrow> Some x | Inr _ \<Rightarrow> None)
   | HiDispatch \<Rightarrow> (case fst (lh_mark_for_dispatch h) of Inl x \<Rightarrow> Some x | Inr _ \<Rightarrow> None)
   | HiCancel \<Rightarrow> (case fst (lh_cancel_before_dispatch h) of Inl x \<Rightarrow> Some x | Inr _ \<Rightarrow> None)
   | HiApply \<Rightarrow> None
   | HiReceipt sid b r \<Rightarrow> (case fst (lh_resolve_receipt sid b r h) of Inl x \<Rightarrow> Some x | Inr _ \<Rightarrow> None)
   | HiLocal r \<Rightarrow> (case fst (lh_resolve_local_receipt r h) of Inl x \<Rightarrow> Some x | Inr _ \<Rightarrow> None)
   | HiUnknown \<Rightarrow> (case fst (lh_mark_transport_outcome_unknown h) of Inl x \<Rightarrow> Some x | Inr _ \<Rightarrow> None))"

lemma begin_no_panic:
  "fst (lh_begin_forward_write sid b stop address before after h) \<noteq> Inl LhPanic"
  "fst (lh_begin_undo sid b stop h) \<noteq> Inl LhPanic"
  "fst (lh_mark_for_dispatch h) \<noteq> Inl LhPanic"
  "fst (lh_cancel_before_dispatch h) \<noteq> Inl LhPanic"
  by (auto simp: lh_begin_forward_write_def lh_begin_undo_def lh_mark_for_dispatch_def lh_cancel_before_dispatch_def
      and_then_def sm_defs Let_def lh_require_ready_context_def validate_patch_bytes_def lh_validate_image_span_def
      rbind_Inl_iff ok_or_def guard_def rbind_def map_err_def split: sum.splits option.splits if_splits)

lemma resolve_no_panic:
  assumes "lh_inv h"
  shows "fst (lh_resolve_receipt sid b r h) \<noteq> Inl LhPanic" "fst (lh_resolve_local_receipt l h) \<noteq> Inl LhPanic"
    "fst (lh_mark_transport_outcome_unknown h) \<noteq> Inl LhPanic"
proof -
  have "fst (lh_resolve_receipt sid b r h) \<noteq> Inl LhPanic \<and> fst (lh_resolve_local_receipt l h) \<noteq> Inl LhPanic
    \<and> fst (lh_mark_transport_outcome_unknown h) \<noteq> Inl LhPanic"
  proof (cases "\<exists>p. dispatched h p")
    case True
    then obtain p where p: "dispatched h p" by blast
    then have "lh_pending h = Some p" by (simp add: dispatched_def)
    moreover have "fst (lh_settle cid verdict h) \<noteq> Inl LhPanic" for cid verdict
      using settle_run [OF assms p, of cid verdict] by auto
    ultimately show ?thesis by (simp add: resolve_receipt_eq [OF p] outcome_unknown_eq [OF p] freeze_eq)
  next
    case False
    then show ?thesis
      using resolve_receipt_refused(1) [OF False, of sid b r] resolve_receipt_refused(2) [OF False, of l]
        outcome_unknown_refused [OF False] by auto
  qed
  then show "fst (lh_resolve_receipt sid b r h) \<noteq> Inl LhPanic" "fst (lh_resolve_local_receipt l h) \<noteq> Inl LhPanic"
    "fst (lh_mark_transport_outcome_unknown h) \<noteq> Inl LhPanic"
    by auto
qed

text \<open>
  C15. Bounds and refusals.  A reachable history never holds more than 256 entries nor accounts for
  more than one mebibyte, its reservation included, the account is the exact sum over the stack, no
  call with any arguments reaches a panic, and a frozen history refuses every call and never changes
  again.
\<close>

theorem patch_history_bounded:
  assumes "reachable (hw_initial original) hw_step w"
  defines "h \<equiv> hw_history w"
  shows "length (lh_entries h) \<le> 256 \<and> lh_reserved_bytes h \<le> 1048576
    \<and> lh_stored_bytes h = sum_list (map entry_stored_bytes (lh_entries h))
    \<and> history_call i h \<noteq> Some LhPanic
    \<and> (lh_freeze_evidence h \<noteq> None \<longrightarrow>
         (i = HiApply \<or> history_call i h = Some LhInspectionOnly) \<and> (hw_step\<^sup>*\<^sup>* w v \<longrightarrow> hw_history v = h))"
proof -
  have world: "hw_inv original w" by (rule hw.reachable_inv [OF assms(1)])
  then have inv: "lh_inv h" by (simp add: hw_inv_def h_def)
  have "lh_reserved_bytes h \<le> 1048576"
  proof (cases "held h")
    case None
    then have "lh_reserved_bytes h = lh_stored_bytes h" by (simp add: lh_reserved_bytes_def held_def [symmetric])
    then show ?thesis using inv by (simp add: lh_inv_def history_bounds)
  next
    case (Some p)
    then have "op_fits h p" and r: "lh_reserved_bytes h = lh_stored_bytes h + reserved_history_bytes p"
      using inv by (simp_all add: lh_inv_def lh_reserved_bytes_def held_def [symmetric])
    then show ?thesis
      using inv by (cases "pp_kind p") (simp_all add: op_fits_def lh_inv_def history_bounds reserved_history_bytes_def)
  qed
  moreover have "history_call i h \<noteq> Some LhPanic"
    by (cases i) (auto simp: history_call_def begin_no_panic resolve_no_panic [OF inv] split: sum.splits)
  moreover have "hw_history v = h" if "lh_freeze_evidence h \<noteq> None" "hw_step\<^sup>*\<^sup>* w v"
    using frozen.run_stuck [OF that(2) world, of h] that(1) by (simp add: h_def)
  moreover have "i = HiApply \<or> history_call i h = Some LhInspectionOnly" if "lh_freeze_evidence h \<noteq> None"
    by (cases i) (simp_all add: history_call_def frozen_refuses [OF that])
  ultimately show ?thesis using inv by (simp add: lh_inv_def history_bounds)
qed

section \<open>Receipts\<close>

definition commits :: "history_error + patch_resolution \<Rightarrow> bool" where
  "commits res = (case res of Inr (ForwardCommitted e) \<Rightarrow> True | Inr (UndoCommitted e) \<Rightarrow> True | _ \<Rightarrow> False)"

text \<open>How a resolution moves the stack.\<close>

definition stack_moves :: "history_error + patch_resolution \<Rightarrow> live_patch_entry list \<Rightarrow> live_patch_entry list \<Rightarrow> bool" where
  "stack_moves res old new = (case res of
     Inr (ForwardCommitted e) \<Rightarrow> new = old @ [e]
   | Inr (UndoCommitted e) \<Rightarrow> old = new @ [e]
   | _ \<Rightarrow> new = old)"

lemma settle_moves:
  assumes "lh_inv h" "dispatched h p" "lh_settle cid verdict h = (res, t)"
  shows "commits res \<longleftrightarrow> (\<exists>stop. verdict = Inr (Some stop))" and "stack_moves res (lh_entries h) (lh_entries t)"
proof -
  have p: "lh_pending h = Some p" using assms(2) by (simp add: dispatched_def)
  consider (freeze) cause where "verdict = Inl cause" | (commit) stop where "verdict = Inr (Some stop)"
    | (reject) "verdict = Inr None"
    by (metis option.exhaust sum.exhaust)
  then have "(commits res \<longleftrightarrow> (\<exists>stop. verdict = Inr (Some stop))) \<and> stack_moves res (lh_entries h) (lh_entries t)"
  proof cases
    case freeze
    then show ?thesis
      using assms(3) by (auto simp: lh_settle_def freeze_eq [OF p] frozen_with_def commits_def stack_moves_def)
  next
    case commit
    have "lh_entries h \<noteq> []" if "pp_kind p = Undo"
      using dispatched_fits [OF assms(1,2)] that by (auto simp: op_fits_def)
    then show ?thesis
      using commit_run [OF assms(1,2), of cid stop] assms(3) commit
      by (auto simp: lh_settle_def commits_def stack_moves_def stack_after_def)
  next
    case reject
    then show ?thesis
      using assms(3) by (auto simp: lh_settle_def and_then_def clear_eq [OF p] sm_defs commits_def stack_moves_def)
  qed
  then show "commits res \<longleftrightarrow> (\<exists>stop. verdict = Inr (Some stop))" and "stack_moves res (lh_entries h) (lh_entries t)"
    by auto
qed

lemma context_drift_None:
  "lh_context_drift sid b cid h = None \<longleftrightarrow> sid = lh_session_id h \<and> b = lh_binding h
     \<and> (\<forall>c. lh_last_receipt_command_id h = Some c \<longrightarrow> c < cid)"
  by (auto simp: lh_context_drift_def split: option.splits)

text \<open>
  C11. A remote receipt commits exactly when it is the exact success of the dispatched write: the
  history is healthy, the session and binding are its own, the command is newer than every settled
  one, and the events are, warnings aside, the written evidence of the reserved bytes at the reserved
  stop, one refresh to the exact successor stop and one final success result.  A commit pushes one
  entry or pops one, and no other receipt touches the stack.
\<close>

theorem receipt_commit_exact:
  assumes "reachable (hw_initial original) hw_step w" "lh_resolve_receipt sid b r (hw_history w) = (res, t)"
  defines "h \<equiv> hw_history w"
  shows "(commits res \<longleftrightarrow> (\<exists>p state. dispatched h p \<and> exact_success (lh_session_id h) p r state
        \<and> sid = lh_session_id h \<and> b = lh_binding h
        \<and> (\<forall>c. lh_last_receipt_command_id h = Some c \<longrightarrow> c < rc_command_id r)))
    \<and> stack_moves res (lh_entries h) (lh_entries t)"
proof -
  have inv: "lh_inv h" using hw.reachable_inv [OF assms(1)] by (simp add: hw_inv_def h_def)
  note run = assms(2) [folded h_def]
  show ?thesis
  proof (cases "\<exists>p. dispatched h p")
    case False
    then show ?thesis
      using resolve_receipt_refused(1) [OF False, of sid b r] run by (auto simp: commits_def stack_moves_def)
  next
    case True
    then obtain p where p: "dispatched h p" by blast
    then have only: "dispatched h q \<longleftrightarrow> q = p" for q by (auto simp: dispatched_def)
    have "(\<exists>state. exact_success (lh_session_id h) p r state) \<longleftrightarrow>
        (\<exists>stop reason tid. exact_success (lh_session_id h) p r (StStopped stop reason tid))"
      using exact_success_stopped by blast
    then show ?thesis
      using settle_moves [OF inv p run [unfolded resolve_receipt_eq(1) [OF p]]]
      by (auto simp: only receipt_commits_iff context_drift_None)
  qed
qed

section \<open>Undoing everything\<close>

definition next_stop :: "stop_token \<Rightarrow> stop_token" where
  "next_stop stop = stop\<lparr>sk_state := (sk_state stop)\<lparr>tk_generation := tk_generation (sk_state stop) + 1\<rparr>,
     sk_stop_id := sk_stop_id stop + 1\<rparr>"

text \<open>Room for a number of further rounds in the three counters.\<close>

definition room :: "nat \<Rightarrow> stop_token \<Rightarrow> live_patch_history \<Rightarrow> bool" where
  "room n stop h \<longleftrightarrow> unat (tk_generation (sk_state stop)) + n < 2 ^ 64 \<and> unat (sk_stop_id stop) + n < 2 ^ 64
     \<and> (case lh_last_receipt_command_id h of None \<Rightarrow> n < 2 ^ 64 | Some c \<Rightarrow> unat c + n < 2 ^ 64)"

definition local_success :: "live_patch_history \<Rightarrow> pending_live_patch \<Rightarrow> live_patch_receipt" where
  "local_success h p = \<lparr>lp_write = \<lparr>wa_allocation = 0,
       wa_command_id = (case lh_last_receipt_command_id h of None \<Rightarrow> 1 | Some c \<Rightarrow> c + 1), wa_stop = pp_stop p,
       wa_binding = lh_binding h, wa_address = pp_address p, wa_expected = pp_expected p,
       wa_replacement = pp_replacement p\<rparr>, lp_resolution = LrCommitted (next_stop (pp_stop p))\<rparr>"

lemma word_succ: "unat (x :: u64) + n < 2 ^ 64 \<Longrightarrow> 0 < n \<Longrightarrow> unat (x + 1) = unat x + 1 \<and> x < x + 1"
  by (simp add: word_less_nat_alt unat_word_ariths)

lemma next_stop_exact:
  assumes "room n stop h" "0 < n"
  shows "is_exact_successor_stop stop (next_stop stop)"
    and "coherent_stop (Some (next_stop stop)) (next_stop stop)"
  using assms word_succ [of "tk_generation (sk_state stop)" n] word_succ [of "sk_stop_id stop" n]
  by (auto simp: room_def is_exact_successor_stop_def next_stop_def checked_add_unat coherent_stop_def)

text \<open>One round of undo: reserve, dispatch, the debuggee performs the write, the local receipt settles it.\<close>

lemma undo_round:
  assumes w: "hw_inv original w" "held (hw_history w) = None" "lh_entries (hw_history w) = es @ [e]"
    and stop: "ready (lh_session_id (hw_history w)) (lh_binding (hw_history w)) stop (hw_history w)"
      "room (Suc n) stop (hw_history w)"
  shows "\<exists>v. hw_step\<^sup>*\<^sup>* w v \<and> held (hw_history v) = None \<and> lh_entries (hw_history v) = es
    \<and> ready (lh_session_id (hw_history v)) (lh_binding (hw_history v)) (next_stop stop) (hw_history v)
    \<and> room n (next_stop stop) (hw_history v)"
proof -
  let ?h = "hw_history w" and ?p = "reservation Undo stop (pe_address e) (pe_after e) (pe_before e)"
  let ?q = "?p\<lparr>pp_phase := Dispatched\<rparr>"
  let ?h2 = "?h\<lparr>lh_last_stop := Some stop, lh_pending := Some ?q\<rparr>"
  let ?r = "local_success ?h2 ?q"
  have inv: "lh_inv ?h" using w(1) by (simp add: hw_inv_def)
  have bytes: "patch_bytes_ok (pe_before e) (pe_after e)"
    and span: "span_ok (lh_binding ?h) (pe_address e) (length (pe_after e))"
    using inv w(3) patch_bytes_length [of "pe_before e" "pe_after e"] by (auto simp: lh_inv_def)
  have idle: "lh_pending ?h = None" "lh_freeze_evidence ?h = None" using w(2) by (simp_all add: held_None)
  have calm: "\<not> hw_applied w" using w(1,2) by (auto simp: hw_inv_def Let_def)
  define w1 where "w1 = hw_exec (HiUndo (lh_session_id ?h) (lh_binding ?h) stop) w"
  have w1: "w1 = w\<lparr>hw_history := ?h\<lparr>lh_last_stop := Some stop, lh_pending := Some ?p\<rparr>, hw_applied := False\<rparr>"
    using begin_undo_iff [of "lh_session_id ?h" "lh_binding ?h" stop ?h, THEN iffD2] stop(1) span w(3) calm
    by (simp add: w1_def hw_exec_def hw_call_def Let_def)
  define w2 where "w2 = hw_exec HiDispatch w1"
  have w2: "w2 = w\<lparr>hw_history := ?h2, hw_applied := False\<rparr>"
    using mark_for_dispatch_iff [of "hw_history w1", THEN iffD2] idle
    by (simp add: w2_def hw_exec_def hw_call_def Let_def w1)
  define w3 where "w3 = hw_exec HiApply w2"
  have "mem_read (hw_memory w) (pe_address e) (length (pe_after e)) = pe_after e"
    using w(1,3) calm bytes by (simp add: hw_inv_def mem_read_write patch_bytes_ok_def protocol_bounds)
  then have w3: "w3 = w\<lparr>hw_history := ?h2, hw_memory := mem_write (hw_memory w) (pe_address e) (pe_before e), hw_applied := True\<rparr>"
    by (simp add: w3_def hw_exec_def hw_apply_def w2 held_def)
  define v where "v = hw_exec (HiLocal ?r) w3"
  have "truthful (HiLocal ?r) w3" by (simp add: truthful_def local_truthful_def w3 local_success_def)
  then have steps: "hw_step w w1" "hw_step w1 w2" "hw_step w2 w3" "hw_step w3 v"
    by (simp_all add: w1_def w2_def w3_def v_def hw_step.call truthful_def split: option.split)
  have "hw_inv original w3" using steps(1-3) w(1) hw.step_inv by blast
  then have inv2: "lh_inv ?h2" by (simp add: hw_inv_def w3)
  have d: "dispatched ?h2 ?q" using idle by (simp add: dispatched_def)
  have newer: "unat (c + 1) = unat c + 1" "\<not> c + 1 \<le> c" if "lh_last_receipt_command_id ?h = Some c" for c
    using that stop(2) word_succ [of c "Suc n"] by (simp_all add: room_def not_le)
  have judge: "judge_local_receipt ?r ?h2 ?q = Inr (Some (next_stop stop))"
    using stop(1) next_stop_exact(1) [OF stop(2)] newer
    by (auto simp: judge_local_receipt_def local_success_def lh_context_drift_def ready_def Let_def split: option.splits)
  obtain k where k: "hw_history v = (settled (wa_command_id (lp_write ?r)) (next_stop stop) ?h2)\<lparr>lh_stored_bytes := k, lh_entries := es\<rparr>"
    using commit_run [OF inv2 d, of "wa_command_id (lp_write ?r)" "next_stop stop"] judge w(3)
    by (auto simp: v_def hw_exec_def hw_call_def Let_def w3 resolve_receipt_eq(2) [OF d] lh_settle_def stack_after_def)
  have "hw_step\<^sup>*\<^sup>* w v" using steps by (meson rtranclp.rtrancl_into_rtrancl rtranclp.rtrancl_refl)
  moreover have "room n (next_stop stop) (hw_history v)"
    using stop(2) newer(1) word_succ [of "tk_generation (sk_state stop)" "Suc n"] word_succ [of "sk_stop_id stop" "Suc n"]
    by (auto simp: room_def next_stop_def k local_success_def split: option.splits)
  moreover have "ready (lh_session_id (hw_history v)) (lh_binding (hw_history v)) (next_stop stop) (hw_history v)"
    using stop idle next_stop_exact(2) [OF stop(2)] by (simp add: ready_def k held_None next_stop_def)
  ultimately show ?thesis using idle by (auto simp: k held_None)
qed

text \<open>
  C14. Everything can be undone.  From every reachable world with nothing held, and a current stop
  whose counters have room for one round per entry, there is a run that pops the whole stack and
  leaves the original memory.
\<close>

theorem undo_all_restores:
  assumes "reachable (hw_initial original) hw_step w" "held (hw_history w) = None"
    and "ready (lh_session_id (hw_history w)) (lh_binding (hw_history w)) stop (hw_history w)"
    and "room (length (lh_entries (hw_history w))) stop (hw_history w)"
  shows "\<exists>v. hw_step\<^sup>*\<^sup>* w v \<and> lh_entries (hw_history v) = [] \<and> held (hw_history v) = None \<and> hw_memory v = original"
proof -
  have "\<exists>v. hw_step\<^sup>*\<^sup>* w v \<and> lh_entries (hw_history v) = [] \<and> held (hw_history v) = None \<and> hw_memory v = original"
    if "hw_inv original w" "held (hw_history w) = None" "length (lh_entries (hw_history w)) = n"
      "ready (lh_session_id (hw_history w)) (lh_binding (hw_history w)) stop (hw_history w)" "room n stop (hw_history w)"
    for n w stop
    using that
  proof (induction n arbitrary: w stop)
    case 0
    then have "hw_memory w = original" by (auto simp: hw_inv_def Let_def split: if_splits)
    then show ?case using 0 by auto
  next
    case (Suc n)
    then obtain es e where es: "lh_entries (hw_history w) = es @ [e]" "length es = n"
      by (metis length_Suc_conv_rev)
    obtain v where v: "hw_step\<^sup>*\<^sup>* w v" "held (hw_history v) = None" "lh_entries (hw_history v) = es"
      "ready (lh_session_id (hw_history v)) (lh_binding (hw_history v)) (next_stop stop) (hw_history v)"
      "room n (next_stop stop) (hw_history v)"
      using undo_round [OF Suc.prems(1,2) es(1) Suc.prems(4,5)] by blast
    then show ?case
      using Suc.IH [OF hw.run_inv [OF v(1) Suc.prems(1)] v(2) _ v(4,5)] es(2) by (metis rtranclp_trans)
  qed
  then show ?thesis using hw.reachable_inv [OF assms(1)] assms(2-4) by blast
qed

section \<open>A run\<close>

definition sample_memory :: memory where
  "sample_memory a = 144"

definition sample_patch :: pending_live_patch where
  "sample_patch = (reservation ForwardWrite sample_stop 4194320 [144] [204])\<lparr>pp_phase := Dispatched\<rparr>"

definition sample_history :: live_patch_history where
  "sample_history = (lh_new 7 sample_binding)\<lparr>lh_last_stop := Some sample_stop, lh_pending := Some sample_patch\<rparr>"

definition patch_world :: "bool \<Rightarrow> history_world" where
  "patch_world applied = \<lparr>hw_history = sample_history,
     hw_memory = (if applied then mem_write sample_memory 4194320 [204] else sample_memory), hw_applied = applied\<rparr>"

definition sample_envelope :: "u64 \<Rightarrow> debug_event \<Rightarrow> event_envelope" where
  "sample_envelope g ev = \<lparr>ee_version = protocol_version_current, ee_sequence = 1, ee_session_id = Some 7,
     ee_state = Some (sample_token g), ee_caused_by = Some 5, ee_event = ev\<rparr>"

definition sample_receipt :: command_receipt where
  "sample_receipt = \<lparr>rc_command_id = 5, rc_outcome = CoSucceeded, rc_events =
     [sample_envelope 3 (written_evidence sample_patch),
      sample_envelope 4 (EvStateChanged (StStopped (next_stop sample_stop) SrInitial 11)),
      sample_envelope 4 (EvCommandResult 5 CoSucceeded)]\<rparr>"

definition patched_world :: history_world where
  "patched_world = hw_exec (HiReceipt 7 sample_binding sample_receipt) (patch_world True)"

lemmas patch_defs = sample_patch_def sample_history_def patch_world_def sample_stop_def sample_token_def lh_new_def

lemma sample_span: "span_ok sample_binding 4194320 1"
  by (simp add: span_ok_def sample_binding_def rva_for_address_span_def checked_sub_def checked_add_def image_end_def)

lemma patch_reachable: "reachable (hw_initial sample_memory) hw_step (patch_world applied)"
proof -
  define w0 where "w0 = \<lparr>hw_history = lh_new 7 sample_binding, hw_memory = sample_memory, hw_applied = False\<rparr>"
  define w1 where "w1 = hw_exec (HiWrite 7 sample_binding sample_stop 4194320 [144] [204]) w0"
  have "w1 = w0\<lparr>hw_history := (lh_new 7 sample_binding)\<lparr>lh_last_stop := Some sample_stop,
      lh_pending := Some (reservation ForwardWrite sample_stop 4194320 [144] [204])\<rparr>\<rparr>"
    using begin_forward_iff [of 7 sample_binding sample_stop 4194320 "[144]" "[204]" "lh_new 7 sample_binding", THEN iffD2] sample_span
    by (simp add: w1_def w0_def hw_exec_def hw_call_def Let_def lh_new_def ready_def held_def coherent_stop_def
        sample_stop_def sample_token_def patch_bytes_ok_def protocol_bounds history_bounds)
  then have "hw_exec HiDispatch w1 = patch_world False"
    using mark_for_dispatch_iff [of "hw_history w1", THEN iffD2]
    by (simp add: w0_def hw_exec_def hw_call_def Let_def patch_defs)
  moreover have "hw_exec HiApply (patch_world False) = patch_world True"
    by (simp add: hw_exec_def hw_apply_def held_def patch_defs mem_read_def sample_memory_def fun_eq_iff)
  moreover have "reachable (hw_initial sample_memory) hw_step w0"
    by (rule reachable.start) (auto simp: hw_initial_def w0_def)
  then have "reachable (hw_initial sample_memory) hw_step w1"
    unfolding w1_def by (rule hw_reach) (simp add: truthful_def split: option.split)
  ultimately show ?thesis
    using hw_reach [of sample_memory w1 HiDispatch] hw_reach [of sample_memory "patch_world False" HiApply]
    by (cases applied) (simp_all add: truthful_def split: option.splits)
qed

lemma sample_dispatched: "dispatched sample_history sample_patch"
  by (simp add: dispatched_def patch_defs)

lemma sample_exact: "exact_success 7 sample_patch sample_receipt (StStopped (next_stop sample_stop) SrInitial 11)"
  by (simp add: exact_success_def sample_receipt_def sample_envelope_def result_event_def patch_defs next_stop_def
      is_exact_successor_stop_def checked_add_def written_evidence_def)

lemma patched_history:
  "hw_history patched_world = (lh_new 7 sample_binding)\<lparr>lh_last_stop := Some (next_stop sample_stop),
     lh_last_receipt_command_id := Some 5, lh_stored_bytes := 2,
     lh_entries := [committed_entry sample_patch 5 (next_stop sample_stop)]\<rparr>"
proof -
  have "judge_receipt 7 sample_binding sample_receipt sample_history sample_patch = Inr (Some (next_stop sample_stop))"
    using sample_exact by (auto simp: receipt_commits_iff context_drift_None sample_history_def lh_new_def)
  then show ?thesis
    using commit_forward_eq [of sample_history sample_patch 5 "next_stop sample_stop"]
    by (simp add: patched_world_def hw_exec_def hw_call_def Let_def patch_world_def resolve_receipt_eq(1) [OF sample_dispatched]
        lh_settle_def sample_receipt_def)
      (simp add: patch_defs settled_def entry_stored_bytes_def)
qed

lemma patched_reachable: "reachable (hw_initial sample_memory) hw_step patched_world"
proof -
  have "truthful (HiReceipt 7 sample_binding sample_receipt) (patch_world True)"
    by (simp add: truthful_def receipt_truthful_def sample_receipt_def sample_envelope_def written_evidence_def patch_defs)
  then show ?thesis unfolding patched_world_def by (rule hw_reach [OF patch_reachable])
qed

theorem patch_history_faithful_witness:
  "reachable (hw_initial sample_memory) hw_step patched_world
   \<and> held (hw_history patched_world) = None
   \<and> lh_entries (hw_history patched_world) = [committed_entry sample_patch 5 (next_stop sample_stop)]
   \<and> hw_memory patched_world = mem_write sample_memory 4194320 [204]
   \<and> unwind (hw_memory patched_world) (lh_entries (hw_history patched_world)) = sample_memory"
proof -
  have h: "held (hw_history patched_world) = None" by (simp add: patched_history held_None lh_new_def)
  then have "hw_memory patched_world = replay sample_memory (lh_entries (hw_history patched_world))"
    and "unwind (hw_memory patched_world) (lh_entries (hw_history patched_world)) = sample_memory"
    using patch_history_faithful [OF patched_reachable] by auto
  then show ?thesis using h patched_reachable by (simp add: patched_history) (simp add: sample_patch_def)
qed

theorem patch_history_bounded_witness:
  "reachable (hw_initial sample_memory) hw_step (hw_exec HiUnknown (patch_world True))
   \<and> lh_freeze_evidence (hw_history (hw_exec HiUnknown (patch_world True))) \<noteq> None
   \<and> lh_reserved_bytes (hw_history (hw_exec HiUnknown (patch_world True))) \<le> 1048576
   \<and> history_call (HiUndo 7 sample_binding sample_stop) (hw_history (hw_exec HiUnknown (patch_world True))) = Some LhInspectionOnly"
proof -
  have r: "reachable (hw_initial sample_memory) hw_step (hw_exec HiUnknown (patch_world True))"
    by (rule hw_reach [OF patch_reachable]) (simp add: truthful_def split: option.split)
  have f: "lh_freeze_evidence (hw_history (hw_exec HiUnknown (patch_world True))) \<noteq> None"
    by (simp add: hw_exec_def hw_call_def patch_world_def outcome_unknown_eq [OF sample_dispatched] Let_def
        freeze_eq [of sample_history sample_patch] sample_dispatched [unfolded dispatched_def] frozen_with_def)
  show ?thesis
    using patch_history_bounded [OF r, of "HiUndo 7 sample_binding sample_stop" "patch_world True"] r f
    by (metis history_input.distinct(19))
qed

theorem receipt_commit_exact_witness:
  "\<exists>res t. reachable (hw_initial sample_memory) hw_step (patch_world True)
     \<and> lh_resolve_receipt 7 sample_binding sample_receipt (hw_history (patch_world True)) = (res, t)
     \<and> exact_success 7 sample_patch sample_receipt (StStopped (next_stop sample_stop) SrInitial 11) \<and> commits res"
proof -
  obtain res t where r: "lh_resolve_receipt 7 sample_binding sample_receipt (hw_history (patch_world True)) = (res, t)"
    by (cases "lh_resolve_receipt 7 sample_binding sample_receipt (hw_history (patch_world True))")
  moreover have "commits res"
    using receipt_commit_exact [OF patch_reachable r] sample_exact sample_dispatched
    by (auto simp: patch_world_def sample_history_def lh_new_def)
  ultimately show ?thesis using patch_reachable sample_exact by blast
qed

theorem undo_all_restores_witness:
  "reachable (hw_initial sample_memory) hw_step patched_world \<and> lh_entries (hw_history patched_world) \<noteq> []
   \<and> (\<exists>v. hw_step\<^sup>*\<^sup>* patched_world v \<and> lh_entries (hw_history v) = [] \<and> hw_memory v = sample_memory)"
proof -
  have "held (hw_history patched_world) = None"
    "ready (lh_session_id (hw_history patched_world)) (lh_binding (hw_history patched_world)) (next_stop sample_stop)
       (hw_history patched_world)"
    "room (length (lh_entries (hw_history patched_world))) (next_stop sample_stop) (hw_history patched_world)"
    by (simp_all add: patched_history held_None ready_def coherent_stop_def room_def lh_new_def next_stop_def
        sample_stop_def sample_token_def)
  then show ?thesis
    using undo_all_restores [OF patched_reachable] patched_reachable by (auto simp: patched_history)
qed

end
