(* ===== verification/Patch_Session.thy ===== *)
theory Patch_Session
  imports Patch_Properties Session_Examples
begin

text \<open>
  The session reducer and the live patch history together: the local receipt that the reducer mints
  for a live write, handed to the history that reserved the write.
\<close>

section \<open>A local receipt at its history\<close>

text \<open>The history has dispatched exactly the command of an envelope, for the same session and binding.\<close>

definition tracks ::
    "command_envelope \<Rightarrow> live_target_binding \<Rightarrow> session_machine \<Rightarrow> live_patch_history \<Rightarrow> pending_live_patch \<Rightarrow> bool" where
  "tracks e b s h p \<longleftrightarrow> dispatched h p \<and> ce_command e = pending_command p \<and> lh_session_id h = sn_session_id s
     \<and> lh_binding h = b \<and> (case lh_last_receipt_command_id h of None \<Rightarrow> True | Some c \<Rightarrow> c < ce_command_id e)"

lemma fresh_stop_successor:
  assumes "sn_vis s" "gen_room s" "stop_room s" "sn_state s = StStopped stop reason thread"
  shows "is_exact_successor_stop stop (fresh_stop s) \<longleftrightarrow> sk_stop_id stop = sn_last_stop_id s"
proof -
  have t: "tk_session_id (sk_state stop) = sn_session_id s" "tk_generation (sk_state stop) = tk_generation (state_tok s)"
    using sn_vis_token [OF assms(1)] by (simp_all add: assms(4) state_tok_def)
  have "sk_stop_id stop \<le> sn_last_stop_id s" using assms(1,4) by (simp add: sn_vis_def state_bound_def)
  then have "unat (sk_stop_id stop) + 1 < 2 ^ 64" using assms(3) by (simp add: stop_room_def word_le_nat_alt)
  then show ?thesis
    using assms(2) t by (auto simp: is_exact_successor_stop_def fresh_stop_def next_token_def checked_add_unat gen_room_def)
qed

lemma local_success_verdict:
  assumes vis: "sn_vis (sw_machine w)" and run: "sw_exec sha (InBeginLive e b) w = (Done, v)"
    and tr: "tracks e b (sw_machine w) h p"
  shows "\<exists>r. sn_resolve_live_memory_write_success (last (sw_tickets v)) (last (sw_receipts v)) (sw_machine v)
      = (Inr r, (sw_machine v)\<lparr>sn_pending_remote_command := None\<rparr>)
    \<and> lp_resolution r = LrCommitted (fresh_stop (sw_machine w)) \<and> wa_command_id (lp_write r) = ce_command_id e
    \<and> judge_local_receipt r h p = (if sk_stop_id (pp_stop p) = sn_last_stop_id (sw_machine w)
        then Inr (Some (fresh_stop (sw_machine w))) else Inl (FcReceiptMismatch RmStateEvidenceMismatch))"
proof -
  obtain stop address expected replacement reason thread c ri where
    cmd: "ce_command e = CmdWriteMemory stop address expected replacement"
    and st: "sn_state (sw_machine w) = StStopped stop reason thread"
    and v: "sw_tickets v = sw_tickets w @ [c]" "sw_receipts v = sw_receipts w @ [ri]"
    and ri: "ri_write ri = \<lparr>wa_allocation = length (sw_receipts w), wa_command_id = ce_command_id e, wa_stop = stop,
       wa_binding = b, wa_address = address, wa_expected = expected, wa_replacement = replacement\<rparr>"
    and loc: "sn_validate_local_resolution c ri (sw_machine v) = Inr (fresh_stop (sw_machine w))"
    and room: "gen_room (sw_machine w)" "stop_room (sw_machine w)"
    by (rule begin_live_run [OF vis run])
  have p: "pp_stop p = stop" "pp_address p = address" "pp_expected p = expected" "pp_replacement p = replacement"
    using tr cmd by (simp_all add: tracks_def pending_command_def)
  have "tk_session_id (sk_state stop) = sn_session_id (sw_machine w)"
    using sn_vis_token [OF vis] by (simp add: st state_tok_def)
  then have "lh_context_drift (tk_session_id (sk_state stop)) b (ce_command_id e) h = None"
    using tr by (auto simp: context_drift_None tracks_def split: option.splits)
  then show ?thesis
    using fresh_stop_successor [OF vis room st] loc
    by (simp add: v live_success_cases judge_local_receipt_def ri p)
qed

text \<open>
  C12. The reducer's receipt settles the tracked write.  When a live write that a reachable history
  has dispatched is begun on a reachable session at the session's latest stop, the receipt of its
  success commits in the history, and the history's last stop is then the stop of the session, so
  that the next patch can begin there.
\<close>

theorem local_write_commits:
  assumes "reachable sw_initial (sw_step sha) w" "sw_exec sha (InBeginLive e b) w = (Done, v)"
    and "reachable (hw_initial original) hw_step g" "tracks e b (sw_machine w) (hw_history g) p"
    and "sk_stop_id (pp_stop p) = sn_last_stop_id (sw_machine w)"
  shows "\<exists>r u res t stop reason thread.
      sn_resolve_live_memory_write_success (last (sw_tickets v)) (last (sw_receipts v)) (sw_machine v) = (Inr r, u)
    \<and> lh_resolve_local_receipt r (hw_history g) = (Inr res, t) \<and> commits (Inr res)
    \<and> stack_moves (Inr res) (lh_entries (hw_history g)) (lh_entries t)
    \<and> sn_state u = StStopped stop reason thread \<and> lh_last_stop t = Some stop
    \<and> ready (sn_session_id u) b stop t"
proof -
  let ?h = "hw_history g"
  have vis: "sn_vis (sw_machine w)" by (rule reachable_vis [OF assms(1)])
  have inv: "lh_inv ?h" using hw.reachable_inv [OF assms(3)] by (simp add: hw_inv_def)
  have d: "dispatched ?h p" using assms(4) by (simp add: tracks_def)
  obtain r where r: "sn_resolve_live_memory_write_success (last (sw_tickets v)) (last (sw_receipts v)) (sw_machine v)
      = (Inr r, (sw_machine v)\<lparr>sn_pending_remote_command := None\<rparr>)" "wa_command_id (lp_write r) = ce_command_id e"
    "judge_local_receipt r ?h p = Inr (Some (fresh_stop (sw_machine w)))"
    using local_success_verdict [OF vis assms(2,4)] assms(5) by auto
  obtain reason thread where m: "sw_machine v = (stopped_update ((sw_machine w)\<lparr>sn_last_command_id := Some (ce_command_id e)\<rparr>)
       reason thread)\<lparr>sn_pending_remote_command := Some (ce_command_id e)\<rparr>"
    by (rule begin_live_run [OF vis assms(2)])
  have settle: "lh_resolve_local_receipt r ?h = lh_commit_success (ce_command_id e) (fresh_stop (sw_machine w)) ?h"
    using resolve_receipt_eq(2) [OF d, of r] r by (simp add: lh_settle_def)
  then obtain res k where run: "lh_resolve_local_receipt r ?h = (Inr res,
      (settled (ce_command_id e) (fresh_stop (sw_machine w)) ?h)\<lparr>lh_stored_bytes := k,
        lh_entries := stack_after p (ce_command_id e) (fresh_stop (sw_machine w)) (lh_entries ?h)\<rparr>)" (is "_ = (_, ?t)")
    using commit_run [OF inv d, of "ce_command_id e" "fresh_stop (sw_machine w)"] by auto
  have moved: "commits (Inr res) \<and> stack_moves (Inr res) (lh_entries ?h) (lh_entries ?t)"
    using settle_moves [OF inv d, of "ce_command_id e" "Inr (Some (fresh_stop (sw_machine w)))" "Inr res" ?t] run settle
    by (simp add: lh_settle_def)
  have fin: "sn_state (sw_machine v) = StStopped (fresh_stop (sw_machine w)) reason thread"
    "sn_session_id (sw_machine v) = sn_session_id (sw_machine w)"
    by (simp_all add: m stopped_update_def fresh_stop_def)
  have "ready (sn_session_id (sw_machine w)) b (fresh_stop (sw_machine w)) ?t"
    using assms(4) d by (simp add: ready_def held_None tracks_def dispatched_def fresh_stop_def coherent_stop_def)
  then show ?thesis using r(1) run moved fin by fastforce
qed

text \<open>
  C13. A refused live write poisons the next one.  After a live write whose host had no effect, the
  session shows the same stop again but keeps the consumed stop number; the receipt of the next live
  write, begun at that stop and committed by the reducer, is then judged a state mismatch, and the
  history that tracked it freezes.
\<close>

theorem write_after_refusal_freezes:
  assumes "reachable sw_initial (sw_step sha) w" "sw_exec sha (InBeginLive e b) w = (Done, v)"
    and "sw_exec sha (InLiveNoEffect (length (sw_tickets w)) (length (sw_receipts w))) v = (Done, u)"
    and "sw_exec sha (InBeginLive e' b) u = (Done, x)" "tracks e' b (sw_machine u) h p"
  shows "\<exists>r y stop. sn_resolve_live_memory_write_success (last (sw_tickets x)) (last (sw_receipts x)) (sw_machine x) = (Inr r, y)
    \<and> lp_resolution r = LrCommitted stop
    \<and> lh_resolve_local_receipt r h = (Inr Frozen,
        frozen_with p (Some (ce_command_id e')) (FcReceiptMismatch RmStateEvidenceMismatch) h)"
proof -
  have vis: "sn_vis (sw_machine w)" by (rule reachable_vis [OF assms(1)])
  obtain stop reason thread c ri where st: "sn_state (sw_machine w) = StStopped stop reason thread"
    and v: "sw_tickets v = sw_tickets w @ [c]" "sw_receipts v = sw_receipts w @ [ri]"
    and loc: "sn_validate_local_resolution c ri (sw_machine v) = Inr (fresh_stop (sw_machine w))"
    and room: "stop_room (sw_machine w)"
    and m: "sw_machine v = (stopped_update ((sw_machine w)\<lparr>sn_last_command_id := Some (ce_command_id e)\<rparr>) reason thread)
       \<lparr>sn_pending_remote_command := Some (ce_command_id e)\<rparr>"
    and undone: "visible (restore_checkpoint c (sw_machine v)) = visible (sw_machine w)"
    by (rule begin_live_run [OF vis assms(2)])
  have u: "sw_machine u = restore_checkpoint c (sw_machine v)"
    using assms(3) loc by (simp add: sw_exec_def sw_with_ticket_def sw_with_receipt_def sw_call_def v live_no_effect_cases)
      (metis session_world.select_convs(1) session_world.surjective session_world.update_convs(1))
  have "reachable sw_initial (sw_step sha) u" by (rule step_reachable [OF assms(3) step_reachable [OF assms(2,1)]])
  then have vis': "sn_vis (sw_machine u)" by (rule reachable_vis)
  have "sn_state (sw_machine u) = StStopped stop reason thread" using undone st by (simp add: u visible_def)
  then have "pp_stop p = stop"
    using assms(5) begin_live_run [OF vis' assms(4)] by (metis debug_command.inject session_state.inject tracks_def pending_command_def)
  moreover have "sn_last_stop_id (sw_machine u) = sn_last_stop_id (sw_machine w) + 1"
    by (simp add: u m restore_checkpoint_def stopped_update_def)
  moreover have "sk_stop_id stop \<le> sn_last_stop_id (sw_machine w)" using vis st by (simp add: sn_vis_def state_bound_def)
  ultimately have "sk_stop_id (pp_stop p) \<noteq> sn_last_stop_id (sw_machine u)"
    using stop_id_fresh [OF room] by auto
  moreover have d: "dispatched h p" using assms(5) by (simp add: tracks_def)
  ultimately show ?thesis
    using local_success_verdict [OF vis' assms(4,5)] resolve_receipt_eq(2) [OF d]
    by (auto simp: lh_settle_def freeze_eq dispatched_def)
qed

section \<open>A run\<close>

lemma sample_tracks:
  assumes "sn_session_id s = 7"
  shows "tracks (sample_write_at cid) sample_binding s sample_history sample_patch"
  using assms sample_dispatched
  by (simp add: tracks_def pending_command_def sample_write_at_def sample_command_def patch_defs)

theorem local_write_commits_witness:
  "\<exists>v r u res t. reachable sw_initial (sw_step sample_sha) sample_at_stop
     \<and> sw_exec sample_sha (InBeginLive (sample_write_at 5) sample_binding) sample_at_stop = (Done, v)
     \<and> reachable (hw_initial sample_memory) hw_step (patch_world True)
     \<and> sn_resolve_live_memory_write_success (last (sw_tickets v)) (last (sw_receipts v)) (sw_machine v) = (Inr r, u)
     \<and> lh_resolve_local_receipt r sample_history = (Inr res, t) \<and> commits (Inr res)"
proof -
  obtain v where v: "sw_exec sample_sha (InBeginLive (sample_write_at 5) sample_binding) sample_at_stop = (Done, v)"
    using live_write_begins [of sample_at_stop 1 1 5] by (auto simp: world_defs)
  have t: "tracks (sample_write_at 5) sample_binding (sw_machine sample_at_stop) (hw_history (patch_world True)) sample_patch"
    using sample_tracks [of "sw_machine sample_at_stop" 5] by (simp add: patch_world_def world_defs example_defs)
  have "sk_stop_id (pp_stop sample_patch) = sn_last_stop_id (sw_machine sample_at_stop)"
    by (simp add: world_defs example_defs sample_patch_def sample_stop_def)
  then show ?thesis
    using local_write_commits [OF at_stop_reachable v patch_reachable t] at_stop_reachable v patch_reachable [of True]
    by (auto simp: patch_world_def)
qed

theorem write_after_refusal_freezes_witness:
  "\<exists>v u x r y. reachable sw_initial (sw_step sample_sha) sample_at_stop
     \<and> sw_exec sample_sha (InBeginLive (sample_write_at 5) sample_binding) sample_at_stop = (Done, v)
     \<and> sw_exec sample_sha (InLiveNoEffect 0 0) v = (Done, u)
     \<and> sw_exec sample_sha (InBeginLive (sample_write_at 6) sample_binding) u = (Done, x)
     \<and> sn_resolve_live_memory_write_success (last (sw_tickets x)) (last (sw_receipts x)) (sw_machine x) = (Inr r, y)
     \<and> fst (lh_resolve_local_receipt r sample_history) = Inr Frozen"
proof -
  obtain v where v: "sw_exec sample_sha (InBeginLive (sample_write_at 5) sample_binding) sample_at_stop = (Done, v)"
    using live_write_begins [of sample_at_stop 1 1 5] by (auto simp: world_defs)
  have e: "sw_tickets sample_at_stop = []" "sw_receipts sample_at_stop = []" by (simp_all add: world_defs)
  have vis: "sn_vis (sw_machine sample_at_stop)" by (rule reachable_vis [OF at_stop_reachable])
  obtain c ri reason thread where t: "sw_tickets v = [c]" "sw_receipts v = [ri]"
    and loc: "sn_validate_local_resolution c ri (sw_machine v) = Inr (fresh_stop (sw_machine sample_at_stop))"
    and m: "sw_machine v = (stopped_update ((sw_machine sample_at_stop)\<lparr>sn_last_command_id := Some 5\<rparr>) reason thread)
       \<lparr>sn_pending_remote_command := Some 5\<rparr>"
    and undone: "visible (restore_checkpoint c (sw_machine v)) = visible (sw_machine sample_at_stop)"
    by (rule begin_live_run [OF vis v]) (simp add: e sample_write_at_def sample_command_def)
  define u where "u = v\<lparr>sw_machine := restore_checkpoint c (sw_machine v)\<rparr>"
  have u: "sw_exec sample_sha (InLiveNoEffect 0 0) v = (Done, u)"
    using loc by (simp add: u_def sw_exec_def sw_with_ticket_def sw_with_receipt_def sw_call_def t live_no_effect_cases)
  have su: "sw_machine u = attached 5 2 0 sample_stopped"
    using undone by (simp add: u_def m stopped_update_def visible_def restore_checkpoint_def world_defs example_defs)
  then obtain x where x: "sw_exec sample_sha (InBeginLive (sample_write_at 6) sample_binding) u = (Done, x)"
    using live_write_begins [of u 5 2 6] by auto
  have "tracks (sample_write_at 6) sample_binding (sw_machine u) sample_history sample_patch"
    by (rule sample_tracks) (simp add: su example_defs)
  then show ?thesis
    using write_after_refusal_freezes [OF at_stop_reachable v _ x, of sample_history sample_patch] u e
      at_stop_reachable v x by fastforce
qed

end
