(* ===== verification/Gdb_Protocol.thy ===== *)
theory Gdb_Protocol
  imports Prelude
begin

text \<open>
  The framing of the GDB remote serial protocol (\<open>resymbol-gdb-remote/src/protocol.rs\<close>): packet
  encoding, the decoder of packet bodies with its run-length expansion, the incremental packet
  reader and the hexadecimal helpers.  A \<open>usize\<close> is a \<open>nat\<close> with its saturation written out; the
  bytes are machine bytes throughout.
\<close>

unbundle bit_operations_syntax

section \<open>Limits and constants\<close>

definition DEFAULT_MAX_PACKET_PAYLOAD :: nat where
  "DEFAULT_MAX_PACKET_PAYLOAD = 0x1000"

definition DEFAULT_MAX_MEMORY_TRANSFER :: nat where
  "DEFAULT_MAX_MEMORY_TRANSFER = DEFAULT_MAX_PACKET_PAYLOAD div 2"

definition DEFAULT_MAX_TARGET_DESCRIPTION :: nat where
  "DEFAULT_MAX_TARGET_DESCRIPTION = 256 * 1024"

record protocol_limits =
  gl_max_packet_payload :: nat
  gl_max_memory_transfer :: nat
  gl_max_target_description :: nat

definition protocol_limits_default :: protocol_limits where
  "protocol_limits_default = \<lparr>gl_max_packet_payload = DEFAULT_MAX_PACKET_PAYLOAD,
     gl_max_memory_transfer = DEFAULT_MAX_MEMORY_TRANSFER,
     gl_max_target_description = DEFAULT_MAX_TARGET_DESCRIPTION\<rparr>"

definition ESCAPE_BYTE :: u8 where "ESCAPE_BYTE = 0x7d"
definition ESCAPE_MASK :: u8 where "ESCAPE_MASK = 0x20"
definition RLE_MARKER :: u8 where "RLE_MARKER = 0x2a"
definition RLE_BIAS :: u8 where "RLE_BIAS = 29"

text \<open>The ASCII bytes of \<open>$\<close>, \<open>#\<close>, \<open>+\<close> and \<open>-\<close>, and the interrupt byte.\<close>

abbreviation (input) dollar :: u8 where "dollar \<equiv> 0x24"
abbreviation (input) hash :: u8 where "hash \<equiv> 0x23"
abbreviation (input) plus_byte :: u8 where "plus_byte \<equiv> 0x2b"
abbreviation (input) minus_byte :: u8 where "minus_byte \<equiv> 0x2d"
abbreviation (input) ctrl_c :: u8 where "ctrl_c \<equiv> 0x03"

lemmas gdb_constants = ESCAPE_BYTE_def ESCAPE_MASK_def RLE_MARKER_def RLE_BIAS_def

section \<open>Hexadecimal digits\<close>

definition rsp_hex_digit :: "u8 \<Rightarrow> u8" where
  "rsp_hex_digit nibble = (if nibble \<le> 9 then 0x30 + nibble else 0x61 + (nibble - 10))"

definition from_hex_digit :: "u8 \<Rightarrow> u8 option" where
  "from_hex_digit byte =
     (if 0x30 \<le> byte \<and> byte \<le> 0x39 then Some (byte - 0x30)
      else if 0x61 \<le> byte \<and> byte \<le> 0x66 then Some (byte - 0x61 + 10)
      else if 0x41 \<le> byte \<and> byte \<le> 0x46 then Some (byte - 0x41 + 10)
      else None)"

definition rsp_hex_byte :: "u8 \<Rightarrow> u8 list" where
  "rsp_hex_byte byte = [rsp_hex_digit (drop_bit 4 byte), rsp_hex_digit (byte AND 0x0f)]"

primrec rsp_hex_encode :: "u8 list \<Rightarrow> u8 list" where
  "rsp_hex_encode [] = []"
| "rsp_hex_encode (byte # data) = rsp_hex_byte byte @ rsp_hex_encode data"

text \<open>The loop of \<open>hex_decode\<close> over \<open>chunks_exact(2)\<close>, which drops an odd last byte.\<close>

fun rsp_hex_pairs :: "u8 list \<Rightarrow> u8 list option" where
  "rsp_hex_pairs (a # b # rest) = (case from_hex_digit a of
     None \<Rightarrow> None
   | Some hi \<Rightarrow> (case from_hex_digit b of
        None \<Rightarrow> None
      | Some lo \<Rightarrow> map_option ((#) (push_bit 4 hi OR lo)) (rsp_hex_pairs rest)))"
| "rsp_hex_pairs _ = Some []"

definition rsp_hex_decode :: "u8 list \<Rightarrow> u8 list option" where
  "rsp_hex_decode data = (if length data mod 2 \<noteq> 0 then None else rsp_hex_pairs data)"

primrec parse_hex_digits :: "u64 \<Rightarrow> u8 list \<Rightarrow> u64 option" where
  "parse_hex_digits v [] = Some v"
| "parse_hex_digits v (byte # data) = (case from_hex_digit byte of
     None \<Rightarrow> None
   | Some digit \<Rightarrow> parse_hex_digits (push_bit 4 v OR ucast digit) data)"

definition parse_hex_u64 :: "u8 list \<Rightarrow> u64 option" where
  "parse_hex_u64 data = (if data = [] \<or> 16 < length data then None else parse_hex_digits 0 data)"

section \<open>Packets\<close>

text \<open>The body of an encoded packet and the running checksum, byte by byte.\<close>

primrec encode_loop :: "u8 list \<Rightarrow> u8 list \<Rightarrow> u8 \<Rightarrow> u8 list \<times> u8" where
  "encode_loop [] out acc = (out, acc)"
| "encode_loop (byte # payload) out acc =
     (if byte \<in> {hash, dollar, ESCAPE_BYTE, RLE_MARKER}
      then let escaped = byte XOR ESCAPE_MASK
           in encode_loop payload (out @ [ESCAPE_BYTE, escaped]) (acc + ESCAPE_BYTE + escaped)
      else encode_loop payload (out @ [byte]) (acc + byte))"

definition encode_packet :: "u8 list \<Rightarrow> u8 list" where
  "encode_packet payload = (let (out, acc) = encode_loop payload [dollar] 0 in out @ [hash] @ rsp_hex_byte acc)"

text \<open>
  The decoder walks the body by index.  \<open>resize\<close> grows the output by copies of its last byte; the
  additions of \<open>out.len()\<close> and a byte cannot reach the end of \<open>usize\<close> unless the output did.
\<close>

function decode_loop :: "u8 list \<Rightarrow> nat \<Rightarrow> nat \<Rightarrow> u8 list \<Rightarrow> u8 list option" where
  "decode_loop body max_payload index out =
     (if \<not> index < length body then Some out
      else if body ! index = ESCAPE_BYTE then
        (if \<not> index + 1 < length body then None
         else if length out = max_payload then None
         else decode_loop body max_payload (index + 2) (out @ [body ! (index + 1) XOR ESCAPE_MASK]))
      else if body ! index = RLE_MARKER then
        (if \<not> index + 1 < length body then None
         else case checked_sub (body ! (index + 1)) RLE_BIAS of
           None \<Rightarrow> None
         | Some additional \<Rightarrow>
             if out = [] then None
             else (let new_len = length out + unat additional in
               if 2 ^ 64 \<le> new_len then None
               else if max_payload < new_len then None
               else decode_loop body max_payload (index + 2) (out @ replicate (unat additional) (last out))))
      else if length out = max_payload then None
      else decode_loop body max_payload (index + 1) (out @ [body ! index]))"
  by pat_completeness auto
termination
  by (relation "measure (\<lambda>(body, _, index, _). length body - index)") auto

declare decode_loop.simps [simp del]

definition decode_body_with_limit :: "u8 list \<Rightarrow> nat \<Rightarrow> u8 list option" where
  "decode_body_with_limit body max_payload = decode_loop body max_payload 0 []"

definition decode_body :: "u8 list \<Rightarrow> u8 list option" where
  "decode_body body = decode_body_with_limit body DEFAULT_MAX_PACKET_PAYLOAD"

definition packet_checksum :: "u8 list \<Rightarrow> u8" where
  "packet_checksum body = foldl (+) 0 body"

section \<open>The packet reader\<close>

datatype (plugins only: code size) packet_event =
    PkAck
  | PkNack
  | PkInterrupt
  | PkPacket "u8 list" bool

datatype (plugins only: code size) reader_state = RdIdle | RdBody | RdChecksum1 | RdChecksum2

record packet_reader =
  pr_state :: reader_state
  pr_body :: "u8 list"
  pr_running_checksum :: u8
  pr_expected_checksum :: u8
  pr_max_payload :: nat
  pr_max_transmitted_body :: nat
  pr_body_overflowed :: bool

definition reader_with_max_payload :: "nat \<Rightarrow> packet_reader" where
  "reader_with_max_payload max_payload = \<lparr>pr_state = RdIdle, pr_body = [], pr_running_checksum = 0,
     pr_expected_checksum = 0, pr_max_payload = max_payload,
     pr_max_transmitted_body = min (max_payload * 2) (2 ^ 64 - 1), pr_body_overflowed = False\<rparr>"

definition reader_new :: packet_reader where
  "reader_new = reader_with_max_payload DEFAULT_MAX_PACKET_PAYLOAD"

definition reader_push :: "u8 \<Rightarrow> packet_reader \<Rightarrow> packet_event option \<times> packet_reader" where
  "reader_push byte r = (case pr_state r of
     RdIdle \<Rightarrow>
       if byte = dollar
       then (None, r\<lparr>pr_body := [], pr_running_checksum := 0, pr_body_overflowed := False, pr_state := RdBody\<rparr>)
       else if byte = plus_byte then (Some PkAck, r)
       else if byte = minus_byte then (Some PkNack, r)
       else if byte = ctrl_c then (Some PkInterrupt, r)
       else (None, r)
   | RdBody \<Rightarrow>
       if byte = hash then (None, r\<lparr>pr_state := RdChecksum1\<rparr>)
       else (let r' = r\<lparr>pr_running_checksum := pr_running_checksum r + byte\<rparr> in
         if length (pr_body r') < pr_max_transmitted_body r' then (None, r'\<lparr>pr_body := pr_body r' @ [byte]\<rparr>)
         else (None, r'\<lparr>pr_body_overflowed := True\<rparr>))
   | RdChecksum1 \<Rightarrow> (case from_hex_digit byte of
        Some v \<Rightarrow> (None, r\<lparr>pr_expected_checksum := push_bit 4 v, pr_state := RdChecksum2\<rparr>)
      | None \<Rightarrow> (Some (PkPacket [] False), r\<lparr>pr_state := RdIdle\<rparr>))
   | RdChecksum2 \<Rightarrow>
       (let r' = r\<lparr>pr_state := RdIdle\<rparr> in
        case from_hex_digit byte of
          None \<Rightarrow> (Some (PkPacket [] False), r')
        | Some low \<Rightarrow>
            (let r'' = r'\<lparr>pr_expected_checksum := pr_expected_checksum r' OR low\<rparr>;
                 event = (if pr_expected_checksum r'' \<noteq> pr_running_checksum r'' \<or> pr_body_overflowed r''
                   then PkPacket [] False
                   else case decode_body_with_limit (pr_body r'') (pr_max_payload r'') of
                     Some payload \<Rightarrow> PkPacket payload True
                   | None \<Rightarrow> PkPacket [] False)
             in (Some event, r''))))"

text \<open>A stream of bytes pushed one after the other, with the events in order.\<close>

primrec reader_run :: "u8 list \<Rightarrow> packet_reader \<Rightarrow> packet_event list \<times> packet_reader" where
  "reader_run [] r = ([], r)"
| "reader_run (byte # bytes) r =
     (let (event, r') = reader_push byte r; (events, r'') = reader_run bytes r'
      in ((case event of None \<Rightarrow> events | Some e \<Rightarrow> e # events), r''))"

end
