(* ===== verification/Gdb_Laws.thy ===== *)
theory Gdb_Laws
  imports Gdb_Protocol
begin

text \<open>
  Laws of the GDB framing: the decoder against a recursive account of packet bodies, escaping as its
  right inverse, the checksum as a sum, and the reader run over whole frames.
\<close>

section \<open>Hexadecimal\<close>

lemma nibble_cases:
  assumes "(n :: u8) < 16"
  shows "n \<in> {0, 1, 2, 3, 4, 5, 6, 7, 8, 9, 10, 11, 12, 13, 14, 15}"
proof -
  have "unat n \<in> set [0..<16]" using assms by (simp add: word_less_nat_alt)
  then have "of_nat (unat n) \<in> (of_nat ` set [0..<16] :: u8 set)" by (rule imageI)
  moreover have "(of_nat ` set [0..<16] :: u8 set) = {0, 1, 2, 3, 4, 5, 6, 7, 8, 9, 10, 11, 12, 13, 14, 15}"
    by (simp add: upt_rec)
  ultimately show ?thesis by simp
qed

lemma from_hex_digit_of [simp]:
  assumes "n < 16"
  shows "from_hex_digit (rsp_hex_digit n) = Some n"
  using nibble_cases [OF assms] by (elim insertE emptyE) (simp_all add: from_hex_digit_def rsp_hex_digit_def)

lemma nibbles_bound [simp]: "drop_bit 4 b < (16 :: u8)" "b AND 0x0f < (16 :: u8)"
proof -
  have "unat (drop_bit 4 b) = unat b div 16" by (simp add: unat_drop_bit_eq drop_bit_eq_div [of 4 "unat b"])
  moreover have "unat b < 256" using unat_bound [of b] by simp
  ultimately show "drop_bit 4 b < 16" by (simp add: word_less_nat_alt)
  have "b AND mask 4 < 2 ^ 4" by (rule and_mask_less') simp
  then show "b AND 0x0f < 16" by (simp add: mask_eq_exp_minus_1)
qed

lemma nibbles_join [simp]: "push_bit 4 (drop_bit 4 b) OR b AND 0x0f = (b :: u8)"
proof -
  have "push_bit 4 (drop_bit 4 b) OR b AND mask 4 = b"
    by (rule bit_word_eqI) (auto simp: bit_simps)
  then show ?thesis by (simp add: mask_eq_exp_minus_1)
qed

lemma length_hex_encode_rsp [simp]: "length (rsp_hex_encode data) = 2 * length data"
  by (induction data) (simp_all add: rsp_hex_byte_def)

lemma hex_round_trip: "rsp_hex_decode (rsp_hex_encode data) = Some data"
proof -
  have "rsp_hex_pairs (rsp_hex_encode data) = Some data"
    by (induction data) (simp_all add: rsp_hex_byte_def)
  then show ?thesis by (simp add: rsp_hex_decode_def)
qed

section \<open>Bodies\<close>

text \<open>The decoder as recursion over the remaining bytes.\<close>

fun expand :: "nat \<Rightarrow> u8 list \<Rightarrow> u8 list \<Rightarrow> u8 list option" where
  "expand m [] out = Some out"
| "expand m (b # rest) out =
     (if b = ESCAPE_BYTE then (case rest of
        [] \<Rightarrow> None
      | e # rest' \<Rightarrow> if length out = m then None else expand m rest' (out @ [e XOR ESCAPE_MASK]))
      else if b = RLE_MARKER then (case rest of
        [] \<Rightarrow> None
      | c # rest' \<Rightarrow> if c < RLE_BIAS \<or> out = [] \<or> m < length out + unat (c - RLE_BIAS) then None
          else expand m rest' (out @ replicate (unat (c - RLE_BIAS)) (last out)))
      else if length out = m then None else expand m rest (out @ [b]))"

lemma decode_loop_expand:
  assumes "m < 2 ^ 64"
  shows "decode_loop body m i out = expand m (drop i body) out"
  using assms
proof (induction body m i out rule: decode_loop.induct)
  case (1 body m i out)
  show ?case
  proof (cases "i < length body")
    case False
    then show ?thesis by (simp add: decode_loop.simps)
  next
    case True
    then have d: "drop i body = body ! i # drop (Suc i) body" by (simp add: Cons_nth_drop_Suc)
    have e: "drop (Suc i) body = (if Suc i < length body then body ! Suc i # drop (Suc (Suc i)) body else [])"
      by (simp add: Cons_nth_drop_Suc [symmetric])
    have expand: "expand m (drop i body) out =
        (if body ! i = ESCAPE_BYTE then
          (if \<not> Suc i < length body \<or> length out = m then None
           else expand m (drop (Suc (Suc i)) body) (out @ [body ! (Suc i) XOR ESCAPE_MASK]))
         else if body ! i = RLE_MARKER then
          (let n = unat (body ! (Suc i) - RLE_BIAS) in
           if \<not> Suc i < length body \<or> body ! (Suc i) < RLE_BIAS \<or> out = [] \<or> m < length out + n then None
           else expand m (drop (Suc (Suc i)) body) (out @ replicate n (last out)))
         else if length out = m then None else expand m (drop (Suc i) body) (out @ [body ! i]))"
      using e by (cases "drop (Suc i) body") (simp_all add: d Let_def split: if_splits)
    have limit: "(if 2 ^ 64 \<le> n then None else if m < n then None else x) = (if m < n then None else x)"
      for n :: nat and x :: "u8 list option"
      using 1(4) by auto
    consider (esc) "body ! i = ESCAPE_BYTE" | (rle) "body ! i = RLE_MARKER" "body ! i \<noteq> ESCAPE_BYTE"
      | (literal) "body ! i \<noteq> ESCAPE_BYTE" "body ! i \<noteq> RLE_MARKER" by blast
    then show ?thesis
    proof cases
      case esc
      then show ?thesis unfolding expand using 1(1,4) True by (subst decode_loop.simps) simp
    next
      case rle
      then show ?thesis
        unfolding expand using 1(2,4) True
        by (subst decode_loop.simps) (simp add: checked_sub_def Let_def limit not_less)
    next
      case literal
      then show ?thesis unfolding expand using 1(3,4) True by (subst decode_loop.simps) simp
    qed
  qed
qed

text \<open>The escaped form of a payload, and the checksum as a sum of bytes.\<close>

definition special :: "u8 \<Rightarrow> bool" where
  "special b \<longleftrightarrow> b \<in> {0x23, 0x24, ESCAPE_BYTE, RLE_MARKER}"

primrec escape :: "u8 list \<Rightarrow> u8 list" where
  "escape [] = []"
| "escape (b # bs) = (if special b then [ESCAPE_BYTE, b XOR ESCAPE_MASK] else [b]) @ escape bs"

lemma foldl_plus: "foldl (+) (a :: u8) bs = a + packet_checksum bs"
proof -
  have "foldl (+) (a + b) bs = a + foldl (+) b bs" for b
    by (induction bs arbitrary: b) (simp_all add: add.assoc)
  from this [of 0] show ?thesis by (simp add: packet_checksum_def)
qed

lemma packet_checksum_simps [simp]:
  "packet_checksum [] = 0" "packet_checksum (b # bs) = b + packet_checksum bs"
  "packet_checksum (as @ bs) = packet_checksum as + packet_checksum bs"
  by (simp_all add: packet_checksum_def) (simp_all add: foldl_plus)

lemma encode_loop_escape: "encode_loop p out acc = (out @ escape p, acc + packet_checksum (escape p))"
  by (induction p arbitrary: out acc) (auto simp: special_def Let_def add.assoc)

lemma encode_packet_escape:
  "encode_packet p = [0x24] @ escape p @ [0x23] @ rsp_hex_byte (packet_checksum (escape p))"
  by (simp add: encode_packet_def encode_loop_escape)

lemma escape_no_hash: "0x23 \<notin> set (escape p)"
  by (induction p) (auto simp: special_def gdb_constants)

lemma length_escape: "length (escape p) \<le> 2 * length p"
  by (induction p) auto

lemma expand_escape:
  "expand m (escape p) out = (if p = [] \<or> length out + length p \<le> m then Some (out @ p) else None)"
  if "length out \<le> m"
  using that
proof (induction p arbitrary: out)
  case (Cons b p)
  have "expand m (escape (b # p)) out = (if length out = m then None else expand m (escape p) (out @ [b]))"
    by (auto simp: special_def gdb_constants xor.assoc)
  then show ?case using Cons.IH [of "out @ [b]"] Cons.prems by auto
qed simp

lemma decode_escape:
  "m < 2 ^ 64 \<Longrightarrow> decode_body_with_limit (escape p) m = (if length p \<le> m then Some p else None)"
  by (auto simp: decode_body_with_limit_def decode_loop_expand expand_escape)

lemma expand_bound: "length out \<le> m \<Longrightarrow> expand m body out = Some p \<Longrightarrow> length p \<le> m"
  by (induction m body out rule: expand.induct) (auto split: if_splits list.splits)

lemma decode_bound: "m < 2 ^ 64 \<Longrightarrow> decode_body_with_limit body m = Some p \<Longrightarrow> length p \<le> m"
  by (simp add: decode_body_with_limit_def decode_loop_expand expand_bound [of "[]"])

section \<open>The reader over a frame\<close>

lemma reader_run_append:
  "reader_run (xs @ ys) r = (let (e1, r1) = reader_run xs r; (e2, r2) = reader_run ys r1 in (e1 @ e2, r2))"
  by (induction xs arbitrary: r) (auto simp: Let_def split: prod.splits option.splits)

lemma reader_run_body:
  assumes "pr_state r = RdBody" "0x23 \<notin> set bs" "length (pr_body r) \<le> pr_max_transmitted_body r"
  shows "reader_run bs r = ([], r\<lparr>
      pr_running_checksum := pr_running_checksum r + packet_checksum bs,
      pr_body := pr_body r @ take (pr_max_transmitted_body r - length (pr_body r)) bs,
      pr_body_overflowed := (pr_body_overflowed r \<or> pr_max_transmitted_body r < length (pr_body r) + length bs)\<rparr>)"
  using assms
proof (induction bs arbitrary: r)
  case (Cons b bs)
  have step: "reader_push b r = (None, if length (pr_body r) < pr_max_transmitted_body r
      then r\<lparr>pr_running_checksum := pr_running_checksum r + b, pr_body := pr_body r @ [b]\<rparr>
      else r\<lparr>pr_running_checksum := pr_running_checksum r + b, pr_body_overflowed := True\<rparr>)"
    using Cons.prems by (simp add: reader_push_def Let_def)
  show ?case
  proof (cases "length (pr_body r) < pr_max_transmitted_body r")
    case True
    then have "pr_max_transmitted_body r - length (pr_body r) = Suc (pr_max_transmitted_body r - Suc (length (pr_body r)))"
      by simp
    then show ?thesis using step Cons True by (auto simp: add.assoc)
  next
    case False
    then have "length (pr_body r) = pr_max_transmitted_body r" using Cons.prems by simp
    then show ?thesis using step Cons by (auto simp: add.assoc)
  qed
qed simp

text \<open>What the reader makes of a whole frame, and the state it is left in.\<close>

definition frame_event :: "nat \<Rightarrow> nat \<Rightarrow> u8 list \<Rightarrow> u8 \<Rightarrow> u8 \<Rightarrow> packet_event" where
  "frame_event m limit bs h l = (case (from_hex_digit h, from_hex_digit l) of
     (Some hi, Some lo) \<Rightarrow>
       if push_bit 4 hi OR lo = packet_checksum bs \<and> length bs \<le> limit
       then (case decode_body_with_limit bs m of Some p \<Rightarrow> PkPacket p True | None \<Rightarrow> PkPacket [] False)
       else PkPacket [] False
   | _ \<Rightarrow> PkPacket [] False)"

definition transmit_limit :: "nat \<Rightarrow> nat" where
  "transmit_limit m = min (m * 2) (2 ^ 64 - 1)"

definition idle_reader :: "nat \<Rightarrow> packet_reader \<Rightarrow> bool" where
  "idle_reader m r \<longleftrightarrow> pr_state r = RdIdle \<and> pr_max_payload r = m
     \<and> pr_max_transmitted_body r = transmit_limit m"

lemma reader_run_frame:
  assumes "idle_reader m r" "0x23 \<notin> set bs" "from_hex_digit h \<noteq> None"
  shows "\<exists>r'. reader_run ([0x24] @ bs @ [0x23, h, l]) r
      = ([frame_event m (transmit_limit m) bs h l], r') \<and> idle_reader m r'"
proof -
  let ?limit = "transmit_limit m"
  define r1 where "r1 = r\<lparr>pr_body := [], pr_running_checksum := 0, pr_body_overflowed := False, pr_state := RdBody\<rparr>"
  have 1: "reader_run [0x24] r = ([], r1)" using assms(1) by (simp add: reader_push_def idle_reader_def r1_def)
  define r2 where "r2 = r1\<lparr>pr_running_checksum := packet_checksum bs, pr_body := take ?limit bs,
      pr_body_overflowed := (?limit < length bs)\<rparr>"
  have 2: "reader_run bs r1 = ([], r2)"
    using assms(1,2) reader_run_body [of r1 bs] by (simp add: r1_def r2_def idle_reader_def)
  obtain hi where hi: "from_hex_digit h = Some hi" using assms(3) by auto
  have 3: "reader_run [0x23, h] r2 = ([], r2\<lparr>pr_state := RdChecksum2, pr_expected_checksum := push_bit 4 hi\<rparr>)"
    by (simp add: reader_push_def r2_def r1_def hi)
  obtain r' where 4: "reader_run [l] (r2\<lparr>pr_state := RdChecksum2, pr_expected_checksum := push_bit 4 hi\<rparr>)
      = ([frame_event m ?limit bs h l], r')" and idle: "idle_reader m r'"
  proof (cases "from_hex_digit l")
    case None
    then show ?thesis
      using that assms(1) by (simp add: reader_push_def r2_def r1_def frame_event_def hi idle_reader_def)
  next
    case (Some lo)
    define r3 where "r3 = r2\<lparr>pr_state := RdIdle, pr_expected_checksum := push_bit 4 hi OR lo\<rparr>"
    have "reader_run [l] (r2\<lparr>pr_state := RdChecksum2, pr_expected_checksum := push_bit 4 hi\<rparr>)
        = ([frame_event m ?limit bs h l], r3)"
      using assms(1) Some
      by (cases "length bs \<le> ?limit")
        (simp_all add: reader_push_def r3_def r2_def r1_def frame_event_def hi Let_def idle_reader_def not_le)
    moreover have "idle_reader m r3" using assms(1) by (simp add: r3_def r2_def r1_def idle_reader_def)
    ultimately show ?thesis by (rule that)
  qed
  have "reader_run ([0x24] @ bs @ [0x23, h] @ [l]) r = ([frame_event m ?limit bs h l], r')"
    by (simp only: reader_run_append 1 2 3 4 Let_def prod.case append_Nil)
  then show ?thesis using idle by simp
qed

end
