(* ===== verification/Gdb_Properties.thy ===== *)
theory Gdb_Properties
  imports Gdb_Laws
begin

text \<open>
  What the GDB framing promises: packets survive the wire in sequence, one corrupted byte is always
  noticed, and the reader stays within its limits and finds its way back from any garbage.
\<close>

section \<open>Round trip\<close>

lemma from_hex_checksum:
  "rsp_hex_byte c = [h, l] \<Longrightarrow> \<exists>hi lo. from_hex_digit h = Some hi \<and> from_hex_digit l = Some lo \<and> push_bit 4 hi OR lo = c"
  by (auto simp: rsp_hex_byte_def)

lemma frame_event_checked:
  assumes "rsp_hex_byte c = [h, l]"
  shows "frame_event m limit bs h l = (if c = packet_checksum bs \<and> length bs \<le> limit
      then (case decode_body_with_limit bs m of Some p \<Rightarrow> PkPacket p True | None \<Rightarrow> PkPacket [] False)
      else PkPacket [] False)"
  using from_hex_checksum [OF assms] by (auto simp: frame_event_def)

lemma transmit_fits: "m < 2 ^ 63 \<Longrightarrow> transmit_limit m = m * 2"
  by (simp add: transmit_limit_def)

lemma reader_run_checked:
  assumes "idle_reader m r" "0x23 \<notin> set bs"
  shows "\<exists>r'. reader_run ([0x24] @ bs @ [0x23] @ rsp_hex_byte c) r
      = ([if c = packet_checksum bs \<and> length bs \<le> transmit_limit m
          then (case decode_body_with_limit bs m of Some p \<Rightarrow> PkPacket p True | None \<Rightarrow> PkPacket [] False)
          else PkPacket [] False], r') \<and> idle_reader m r'"
proof -
  obtain h l where hl: "rsp_hex_byte c = [h, l]" by (simp add: rsp_hex_byte_def)
  then have "from_hex_digit h \<noteq> None" using from_hex_checksum by fastforce
  then show ?thesis
    using reader_run_frame [OF assms, of h l] frame_event_checked [OF hl, of m "transmit_limit m" bs] by (simp add: hl)
qed

lemma packet_decodes:
  assumes "m < 2 ^ 63" "idle_reader m r"
  shows "\<exists>r'. reader_run (encode_packet p) r
      = ([if length p \<le> m then PkPacket p True else PkPacket [] False], r') \<and> idle_reader m r'"
proof -
  have "length (escape p) \<le> transmit_limit m" if "length p \<le> m"
    using length_escape [of p] that assms(1) by (simp add: transmit_fits)
  moreover have "decode_body_with_limit (escape p) m = (if length p \<le> m then Some p else None)"
    by (rule decode_escape) (use assms(1) in simp)
  ultimately show ?thesis
    using reader_run_checked [OF assms(2) escape_no_hash, of p "packet_checksum (escape p)"]
    by (auto simp: encode_packet_escape split: if_splits)
qed

text \<open>
  C19. Packets survive the wire.  Any sequence of encoded packets, pushed byte by byte into an idle
  reader, yields exactly one event per packet, in order: the payload itself where it fits the
  reader's limit, and a rejected packet where it does not; the reader is then idle again.
\<close>

theorem packet_stream_round_trip:
  assumes "m < 2 ^ 63" "idle_reader m r"
  shows "\<exists>r'. reader_run (concat (map encode_packet ps)) r
      = (map (\<lambda>p. if length p \<le> m then PkPacket p True else PkPacket [] False) ps, r') \<and> idle_reader m r'"
  using assms(2)
proof (induction ps arbitrary: r)
  case (Cons p ps)
  obtain r1 where r1: "reader_run (encode_packet p) r
      = ([if length p \<le> m then PkPacket p True else PkPacket [] False], r1)" "idle_reader m r1"
    using packet_decodes [OF assms(1) Cons.prems] by blast
  obtain r2 where r2: "reader_run (concat (map encode_packet ps)) r1
      = (map (\<lambda>p. if length p \<le> m then PkPacket p True else PkPacket [] False) ps, r2)" "idle_reader m r2"
    using Cons.IH [OF r1(2)] by blast
  then show ?case by (auto simp: reader_run_append r1 Let_def)
qed simp

section \<open>Corruption\<close>

lemma checksum_update:
  assumes "i < length bs"
  shows "packet_checksum (bs[i := c]) = packet_checksum bs - bs ! i + c"
  using assms by (induction bs arbitrary: i) (auto simp: nth_Cons' less_Suc_eq_0_disj algebra_simps)

text \<open>
  C26. One corrupted byte is noticed.  When any byte of a transmitted body is replaced by another
  byte that does not end the frame, the reader rejects the packet, and it is idle for the
  retransmission.
\<close>

theorem corruption_detected:
  assumes "idle_reader m r" "i < length (escape p)" "c \<noteq> escape p ! i" "c \<noteq> 0x23"
  shows "\<exists>r'. reader_run ([0x24] @ (escape p)[i := c] @ [0x23] @ rsp_hex_byte (packet_checksum (escape p))) r
      = ([PkPacket [] False], r') \<and> idle_reader m r'"
proof -
  have "0x23 \<notin> set ((escape p)[i := c])"
    using escape_no_hash [of p] assms(4) set_update_subset_insert [of "escape p" i c] by auto
  moreover have "packet_checksum (escape p) \<noteq> packet_checksum ((escape p)[i := c])"
    using assms(2,3) by (simp add: checksum_update)
  ultimately show ?thesis using reader_run_checked [OF assms(1), of "(escape p)[i := c]" "packet_checksum (escape p)"] by simp
qed

section \<open>Limits and recovery\<close>

definition reader_inv :: "nat \<Rightarrow> packet_reader \<Rightarrow> bool" where
  "reader_inv m r \<longleftrightarrow> pr_max_payload r = m \<and> pr_max_transmitted_body r = transmit_limit m
     \<and> length (pr_body r) \<le> transmit_limit m"

definition event_within :: "nat \<Rightarrow> packet_event \<Rightarrow> bool" where
  "event_within m e = (case e of PkPacket p intact \<Rightarrow> length p \<le> m \<and> (\<not> intact \<longrightarrow> p = []) | _ \<Rightarrow> True)"

lemma reader_push_within:
  assumes "m < 2 ^ 64" "reader_inv m r" "reader_push b r = (e, r')"
  shows "reader_inv m r' \<and> (\<forall>x. e = Some x \<longrightarrow> event_within m x)"
proof (cases "pr_state r")
  case RdChecksum2
  have "length p \<le> m" if "decode_body_with_limit (pr_body r) m = Some p" for p
    using decode_bound [OF assms(1) that] .
  then show ?thesis
    using assms(2,3) RdChecksum2
    by (auto simp: reader_push_def reader_inv_def event_within_def Let_def split: option.splits if_splits)
qed (use assms(2,3) in \<open>auto simp: reader_push_def reader_inv_def event_within_def Let_def split: option.splits if_splits\<close>)

lemma reader_run_within:
  assumes "m < 2 ^ 64" "reader_inv m r" "reader_run bs r = (es, r')"
  shows "reader_inv m r' \<and> list_all (event_within m) es"
  using assms(2,3)
proof (induction bs arbitrary: r es r')
  case (Cons b bs)
  obtain e r1 where p: "reader_push b r = (e, r1)" by force
  obtain es' r2 where q: "reader_run bs r1 = (es', r2)" by force
  show ?case
    using reader_push_within [OF assms(1) Cons.prems(1) p] Cons.IH [OF _ q] Cons.prems(2) p q
    by (auto simp: Let_def split: option.splits)
qed simp

lemma reader_new_inv: "reader_inv m (reader_with_max_payload m)"
  by (simp add: reader_inv_def reader_with_max_payload_def transmit_limit_def)

lemma resync_idle:
  assumes "reader_run [0x23, 0x30, 0x30] r = (es, r')"
  shows "pr_state r' = RdIdle"
  using assms by (cases "pr_state r") (auto simp: reader_push_def Let_def from_hex_digit_def split: prod.splits)

text \<open>
  C25. The reader is bounded and recovers.  Whatever bytes arrive, it never retains more than twice
  the payload limit, never reports a payload above the limit, and reports nothing of a rejected
  packet; and after any bytes, the closing of a frame followed by an encoded packet makes that
  packet the last event.
\<close>

theorem reader_bounded_and_recovers:
  assumes "m < 2 ^ 63" "reader_run garbage (reader_with_max_payload m) = (es, r)" "length p \<le> m"
  shows "length (pr_body r) \<le> 2 * m \<and> list_all (event_within m) es
    \<and> (\<exists>es' r'. reader_run ([0x23, 0x30, 0x30] @ encode_packet p) r = (es' @ [PkPacket p True], r') \<and> idle_reader m r')"
proof -
  have m: "m < 2 ^ 64" using assms(1) by simp
  have inv: "reader_inv m r" and within: "list_all (event_within m) es"
    using reader_run_within [OF m reader_new_inv assms(2)] by simp_all
  obtain es' r1 where r1: "reader_run [0x23, 0x30, 0x30] r = (es', r1)" by force
  then have "idle_reader m r1"
    using resync_idle [OF r1] reader_run_within [OF m inv r1] by (simp add: idle_reader_def reader_inv_def)
  then obtain r' where r': "reader_run (encode_packet p) r1 = ([PkPacket p True], r')" "idle_reader m r'"
    using packet_decodes [OF assms(1), of r1 p] assms(3) by auto
  have "reader_run ([0x23, 0x30, 0x30] @ encode_packet p) r = (es' @ [PkPacket p True], r')"
    by (simp only: reader_run_append r1 r'(1) Let_def prod.case)
  then show ?thesis using within inv r'(2) assms(1) by (auto simp: reader_inv_def transmit_fits)
qed

section \<open>Concrete packets\<close>

lemma new_reader_idle: "idle_reader 4096 reader_new"
  by (simp add: idle_reader_def reader_new_def reader_with_max_payload_def DEFAULT_MAX_PACKET_PAYLOAD_def transmit_limit_def)

text \<open>The packets \<open>OK\<close> and \<open>}\<close>, the second of which is escaped.\<close>

theorem packet_stream_round_trip_witness:
  "encode_packet [0x4f, 0x4b] = [0x24, 0x4f, 0x4b, 0x23, 0x39, 0x61]
   \<and> encode_packet [0x7d] = [0x24, 0x7d, 0x5d, 0x23, 0x64, 0x61]
   \<and> (\<exists>r'. reader_run (concat (map encode_packet [[0x4f, 0x4b], [0x7d]])) reader_new
       = ([PkPacket [0x4f, 0x4b] True, PkPacket [0x7d] True], r') \<and> idle_reader 4096 r')"
proof -
  have "encode_packet [0x4f, 0x4b] = [0x24, 0x4f, 0x4b, 0x23, 0x39, 0x61]"
    "encode_packet [0x7d] = [0x24, 0x7d, 0x5d, 0x23, 0x64, 0x61]"
    by (simp_all add: encode_packet_def gdb_constants rsp_hex_byte_def rsp_hex_digit_def Let_def drop_bit_eq_div)
  then show ?thesis
    using packet_stream_round_trip [OF _ new_reader_idle, of "[[0x4f, 0x4b], [0x7d]]"] by simp
qed

theorem corruption_detected_witness:
  "(\<exists>r'. reader_run [0x24, 0x4f, 0x4c, 0x23, 0x39, 0x61] reader_new = ([PkPacket [] False], r') \<and> idle_reader 4096 r')"
proof -
  have e: "escape [0x4f, 0x4b] = [0x4f, 0x4b]" by (simp add: special_def gdb_constants)
  have "rsp_hex_byte (packet_checksum [0x4f, 0x4b]) = [0x39, 0x61]"
    by (simp add: rsp_hex_byte_def rsp_hex_digit_def drop_bit_eq_div)
  then show ?thesis
    using corruption_detected [OF new_reader_idle, of 1 "[0x4f, 0x4b]" "0x4c"] unfolding e by simp
qed

theorem reader_bounded_and_recovers_witness:
  "\<exists>r es' r'. reader_run [0x24, 0x24, 0x03] (reader_with_max_payload 4096) = ([], r)
     \<and> reader_run ([0x23, 0x30, 0x30] @ encode_packet [0x4f, 0x4b]) r = (es' @ [PkPacket [0x4f, 0x4b] True], r')"
proof -
  obtain r where r: "reader_run [0x24, 0x24, 0x03] (reader_with_max_payload 4096) = ([], r)"
    by (simp add: reader_push_def reader_with_max_payload_def Let_def)
  then show ?thesis using reader_bounded_and_recovers [of 4096, OF _ r, of "[0x4f, 0x4b]"] by auto
qed

end
