(* ===== verification/Address_Space.thy ===== *)
theory Address_Space
  imports Identity
begin

text \<open>
  The static address space of an analysed image (\<open>address_space.rs\<close>): the loader-rounded partition
  of a PE image and the sparse load segments of an ELF image, with the lookups over them.  The
  analyses are records of the fields that the constructors read; their own validation belongs to the
  static analysis.  Addresses and sizes are machine words of the widths the source has.
\<close>

unbundle bit_operations_syntax

section \<open>Data\<close>

definition IMAGE_SCN_MEM_EXECUTE :: u32 where "IMAGE_SCN_MEM_EXECUTE = 0x20000000"
definition IMAGE_SCN_MEM_READ :: u32 where "IMAGE_SCN_MEM_READ = 0x40000000"
definition IMAGE_SCN_MEM_WRITE :: u32 where "IMAGE_SCN_MEM_WRITE = 0x80000000"
definition X64_PAGE_SIZE :: u32 where "X64_PAGE_SIZE = 0x1000"
definition MIN_STANDARD_FILE_ALIGNMENT :: u32 where "MIN_STANDARD_FILE_ALIGNMENT = 0x200"
definition MAX_FILE_ALIGNMENT :: u32 where "MAX_FILE_ALIGNMENT = 0x10000"

record address_range =
  ar_start :: u64
  ar_size :: u64

text \<open>\<open>StaticAddressSpaceError\<close> without the error that \<open>validate\<close> passes through.\<close>

datatype (plugins only: code size) address_space_error =
    AsUnsupportedFormat
  | AsEmptyRegion u64
  | AsAddressOverflow u64 u64
  | AsPreferredImageOverflow u64 u64
  | AsInvalidAlignment string u64 string
  | AsAlignmentOverflow string u64 u64
  | AsMisalignedImageValue string u64 u64
  | AsMisalignedSectionValue nat string u64 u64
  | AsSubPageSectionOffsetMismatch nat u64 u64
  | AsOverlappingRegion u64 u64
  | AsRegionOutsideImage u64 u64 u64
  | AsSectionIndexOverflow nat
  | AsSegmentBelowImageBase u16 u64 u64
  | AsFileBackingOverflow u64 u64
  | AsFileBackingOutsideBinary u64 u64 u64

definition address_range_checked :: "u64 \<Rightarrow> u64 \<Rightarrow> address_space_error + address_range" where
  "address_range_checked start sz =
     rbind (guard (sz \<noteq> 0) (AsEmptyRegion start)) (\<lambda>_.
     rbind (ok_or (checked_add start sz) (AsAddressOverflow start sz)) (\<lambda>_.
     Inr \<lparr>ar_start = start, ar_size = sz\<rparr>))"

definition range_end :: "address_range \<Rightarrow> u64" where
  "range_end r = ar_start r + ar_size r"

definition range_contains :: "address_range \<Rightarrow> u64 \<Rightarrow> bool" where
  "range_contains r address \<longleftrightarrow> ar_start r \<le> address \<and> address < ar_start r + ar_size r"

record memory_access =
  ma_readable :: bool
  ma_writable :: bool
  ma_executable :: bool

definition is_rwx :: "memory_access \<Rightarrow> bool" where
  "is_rwx a \<longleftrightarrow> ma_readable a \<and> ma_writable a \<and> ma_executable a"

definition memory_access_default :: memory_access where
  "memory_access_default = \<lparr>ma_readable = False, ma_writable = False, ma_executable = False\<rparr>"

record file_backing =
  fb_offset :: u64
  fb_size :: u64

datatype (plugins only: code size) image_layout = IlPe u32 u32 | IlElf

definition pe_alignments :: "image_layout \<Rightarrow> (u32 \<times> u32) option" where
  "pe_alignments layout = (case layout of IlPe section_alignment file_alignment \<Rightarrow> Some (section_alignment, file_alignment)
     | IlElf \<Rightarrow> None)"

text \<open>A section with its table index, name, characteristics and loaded size; a segment likewise.\<close>

datatype (plugins only: code size) region_kind =
    RkHeaders
  | RkSection u32 string u32 u64
  | RkLoadSegment u16 u32 u32 u64
  | RkImageGap

record static_region =
  rg_range :: address_range
  rg_kind :: region_kind
  rg_access :: memory_access
  rg_file_backing :: "file_backing option"

definition region_file_offset_at :: "static_region \<Rightarrow> u64 \<Rightarrow> u64 option" where
  "region_file_offset_at g address = (case rg_file_backing g of
     None \<Rightarrow> None
   | Some backing \<Rightarrow>
       if \<not> range_contains (rg_range g) address then None
       else (let delta = address - ar_start (rg_range g) in
         if delta < fb_size backing then Some (fb_offset backing + delta) else None))"

definition saturating_sub :: "u64 \<Rightarrow> u64 \<Rightarrow> u64" where
  "saturating_sub a b = (if b \<le> a then a - b else 0)"

definition backing_size :: "static_region \<Rightarrow> u64" where
  "backing_size g = (case rg_file_backing g of None \<Rightarrow> 0 | Some backing \<Rightarrow> fb_size backing)"

definition zero_fill_size :: "static_region \<Rightarrow> u64" where
  "zero_fill_size g = (case rg_kind g of
     RkSection _ _ _ loaded_size \<Rightarrow> saturating_sub loaded_size (backing_size g)
   | RkLoadSegment _ _ _ loaded_size \<Rightarrow> saturating_sub loaded_size (backing_size g)
   | _ \<Rightarrow> 0)"

definition mapped_padding_size :: "static_region \<Rightarrow> u64" where
  "mapped_padding_size g = (case rg_kind g of
     RkHeaders \<Rightarrow> saturating_sub (ar_size (rg_range g)) (backing_size g)
   | RkSection _ _ _ loaded_size \<Rightarrow> saturating_sub (ar_size (rg_range g)) loaded_size
   | RkLoadSegment _ _ _ loaded_size \<Rightarrow> saturating_sub (ar_size (rg_range g)) loaded_size
   | RkImageGap \<Rightarrow> 0)"

record static_address_space =
  sp_binary_id :: binary_id
  sp_preferred_image_base :: u64
  sp_image_size :: u64
  sp_layout :: image_layout
  sp_entry_point :: "u64 option"
  sp_regions :: "static_region list"

section \<open>The analysed images\<close>

record pe_section =
  ps_name :: string
  ps_raw_name :: "u8 list"
  ps_virtual_address :: u32
  ps_virtual_size :: u32
  ps_raw_data_offset :: u32
  ps_raw_data_size :: u32
  ps_characteristics :: u32

definition section_loaded_size :: "pe_section \<Rightarrow> u32" where
  "section_loaded_size s = (if ps_virtual_size s = 0 then ps_raw_data_size s else ps_virtual_size s)"

definition section_file_backed_size :: "pe_section \<Rightarrow> u32" where
  "section_file_backed_size s = (let loaded_size = section_loaded_size s in
     if ps_raw_data_size s < loaded_size then ps_raw_data_size s else loaded_size)"

text \<open>The fields of \<open>PeAnalysis\<close>, and of its identity, that the layout reads.\<close>

record pe_analysis =
  pe_binary_id :: binary_id
  pe_image_base :: u64
  pe_entry_point_rva :: u32
  pe_size_of_image :: u32
  pe_size_of_headers :: u32
  pe_section_alignment :: u32
  pe_file_alignment :: u32
  pe_sections :: "pe_section list"

record elf_load_segment =
  es_program_header_index :: u16
  es_file_offset :: u64
  es_file_size :: u64
  es_virtual_address :: u64
  es_memory_size :: u64
  es_flags :: u32
  es_alignment :: u32

definition segment_readable :: "elf_load_segment \<Rightarrow> bool" where
  "segment_readable s \<longleftrightarrow> es_flags s AND 4 \<noteq> 0"

definition segment_writable :: "elf_load_segment \<Rightarrow> bool" where
  "segment_writable s \<longleftrightarrow> es_flags s AND 2 \<noteq> 0"

definition segment_executable :: "elf_load_segment \<Rightarrow> bool" where
  "segment_executable s \<longleftrightarrow> es_flags s AND 1 \<noteq> 0"

text \<open>The fields of \<open>ElfAnalysis\<close>, and of its identity, that the layout reads.\<close>

record elf_analysis =
  ea_binary_id :: binary_id
  ea_binary_size :: u64
  ea_image_base :: u64
  ea_image_size :: u64
  ea_entry_rva :: u64
  ea_load_segments :: "elf_load_segment list"

section \<open>Alignment\<close>

definition checked_align_up :: "u64 \<Rightarrow> u64 \<Rightarrow> string \<Rightarrow> address_space_error + u64" where
  "checked_align_up v alignment field =
     (let remainder = v mod alignment in
      if remainder = 0 then Inr v
      else ok_or (checked_add v (alignment - remainder)) (AsAlignmentOverflow field v alignment))"

definition require_aligned :: "string \<Rightarrow> u64 \<Rightarrow> u64 \<Rightarrow> address_space_error + unit" where
  "require_aligned field v alignment = guard (v mod alignment = 0) (AsMisalignedImageValue field v alignment)"

definition require_section_aligned :: "nat \<Rightarrow> string \<Rightarrow> u64 \<Rightarrow> u64 \<Rightarrow> address_space_error + unit" where
  "require_section_aligned index field v alignment =
     guard (v mod alignment = 0) (AsMisalignedSectionValue index field v alignment)"

definition is_power_of_two :: "u32 \<Rightarrow> bool" where
  "is_power_of_two v \<longleftrightarrow> v \<noteq> 0 \<and> v AND (v - 1) = 0"

definition validate_section_alignment :: "u32 \<Rightarrow> u32 \<Rightarrow> nat \<times> pe_section \<Rightarrow> address_space_error + unit" where
  "validate_section_alignment section_alignment file_alignment = (\<lambda>(index, s).
     rbind (if section_loaded_size s \<noteq> 0
       then require_section_aligned index ''VirtualAddress'' (ucast (ps_virtual_address s)) (ucast section_alignment)
       else Inr ()) (\<lambda>_.
     if ps_raw_data_size s = 0 then Inr () else
     rbind (require_section_aligned index ''SizeOfRawData'' (ucast (ps_raw_data_size s)) (ucast file_alignment)) (\<lambda>_.
     rbind (require_section_aligned index ''PointerToRawData'' (ucast (ps_raw_data_offset s)) (ucast file_alignment)) (\<lambda>_.
     guard (\<not> (section_alignment < X64_PAGE_SIZE \<and> ps_raw_data_offset s \<noteq> ps_virtual_address s))
       (AsSubPageSectionOffsetMismatch index (ucast (ps_virtual_address s)) (ucast (ps_raw_data_offset s)))))))"

definition validate_image_alignment :: "pe_analysis \<Rightarrow> address_space_error + unit" where
  "validate_image_alignment pe =
     (let section_alignment = pe_section_alignment pe; file_alignment = pe_file_alignment pe in
     rbind (guard (is_power_of_two section_alignment)
       (AsInvalidAlignment ''SectionAlignment'' (ucast section_alignment) ''must be a power of two'')) (\<lambda>_.
     rbind (guard (is_power_of_two file_alignment)
       (AsInvalidAlignment ''FileAlignment'' (ucast file_alignment) ''must be a power of two'')) (\<lambda>_.
     rbind (guard (\<not> section_alignment < file_alignment)
       (AsInvalidAlignment ''SectionAlignment'' (ucast section_alignment)
          ''must be greater than or equal to FileAlignment'')) (\<lambda>_.
     rbind (guard (MIN_STANDARD_FILE_ALIGNMENT \<le> file_alignment \<and> file_alignment \<le> MAX_FILE_ALIGNMENT)
       (AsInvalidAlignment ''FileAlignment'' (ucast file_alignment) ''must be between 512 and 65536'')) (\<lambda>_.
     rbind (guard (\<not> (section_alignment < X64_PAGE_SIZE \<and> file_alignment \<noteq> section_alignment))
       (AsInvalidAlignment ''FileAlignment'' (ucast file_alignment)
          ''must equal SectionAlignment for sub-page images'')) (\<lambda>_.
     rbind (require_aligned ''SizeOfImage'' (ucast (pe_size_of_image pe)) (ucast section_alignment)) (\<lambda>_.
     rbind (require_aligned ''SizeOfHeaders'' (ucast (pe_size_of_headers pe)) (ucast file_alignment)) (\<lambda>_.
     try_each (validate_section_alignment section_alignment file_alignment) (enumerate 0 (pe_sections pe))))))))))"

section \<open>The PE partition\<close>

definition image_gap :: "u64 \<Rightarrow> u64 \<Rightarrow> address_space_error + static_region" where
  "image_gap start sz =
     rbind (address_range_checked start sz) (\<lambda>range.
     Inr \<lparr>rg_range = range, rg_kind = RkImageGap, rg_access = memory_access_default, rg_file_backing = None\<rparr>)"

definition pe_section_region :: "nat \<Rightarrow> pe_section \<Rightarrow> u64 \<Rightarrow> address_space_error + static_region" where
  "pe_section_region index s sz =
     rbind (guard (int index < 2 ^ 32) (AsSectionIndexOverflow index)) (\<lambda>_.
     rbind (address_range_checked (ucast (ps_virtual_address s)) sz) (\<lambda>range.
     Inr \<lparr>rg_range = range,
          rg_kind = RkSection (of_nat index) (ps_name s) (ps_characteristics s) (ucast (section_loaded_size s)),
          rg_access = \<lparr>ma_readable = (ps_characteristics s AND IMAGE_SCN_MEM_READ \<noteq> 0),
            ma_writable = (ps_characteristics s AND IMAGE_SCN_MEM_WRITE \<noteq> 0),
            ma_executable = (ps_characteristics s AND IMAGE_SCN_MEM_EXECUTE \<noteq> 0)\<rparr>,
          rg_file_backing = (let initialized_size = section_file_backed_size s in
            if initialized_size \<noteq> 0 then Some \<lparr>fb_offset = ucast (ps_raw_data_offset s), fb_size = ucast initialized_size\<rparr>
            else None)\<rparr>))"

text \<open>The loop over the sections in address order: it extends the regions and moves the cursor.\<close>

primrec place_sections ::
    "u64 \<Rightarrow> u64 \<Rightarrow> (nat \<times> pe_section) list \<Rightarrow> static_region list \<Rightarrow> u64
     \<Rightarrow> address_space_error + static_region list \<times> u64" where
  "place_sections alignment image_size [] regions cursor = Inr (regions, cursor)"
| "place_sections alignment image_size (x # xs) regions cursor =
     (let (index, s) = x; start = ucast (ps_virtual_address s); loaded_size = ucast (section_loaded_size s) in
      if loaded_size = 0 then place_sections alignment image_size xs regions cursor
      else
        rbind (checked_align_up loaded_size alignment ''section mapped size'') (\<lambda>sz.
        rbind (ok_or (checked_add start sz) (AsAddressOverflow start sz)) (\<lambda>end_address.
        rbind (guard (\<not> start < cursor) (AsOverlappingRegion start cursor)) (\<lambda>_.
        rbind (guard (\<not> image_size < end_address) (AsRegionOutsideImage start end_address image_size)) (\<lambda>_.
        rbind (if cursor < start then rbind (image_gap cursor (start - cursor)) (\<lambda>g. Inr (regions @ [g]))
               else Inr regions) (\<lambda>regions'.
        rbind (pe_section_region index s sz) (\<lambda>g.
        place_sections alignment image_size xs (regions' @ [g]) end_address)))))))"

definition from_validated_pe :: "pe_analysis \<Rightarrow> address_space_error + static_address_space" where
  "from_validated_pe pe =
     rbind (validate_image_alignment pe) (\<lambda>_.
     (let image_size = ucast (pe_size_of_image pe); header_size = ucast (pe_size_of_headers pe) in
     rbind (ok_or (checked_add (pe_image_base pe) image_size)
       (AsPreferredImageOverflow (pe_image_base pe) image_size)) (\<lambda>_.
     rbind (checked_align_up header_size (ucast (pe_section_alignment pe)) ''SizeOfHeaders'') (\<lambda>header_mapped_size.
     rbind (guard (\<not> image_size < header_mapped_size) (AsRegionOutsideImage 0 header_mapped_size image_size)) (\<lambda>_.
     rbind (address_range_checked 0 header_mapped_size) (\<lambda>header_range.
     rbind (place_sections (ucast (pe_section_alignment pe)) image_size
         (sort_key (\<lambda>(_, s). ps_virtual_address s) (enumerate 0 (pe_sections pe)))
         [\<lparr>rg_range = header_range, rg_kind = RkHeaders,
           rg_access = \<lparr>ma_readable = True, ma_writable = False, ma_executable = False\<rparr>,
           rg_file_backing = Some \<lparr>fb_offset = 0, fb_size = header_size\<rparr>\<rparr>]
         header_mapped_size) (\<lambda>(regions, cursor).
     rbind (if cursor < image_size then rbind (image_gap cursor (image_size - cursor)) (\<lambda>g. Inr (regions @ [g]))
            else Inr regions) (\<lambda>regions'.
     Inr \<lparr>sp_binary_id = pe_binary_id pe, sp_preferred_image_base = pe_image_base pe, sp_image_size = image_size,
          sp_layout = IlPe (pe_section_alignment pe) (pe_file_alignment pe),
          sp_entry_point = (if pe_entry_point_rva pe \<noteq> 0 then Some (ucast (pe_entry_point_rva pe)) else None),
          sp_regions = regions'\<rparr>))))))))"

section \<open>The ELF segments\<close>

primrec place_segments ::
    "elf_analysis \<Rightarrow> elf_load_segment list \<Rightarrow> static_region list \<Rightarrow> u64 \<Rightarrow> address_space_error + static_region list" where
  "place_segments elf [] regions cursor = Inr regions"
| "place_segments elf (s # ss) regions cursor =
     (let image_base = ea_image_base elf; image_size = ea_image_size elf; virtual_address = es_virtual_address s in
     rbind (ok_or (checked_sub virtual_address image_base)
       (AsSegmentBelowImageBase (es_program_header_index s) virtual_address image_base)) (\<lambda>start.
     rbind (address_range_checked start (es_memory_size s)) (\<lambda>range.
     (let end_address = range_end range in
     rbind (guard (\<not> start < cursor) (AsOverlappingRegion start cursor)) (\<lambda>_.
     rbind (guard (\<not> image_size < end_address) (AsRegionOutsideImage start end_address image_size)) (\<lambda>_.
     rbind (ok_or (checked_add (es_file_offset s) (es_file_size s))
       (AsFileBackingOverflow (es_file_offset s) (es_file_size s))) (\<lambda>file_end.
     rbind (guard (\<not> ea_binary_size elf < file_end)
       (AsFileBackingOutsideBinary (es_file_offset s) (es_file_size s) (ea_binary_size elf))) (\<lambda>_.
     place_segments elf ss (regions @ [\<lparr>rg_range = range,
         rg_kind = RkLoadSegment (es_program_header_index s) (es_flags s) (es_alignment s) (es_memory_size s),
         rg_access = \<lparr>ma_readable = segment_readable s, ma_writable = segment_writable s,
           ma_executable = segment_executable s\<rparr>,
         rg_file_backing = (if es_file_size s \<noteq> 0
           then Some \<lparr>fb_offset = es_file_offset s, fb_size = es_file_size s\<rparr> else None)\<rparr>]) end_address))))))))"

text \<open>\<open>from_elf\<close> once the analysis has validated itself.\<close>

definition from_validated_elf :: "elf_analysis \<Rightarrow> address_space_error + static_address_space" where
  "from_validated_elf elf =
     rbind (ok_or (checked_add (ea_image_base elf) (ea_image_size elf))
       (AsPreferredImageOverflow (ea_image_base elf) (ea_image_size elf))) (\<lambda>_.
     rbind (place_segments elf (ea_load_segments elf) [] 0) (\<lambda>regions.
     Inr \<lparr>sp_binary_id = ea_binary_id elf, sp_preferred_image_base = ea_image_base elf,
          sp_image_size = ea_image_size elf, sp_layout = IlElf, sp_entry_point = Some (ea_entry_rva elf),
          sp_regions = regions\<rparr>))"

section \<open>Lookups\<close>

text \<open>\<open>partition_point\<close> finds the end of the prefix on which its predicate holds.\<close>

definition partition_point :: "('a \<Rightarrow> bool) \<Rightarrow> 'a list \<Rightarrow> nat" where
  "partition_point P xs = length (takeWhile P xs)"

definition region_at :: "u64 \<Rightarrow> static_address_space \<Rightarrow> static_region option" where
  "region_at address s =
     (let index = partition_point (\<lambda>g. range_end (rg_range g) \<le> address) (sp_regions s) in
      if index < length (sp_regions s) \<and> range_contains (rg_range (sp_regions s ! index)) address
      then Some (sp_regions s ! index) else None)"

definition preferred_virtual_address :: "u64 \<Rightarrow> static_address_space \<Rightarrow> u64 option" where
  "preferred_virtual_address address s =
     (if address < sp_image_size s then checked_add (sp_preferred_image_base s) address else None)"

definition relative_address :: "u64 \<Rightarrow> static_address_space \<Rightarrow> u64 option" where
  "relative_address va s = (case checked_sub va (sp_preferred_image_base s) of
     None \<Rightarrow> None
   | Some rva \<Rightarrow> if rva < sp_image_size s then Some rva else None)"

definition file_offset_at :: "u64 \<Rightarrow> static_address_space \<Rightarrow> u64 option" where
  "file_offset_at address s = (case region_at address s of
     None \<Rightarrow> None
   | Some g \<Rightarrow> region_file_offset_at g address)"

end
