(* ===== verification/Address_Laws.thy ===== *)
theory Address_Laws
  imports Address_Space
begin

text \<open>
  The shape of region tables.  A table is spaced between two bounds when its regions are non-empty, in
  order and disjoint; it is tiled when they also leave no space.  On a spaced table the binary search
  of \<open>region_at\<close> finds exactly the region that contains the address.  The two constructors build
  such tables, and the regions in them are the images of the sections and segments they read.
\<close>

section \<open>Spaced and tiled tables\<close>

definition region_first :: "static_region \<Rightarrow> nat" where
  "region_first g = unat (ar_start (rg_range g))"

definition region_limit :: "static_region \<Rightarrow> nat" where
  "region_limit g = unat (ar_start (rg_range g)) + unat (ar_size (rg_range g))"

definition region_sound :: "static_region \<Rightarrow> bool" where
  "region_sound g \<longleftrightarrow> region_first g < region_limit g \<and> region_limit g < 2 ^ 64"

primrec spaced :: "nat \<Rightarrow> static_region list \<Rightarrow> nat \<Rightarrow> bool" where
  "spaced lo [] hi \<longleftrightarrow> lo \<le> hi"
| "spaced lo (g # gs) hi \<longleftrightarrow> lo \<le> region_first g \<and> region_sound g \<and> spaced (region_limit g) gs hi"

primrec tiled :: "nat \<Rightarrow> static_region list \<Rightarrow> nat \<Rightarrow> bool" where
  "tiled lo [] hi \<longleftrightarrow> lo = hi"
| "tiled lo (g # gs) hi \<longleftrightarrow> lo = region_first g \<and> region_sound g \<and> tiled (region_limit g) gs hi"

lemma tiled_spaced: "tiled lo gs hi \<Longrightarrow> spaced lo gs hi"
  by (induction gs arbitrary: lo) auto

lemma tiled_append: "tiled lo (xs @ ys) hi \<longleftrightarrow> (\<exists>mid. tiled lo xs mid \<and> tiled mid ys hi)"
  by (induction xs arbitrary: lo) auto

lemma unat_range_end: "region_sound g \<Longrightarrow> unat (range_end (rg_range g)) = region_limit g"
  by (simp add: range_end_def region_sound_def region_limit_def unat_word_ariths)

lemma range_contains_nat:
  "region_sound g \<Longrightarrow> range_contains (rg_range g) a \<longleftrightarrow> region_first g \<le> unat a \<and> unat a < region_limit g"
  using unat_range_end [of g]
  by (simp add: range_contains_def range_end_def region_first_def word_le_nat_alt word_less_nat_alt)

lemma spaced_bounds:
  "spaced lo gs hi \<Longrightarrow> g \<in> set gs \<Longrightarrow> lo \<le> region_first g \<and> region_sound g \<and> region_limit g \<le> hi"
proof (induction gs arbitrary: lo)
  case (Cons x xs)
  have le: "region_limit x \<le> hi" if "spaced (region_limit x) ys hi" for ys
    using that
  proof (induction ys arbitrary: x)
    case (Cons y ys)
    then show ?case by (fastforce simp: region_sound_def)
  qed simp
  show ?case
    using Cons le by (fastforce simp: region_sound_def)
qed simp

lemma tiled_covers:
  "tiled lo gs hi \<Longrightarrow> lo \<le> n \<Longrightarrow> n < hi \<Longrightarrow> \<exists>g \<in> set gs. region_first g \<le> n \<and> n < region_limit g"
proof (induction gs arbitrary: lo)
  case (Cons x xs)
  then show ?case
    by (cases "n < region_limit x") auto
qed simp

definition spot :: "u64 \<Rightarrow> static_region list \<Rightarrow> static_region option" where
  "spot address gs =
     (let index = partition_point (\<lambda>g. range_end (rg_range g) \<le> address) gs in
      if index < length gs \<and> range_contains (rg_range (gs ! index)) address then Some (gs ! index) else None)"

lemma region_at_spot: "region_at a s = spot a (sp_regions s)"
  by (simp add: region_at_def spot_def)

lemma spot_Nil [simp]: "spot a [] = None"
  by (simp add: spot_def)

lemma spot_Cons:
  "spot a (g # gs) = (if range_end (rg_range g) \<le> a then spot a gs
     else if range_contains (rg_range g) a then Some g else None)"
  by (simp add: spot_def partition_point_def Let_def)

lemma spot_exact:
  "spaced lo gs hi \<Longrightarrow> spot a gs = Some g \<longleftrightarrow> g \<in> set gs \<and> range_contains (rg_range g) a"
proof (induction gs arbitrary: lo)
  case (Cons x xs)
  have sound: "region_sound x" and rest: "spaced (region_limit x) xs hi"
    using Cons.prems by auto
  have inside: "range_contains (rg_range x) a \<longleftrightarrow> region_first x \<le> unat a \<and> unat a < region_limit x"
    using sound by (rule range_contains_nat)
  have past: "range_end (rg_range x) \<le> a \<longleftrightarrow> region_limit x \<le> unat a"
    using unat_range_end [OF sound] by (simp add: word_le_nat_alt)
  have later: "region_limit x \<le> unat a" if "y \<in> set xs" "range_contains (rg_range y) a" for y
    using spaced_bounds [OF rest that(1)] that(2) range_contains_nat [of y a] by linarith
  show ?case
    using Cons.IH [OF rest] inside past later by (auto simp: spot_Cons)
qed simp

lemma region_at_exact:
  "spaced lo (sp_regions s) hi \<Longrightarrow>
   region_at a s = Some g \<longleftrightarrow> g \<in> set (sp_regions s) \<and> range_contains (rg_range g) a"
  by (simp add: region_at_spot spot_exact)

lemma region_at_tiled:
  assumes "tiled 0 (sp_regions s) hi"
  shows "region_at a s \<noteq> None \<longleftrightarrow> unat a < hi"
proof -
  have sp: "spaced 0 (sp_regions s) hi"
    using assms by (rule tiled_spaced)
  show ?thesis
    using tiled_covers [OF assms, of "unat a"] region_at_exact [OF sp, of a]
      spaced_bounds [OF sp] range_contains_nat
    by (metis le0 not_Some_eq order_less_le_trans)
qed

section \<open>Construction steps\<close>

lemma address_range_checked_InrD:
  "address_range_checked start sz = Inr r \<Longrightarrow>
   r = \<lparr>ar_start = start, ar_size = sz\<rparr> \<and> sz \<noteq> 0 \<and> unat start + unat sz < 2 ^ 64"
  by (auto simp: address_range_checked_def checked_add_unat)

lemma region_shape:
  assumes "address_range_checked start sz = Inr (rg_range g)"
  shows "region_sound g" "region_first g = unat start" "region_limit g = unat start + unat sz"
  using address_range_checked_InrD [OF assms]
  by (auto simp: region_sound_def region_first_def region_limit_def unat_gt_0)

text \<open>Rounding up, as the least multiple that is not below.\<close>

definition round_up :: "nat \<Rightarrow> nat \<Rightarrow> nat" where
  "round_up a n = (n + (a - 1)) div a * a"

lemma round_up_remainder:
  assumes "0 < a"
  shows "round_up a n = (if n mod a = 0 then n else n + (a - n mod a))"
proof -
  let ?q = "n div a" and ?r = "n mod a"
  have r: "?r < a"
    using assms by simp
  have split: "n + (a - 1) = a * ?q + (?r + (a - 1))"
    using mult_div_mod_eq [of a n] by linarith
  have q: "(n + (a - 1)) div a = ?q + (?r + (a - 1)) div a"
    using assms unfolding split by (subst div_mult_self4) auto
  have n: "n = ?q * a + ?r"
    by (simp add: mult.commute)
  show ?thesis
  proof (cases "?r = 0")
    case True
    then have "(?r + (a - 1)) div a = 0"
      using assms by simp
    then show ?thesis
      using True q n by (simp add: round_up_def)
  next
    case False
    then have "?r + (a - 1) < a + a" "a \<le> ?r + (a - 1)"
      using r by linarith+
    then have "(?r + (a - 1)) div a = 1"
      by (intro div_nat_eqI) simp_all
    then have "round_up a n = ?q * a + a"
      using q by (simp add: round_up_def)
    then have "round_up a n = n + (a - ?r)"
      using n r by linarith
    then show ?thesis
      using False by simp
  qed
qed

lemma checked_align_up_round:
  assumes "checked_align_up v a field = Inr w" and "a \<noteq> 0"
  shows "unat w = round_up (unat a) (unat v)"
proof -
  have pos: "0 < unat a"
    using assms(2) by (simp add: unat_gt_0)
  have rem: "unat (v mod a) = unat v mod unat a"
    by (rule unat_mod)
  have le: "v mod a \<le> a"
    using pos by (simp add: word_le_nat_alt rem less_imp_le)
  have zero: "v mod a = 0 \<longleftrightarrow> unat v mod unat a = 0"
    using rem by (metis unat_0 unat_eq_zero)
  show ?thesis
    using assms(1) zero checked_add_SomeD [of v "a - v mod a" w]
    by (auto simp: checked_align_up_def Let_def round_up_remainder [OF pos] unat_sub [OF le] rem split: if_splits)
qed

lemma unat_widen: "unat (ucast (w :: u32) :: u64) = unat w"
  using unat_bound [of w] by (simp add: unsigned_ucast_eq take_bit_nat_eq_self)

section \<open>The PE partition\<close>

text \<open>The regions that the headers and one section occupy.\<close>

definition header_region :: "pe_analysis \<Rightarrow> static_region" where
  "header_region pe =
     \<lparr>rg_range = \<lparr>ar_start = 0,
        ar_size = of_nat (round_up (unat (pe_section_alignment pe)) (unat (pe_size_of_headers pe)))\<rparr>,
      rg_kind = RkHeaders,
      rg_access = \<lparr>ma_readable = True, ma_writable = False, ma_executable = False\<rparr>,
      rg_file_backing = Some \<lparr>fb_offset = 0, fb_size = ucast (pe_size_of_headers pe)\<rparr>\<rparr>"

definition section_region :: "nat \<Rightarrow> nat \<times> pe_section \<Rightarrow> static_region" where
  "section_region a = (\<lambda>(index, s).
     \<lparr>rg_range = \<lparr>ar_start = ucast (ps_virtual_address s),
        ar_size = of_nat (round_up a (unat (section_loaded_size s)))\<rparr>,
      rg_kind = RkSection (of_nat index) (ps_name s) (ps_characteristics s) (ucast (section_loaded_size s)),
      rg_access = \<lparr>ma_readable = (ps_characteristics s AND IMAGE_SCN_MEM_READ \<noteq> 0),
        ma_writable = (ps_characteristics s AND IMAGE_SCN_MEM_WRITE \<noteq> 0),
        ma_executable = (ps_characteristics s AND IMAGE_SCN_MEM_EXECUTE \<noteq> 0)\<rparr>,
      rg_file_backing = (if section_file_backed_size s = 0 then None
        else Some \<lparr>fb_offset = ucast (ps_raw_data_offset s), fb_size = ucast (section_file_backed_size s)\<rparr>)\<rparr>)"

definition loaded :: "nat \<times> pe_section \<Rightarrow> bool" where
  "loaded x \<longleftrightarrow> section_loaded_size (snd x) \<noteq> 0"

definition declared :: "static_region \<Rightarrow> bool" where
  "declared g \<longleftrightarrow> rg_kind g \<noteq> RkImageGap"

lemma header_declared: "declared (header_region pe)"
  by (simp add: declared_def header_region_def)

text \<open>A gap has no access rights and no file bytes.\<close>

definition gap_inert :: "static_region \<Rightarrow> bool" where
  "gap_inert g \<longleftrightarrow> declared g \<or> rg_file_backing g = None \<and> rg_access g = memory_access_default"

lemma image_gap_shape:
  assumes "image_gap lo sz = Inr g"
  shows "region_sound g" "region_first g = unat lo" "region_limit g = unat lo + unat sz" "\<not> declared g" "gap_inert g"
proof -
  have "address_range_checked lo sz = Inr (rg_range g)"
    using assms by (auto simp: image_gap_def)
  note region_shape [OF this]
  then show "region_sound g" "region_first g = unat lo" "region_limit g = unat lo + unat sz" by simp_all
  show "\<not> declared g" "gap_inert g"
    using assms by (auto simp: image_gap_def declared_def gap_inert_def)
qed

lemma gap_shape:
  assumes "(if lo < hi then rbind (image_gap lo (hi - lo)) (\<lambda>g. Inr (regions @ [g])) else Inr regions) = Inr regions'"
    and "lo \<le> hi"
  shows "\<exists>gaps. regions' = regions @ gaps \<and> tiled (unat lo) gaps (unat hi) \<and> filter declared gaps = []
    \<and> list_all gap_inert gaps"
proof (cases "lo < hi")
  case True
  then obtain g where g: "image_gap lo (hi - lo) = Inr g" and r: "regions' = regions @ [g]"
    using assms(1) by auto
  have "unat lo + unat (hi - lo) = unat hi"
    using assms(2) by (simp add: unat_sub word_le_nat_alt)
  then show ?thesis
    using image_gap_shape [OF g] r by auto
next
  case False
  then show ?thesis
    using assms by simp
qed

lemma pe_section_region_shape:
  assumes "pe_section_region index s sz = Inr g"
    and "checked_align_up (ucast (section_loaded_size s)) a field = Inr sz" and "a \<noteq> 0"
  shows "region_sound g" "region_first g = unat (ps_virtual_address s)"
    "region_limit g = unat (ps_virtual_address s) + unat sz"
    "declared g" "g = section_region (unat a) (index, s)"
proof -
  have r: "address_range_checked (ucast (ps_virtual_address s)) sz = Inr (rg_range g)"
    using assms(1) by (auto simp: pe_section_region_def)
  show "region_sound g" "region_first g = unat (ps_virtual_address s)"
    "region_limit g = unat (ps_virtual_address s) + unat sz"
    using region_shape [OF r] by (simp_all add: unat_widen)
  have "unat sz = round_up (unat a) (unat (section_loaded_size s))"
    using checked_align_up_round [OF assms(2,3)] by (simp add: unat_widen)
  then have "sz = of_nat (round_up (unat a) (unat (section_loaded_size s)))"
    by (metis of_nat_unat ucast_id)
  then show "declared g" "g = section_region (unat a) (index, s)"
    using assms(1) address_range_checked_InrD [OF r]
    by (auto simp: pe_section_region_def section_region_def declared_def Let_def)
qed

lemma place_sections_shape:
  assumes "place_sections a image_size xs regions cursor = Inr (regions', cursor')" and "a \<noteq> 0"
    and "cursor \<le> image_size"
  shows "\<exists>new. regions' = regions @ new \<and> tiled (unat cursor) new (unat cursor') \<and> cursor' \<le> image_size
    \<and> filter declared new = map (section_region (unat a)) (filter loaded xs) \<and> list_all gap_inert new"
  using assms(1,3)
proof (induction xs arbitrary: regions cursor)
  case (Cons x xs)
  obtain index s where x: "x = (index, s)"
    by (cases x)
  show ?case
  proof (cases "section_loaded_size s = 0")
    case True
    then show ?thesis
      using Cons by (simp add: x loaded_def)
  next
    case False
    then have nz: "(ucast (section_loaded_size s) :: u64) \<noteq> 0"
      by (metis unat_widen unat_eq_zero)
    let ?start = "ucast (ps_virtual_address s) :: u64"
    obtain sz limit regions1 g where sz: "checked_align_up (ucast (section_loaded_size s)) a ''section mapped size'' = Inr sz"
      and limit: "checked_add ?start sz = Some limit" and order: "\<not> ?start < cursor" "\<not> image_size < limit"
      and gap: "(if cursor < ?start then rbind (image_gap cursor (?start - cursor)) (\<lambda>g. Inr (regions @ [g]))
               else Inr regions) = Inr regions1"
      and g: "pe_section_region index s sz = Inr g"
      and rest: "place_sections a image_size xs (regions1 @ [g]) limit = Inr (regions', cursor')"
      using Cons.prems(1) nz by (auto simp: x Let_def)
    obtain gaps where gaps: "regions1 = regions @ gaps" "tiled (unat cursor) gaps (unat ?start)" "filter declared gaps = []"
      "list_all gap_inert gaps"
      using gap_shape [OF gap] order unfolding not_less by blast
    note shape = pe_section_region_shape [OF g sz assms(2)]
    have lim: "region_limit g = unat limit"
      using shape(3) conjunct2 [OF checked_add_SomeD [OF limit]] by (simp only: unat_widen)
    obtain new where new: "regions' = (regions1 @ [g]) @ new" "tiled (unat limit) new (unat cursor')" "cursor' \<le> image_size"
      "filter declared new = map (section_region (unat a)) (filter loaded xs)" "list_all gap_inert new"
      using Cons.IH [OF rest] order unfolding not_less by blast
    have "tiled (unat cursor) (gaps @ g # new) (unat cursor')"
      using gaps new shape lim by (auto simp: tiled_append unat_widen)
    moreover have "filter declared (gaps @ g # new) = map (section_region (unat a)) (filter loaded (x # xs))"
      using gaps new shape False by (simp add: x loaded_def)
    moreover have "list_all gap_inert (gaps @ g # new)"
      using gaps new shape(4) by (simp add: gap_inert_def)
    ultimately show ?thesis
      using gaps new by auto
  qed
qed simp

lemma alignment_nonzero:
  assumes "validate_image_alignment pe = Inr ()"
  shows "(ucast (pe_section_alignment pe) :: u64) \<noteq> 0"
proof -
  have "pe_section_alignment pe \<noteq> 0"
    using assms by (auto simp: validate_image_alignment_def Let_def is_power_of_two_def)
  then show ?thesis
    by (metis unat_widen unat_eq_zero)
qed

definition section_order :: "pe_analysis \<Rightarrow> (nat \<times> pe_section) list" where
  "section_order pe = sort_key (\<lambda>(_, s). ps_virtual_address s) (enumerate 0 (pe_sections pe))"

lemma from_validated_pe_shape:
  assumes "from_validated_pe pe = Inr s"
  shows "tiled 0 (sp_regions s) (unat (pe_size_of_image pe))"
    and "filter declared (sp_regions s)
      = header_region pe # map (section_region (unat (pe_section_alignment pe))) (filter loaded (section_order pe))"
    and "list_all gap_inert (sp_regions s)"
proof -
  let ?a = "ucast (pe_section_alignment pe) :: u64" and ?image = "ucast (pe_size_of_image pe) :: u64"
  obtain hsize hrange regions cursor where valid: "validate_image_alignment pe = Inr ()"
    and hsize: "checked_align_up (ucast (pe_size_of_headers pe)) ?a ''SizeOfHeaders'' = Inr hsize"
    and inside: "\<not> ?image < hsize" and hrange: "address_range_checked 0 hsize = Inr hrange"
    and place: "place_sections ?a ?image (section_order pe)
         [\<lparr>rg_range = hrange, rg_kind = RkHeaders,
           rg_access = \<lparr>ma_readable = True, ma_writable = False, ma_executable = False\<rparr>,
           rg_file_backing = Some \<lparr>fb_offset = 0, fb_size = ucast (pe_size_of_headers pe)\<rparr>\<rparr>] hsize = Inr (regions, cursor)"
    and tail: "(if cursor < ?image then rbind (image_gap cursor (?image - cursor)) (\<lambda>g. Inr (regions @ [g]))
            else Inr regions) = Inr (sp_regions s)"
    using assms by (auto simp: from_validated_pe_def Let_def section_order_def split: prod.splits)
  note nz = alignment_nonzero [OF valid]
  have "unat hsize = round_up (unat (pe_section_alignment pe)) (unat (pe_size_of_headers pe))"
    using checked_align_up_round [OF hsize nz] by (simp add: unat_widen)
  then have size: "hsize = of_nat (round_up (unat (pe_section_alignment pe)) (unat (pe_size_of_headers pe)))"
    by (metis of_nat_unat ucast_id)
  have header: "\<lparr>rg_range = hrange, rg_kind = RkHeaders,
           rg_access = \<lparr>ma_readable = True, ma_writable = False, ma_executable = False\<rparr>,
           rg_file_backing = Some \<lparr>fb_offset = 0, fb_size = ucast (pe_size_of_headers pe)\<rparr>\<rparr> = header_region pe"
    using address_range_checked_InrD [OF hrange] by (simp add: header_region_def size)
  have "address_range_checked 0 hsize = Inr (rg_range (header_region pe))"
    unfolding header [symmetric] by (simp add: hrange)
  note first = region_shape [OF this]
  obtain new where new: "regions = [header_region pe] @ new" "tiled (unat hsize) new (unat cursor)" "cursor \<le> ?image"
    "filter declared new = map (section_region (unat ?a)) (filter loaded (section_order pe))"
    "list_all gap_inert new"
    using place_sections_shape [OF place nz] inside unfolding header not_less by blast
  obtain gaps where gaps: "sp_regions s = regions @ gaps" "tiled (unat cursor) gaps (unat ?image)" "filter declared gaps = []"
    "list_all gap_inert gaps"
    using gap_shape [OF tail new(3)] by blast
  show "tiled 0 (sp_regions s) (unat (pe_size_of_image pe))"
    using gaps new first by (auto simp: tiled_append unat_widen)
  show "filter declared (sp_regions s)
      = header_region pe # map (section_region (unat (pe_section_alignment pe))) (filter loaded (section_order pe))"
    using gaps new header_declared by (simp add: unat_widen)
  show "list_all gap_inert (sp_regions s)"
    using gaps new header_declared by (simp add: gap_inert_def [of "header_region pe"])
qed

lemma from_validated_pe_frame:
  assumes "from_validated_pe pe = Inr s"
  shows "sp_image_size s = ucast (pe_size_of_image pe)" "sp_preferred_image_base s = pe_image_base pe"
    "unat (sp_preferred_image_base s) + unat (sp_image_size s) < 2 ^ 64"
  using assms by (auto simp: from_validated_pe_def Let_def checked_add_unat split: prod.splits)

section \<open>The ELF segments\<close>

definition segment_region :: "u64 \<Rightarrow> elf_load_segment \<Rightarrow> static_region" where
  "segment_region base s =
     \<lparr>rg_range = \<lparr>ar_start = es_virtual_address s - base, ar_size = es_memory_size s\<rparr>,
      rg_kind = RkLoadSegment (es_program_header_index s) (es_flags s) (es_alignment s) (es_memory_size s),
      rg_access = \<lparr>ma_readable = segment_readable s, ma_writable = segment_writable s,
        ma_executable = segment_executable s\<rparr>,
      rg_file_backing = (if es_file_size s = 0 then None
        else Some \<lparr>fb_offset = es_file_offset s, fb_size = es_file_size s\<rparr>)\<rparr>"

definition backed_within :: "u64 \<Rightarrow> static_region \<Rightarrow> bool" where
  "backed_within limit g \<longleftrightarrow> (case rg_file_backing g of None \<Rightarrow> True
     | Some b \<Rightarrow> unat (fb_offset b) + unat (fb_size b) \<le> unat limit)"

lemma place_segments_shape:
  assumes "place_segments elf ss regions cursor = Inr regions'" and "cursor \<le> ea_image_size elf"
  shows "\<exists>new. regions' = regions @ new \<and> new = map (segment_region (ea_image_base elf)) ss
    \<and> spaced (unat cursor) new (unat (ea_image_size elf))
    \<and> (\<forall>s \<in> set ss. ea_image_base elf \<le> es_virtual_address s) \<and> (\<forall>g \<in> set new. backed_within (ea_binary_size elf) g)"
  using assms
proof (induction ss arbitrary: regions cursor)
  case Nil
  then show ?case by (simp add: word_le_nat_alt)
next
  case (Cons s ss)
  let ?g = "segment_region (ea_image_base elf) s"
  obtain start range file_end where start: "checked_sub (es_virtual_address s) (ea_image_base elf) = Some start"
    and range: "address_range_checked start (es_memory_size s) = Inr range"
    and order: "\<not> start < cursor" "\<not> ea_image_size elf < range_end range"
    and backing: "checked_add (es_file_offset s) (es_file_size s) = Some file_end" "\<not> ea_binary_size elf < file_end"
    and rest: "place_segments elf ss (regions @ [\<lparr>rg_range = range,
         rg_kind = RkLoadSegment (es_program_header_index s) (es_flags s) (es_alignment s) (es_memory_size s),
         rg_access = \<lparr>ma_readable = segment_readable s, ma_writable = segment_writable s,
           ma_executable = segment_executable s\<rparr>,
         rg_file_backing = (if es_file_size s \<noteq> 0
           then Some \<lparr>fb_offset = es_file_offset s, fb_size = es_file_size s\<rparr> else None)\<rparr>]) (range_end range) = Inr regions'"
    using Cons.prems(1) by (auto simp: Let_def)
  have base: "ea_image_base elf \<le> es_virtual_address s" "start = es_virtual_address s - ea_image_base elf"
    using start by (auto simp: checked_sub_def split: if_splits)
  have r: "range = rg_range ?g"
    using address_range_checked_InrD [OF range] base by (simp add: segment_region_def)
  note shape = region_shape [OF range [unfolded r]]
  have rest': "place_segments elf ss (regions @ [?g]) (range_end range) = Inr regions'"
    using rest r by (cases "es_file_size s = 0") (simp_all add: segment_region_def)
  have lim: "unat (range_end range) = region_limit ?g"
    using unat_range_end [OF shape(1)] r by simp
  obtain new where new: "regions' = (regions @ [?g]) @ new" "new = map (segment_region (ea_image_base elf)) ss"
    "spaced (unat (range_end range)) new (unat (ea_image_size elf))"
    "\<forall>s \<in> set ss. ea_image_base elf \<le> es_virtual_address s" "\<forall>g \<in> set new. backed_within (ea_binary_size elf) g"
    using Cons.IH [OF rest'] order unfolding not_less by blast
  have "backed_within (ea_binary_size elf) ?g"
    using conjunct2 [OF checked_add_SomeD [OF backing(1)]] backing(2)
    by (simp add: backed_within_def segment_region_def not_less word_le_nat_alt)
  moreover have "spaced (unat cursor) (?g # new) (unat (ea_image_size elf))"
    using new(3) shape order(1) lim by (simp add: not_less word_le_nat_alt)
  ultimately show ?case
    using new base by auto
qed

lemma from_validated_elf_shape:
  assumes "from_validated_elf elf = Inr s"
  shows "sp_regions s = map (segment_region (ea_image_base elf)) (ea_load_segments elf)"
    "spaced 0 (sp_regions s) (unat (ea_image_size elf))"
    "\<forall>x \<in> set (ea_load_segments elf). ea_image_base elf \<le> es_virtual_address x"
    "\<forall>g \<in> set (sp_regions s). backed_within (ea_binary_size elf) g"
    "sp_image_size s = ea_image_size elf" "sp_preferred_image_base s = ea_image_base elf"
    "unat (sp_preferred_image_base s) + unat (sp_image_size s) < 2 ^ 64"
  using assms place_segments_shape [of elf "ea_load_segments elf" "[]" 0 "sp_regions s"]
  by (auto simp: from_validated_elf_def checked_add_unat)

section \<open>Addresses and file offsets\<close>

lemma address_inverse:
  assumes "unat (sp_preferred_image_base s) + unat (sp_image_size s) < 2 ^ 64"
  shows "preferred_virtual_address a s = Some va \<longleftrightarrow> relative_address va s = Some a"
    and "preferred_virtual_address a s \<noteq> None \<longleftrightarrow> a < sp_image_size s"
proof -
  let ?b = "sp_preferred_image_base s"
  have fits: "unat ?b + unat a < 2 ^ 64" if "a < sp_image_size s"
    using that assms by (simp add: word_less_nat_alt)
  then have no: "?b \<le> ?b + a" if "a < sp_image_size s"
    using that by (simp add: word_le_nat_alt unat_word_ariths)
  show "preferred_virtual_address a s = Some va \<longleftrightarrow> relative_address va s = Some a"
    using fits no by (auto simp: preferred_virtual_address_def relative_address_def checked_add_unat checked_sub_def)
  show "preferred_virtual_address a s \<noteq> None \<longleftrightarrow> a < sp_image_size s"
    using fits by (auto simp: preferred_virtual_address_def checked_add_def)
qed

lemma file_offset_within:
  assumes "spaced lo (sp_regions s) hi" and "file_offset_at a s = Some off"
  shows "\<exists>g b. region_at a s = Some g \<and> rg_file_backing g = Some b \<and> region_first g \<le> unat a
    \<and> unat a - region_first g < unat (fb_size b) \<and> off = fb_offset b + (a - ar_start (rg_range g))"
proof -
  obtain g where g: "region_at a s = Some g" and off: "region_file_offset_at g a = Some off"
    using assms(2) by (auto simp: file_offset_at_def split: option.splits)
  have "region_sound g"
    using g assms(1) by (metis region_at_exact spaced_bounds)
  then have first: "region_first g \<le> unat a"
    using g assms(1) by (metis region_at_exact range_contains_nat)
  then have "unat (a - ar_start (rg_range g)) = unat a - region_first g"
    by (simp add: region_first_def unat_sub word_le_nat_alt)
  then show ?thesis
    using g off first
    by (auto simp: region_file_offset_at_def Let_def word_less_nat_alt split: option.splits if_splits)
qed

end
