(* ===== verification/Address_Properties.thy ===== *)
theory Address_Properties
  imports Address_Laws
begin

text \<open>
  Properties of the static address space: the PE table is an exact partition of the image, the ELF
  table is exactly the load segments, lookups agree with the tables, and file offsets stay inside the
  bytes the sections and segments declare.
\<close>

lemma checked_add_code [code]: "checked_add a b = (if a \<le> a + b then Some (a + b) else None)"
  by (simp add: checked_add_def no_olen_add_nat)

section \<open>Sample images\<close>

definition sample_binary :: binary_id where
  "sample_binary = replicate 64 (CHR ''a'')"

definition sample_pe :: pe_analysis where
  "sample_pe = \<lparr>pe_binary_id = sample_binary, pe_image_base = 0x140000000, pe_entry_point_rva = 0x1010,
     pe_size_of_image = 0x4000, pe_size_of_headers = 0x400, pe_section_alignment = 0x1000,
     pe_file_alignment = 0x200,
     pe_sections = [
       \<lparr>ps_name = ''.data'', ps_raw_name = [0x2e, 0x64, 0x61, 0x74, 0x61, 0, 0, 0], ps_virtual_address = 0x3000, ps_virtual_size = 0x10, ps_raw_data_offset = 0x600,
         ps_raw_data_size = 0x200, ps_characteristics = 0xC0000040\<rparr>,
       \<lparr>ps_name = ''.text'', ps_raw_name = [0x2e, 0x74, 0x65, 0x78, 0x74, 0, 0, 0], ps_virtual_address = 0x1000, ps_virtual_size = 0x800, ps_raw_data_offset = 0x400,
         ps_raw_data_size = 0x200, ps_characteristics = 0x60000020\<rparr>]\<rparr>"

definition sample_pe_space :: static_address_space where
  "sample_pe_space = (case from_validated_pe sample_pe of Inr s \<Rightarrow> s
     | Inl _ \<Rightarrow> \<lparr>sp_binary_id = sample_binary, sp_preferred_image_base = 0, sp_image_size = 0, sp_layout = IlElf,
         sp_entry_point = None, sp_regions = []\<rparr>)"

definition sample_elf :: elf_analysis where
  "sample_elf = \<lparr>ea_binary_id = sample_binary, ea_binary_size = 0x900, ea_image_base = 0x400000,
     ea_image_size = 0x9000, ea_entry_rva = 0x10,
     ea_load_segments = [
       \<lparr>es_program_header_index = 0, es_file_offset = 0, es_file_size = 0x800, es_virtual_address = 0x400000,
         es_memory_size = 0x800, es_flags = 5, es_alignment = 0x1000\<rparr>,
       \<lparr>es_program_header_index = 2, es_file_offset = 0x800, es_file_size = 0x100, es_virtual_address = 0x408000,
         es_memory_size = 0x1000, es_flags = 6, es_alignment = 0x1000\<rparr>]\<rparr>"

definition sample_elf_space :: static_address_space where
  "sample_elf_space = (case from_validated_elf sample_elf of Inr s \<Rightarrow> s | Inl _ \<Rightarrow> sample_pe_space)"

lemma sample_pe_accepted: "from_validated_pe sample_pe = Inr sample_pe_space"
proof -
  have "is_ok (from_validated_pe sample_pe)" by code_simp
  then show ?thesis by (auto simp: sample_pe_space_def is_ok_iff)
qed

lemma sample_elf_accepted: "from_validated_elf sample_elf = Inr sample_elf_space"
proof -
  have "is_ok (from_validated_elf sample_elf)" by code_simp
  then show ?thesis by (auto simp: sample_elf_space_def is_ok_iff)
qed

section \<open>The PE partition\<close>

text \<open>
  C20. When \<open>from_validated_pe\<close> accepts an image, its regions tile the image from zero to
  \<open>SizeOfImage\<close> without overlap or space between them; without the gaps they are exactly the
  headers and then, in address order, every section that loads any bytes, each rounded up to the section
  alignment.  The gaps carry no access rights and no file bytes.  An address has a region exactly when it is inside the image, and \<open>region_at\<close> returns
  the region that contains it.
\<close>

theorem pe_partition_exact:
  assumes "from_validated_pe pe = Inr s"
  shows "tiled 0 (sp_regions s) (unat (pe_size_of_image pe))
    \<and> filter declared (sp_regions s)
      = header_region pe # map (section_region (unat (pe_section_alignment pe))) (filter loaded (section_order pe))
    \<and> list_all gap_inert (sp_regions s)
    \<and> (\<forall>a. region_at a s \<noteq> None \<longleftrightarrow> unat a < unat (pe_size_of_image pe))
    \<and> (\<forall>a g. region_at a s = Some g \<longleftrightarrow> g \<in> set (sp_regions s) \<and> range_contains (rg_range g) a)"
  using from_validated_pe_shape [OF assms] region_at_tiled region_at_exact tiled_spaced
  by metis

theorem pe_partition_exact_witness:
  "tiled 0 (sp_regions sample_pe_space) 0x4000
    \<and> map rg_kind (filter declared (sp_regions sample_pe_space))
      = [RkHeaders, RkSection 1 ''.text'' 0x60000020 0x800, RkSection 0 ''.data'' 0xC0000040 0x10]
    \<and> region_at 0x2fff sample_pe_space \<noteq> None \<and> region_at 0x4000 sample_pe_space = None"
proof -
  have "filter loaded (section_order sample_pe) = [(1, pe_sections sample_pe ! 1), (0, pe_sections sample_pe ! 0)]"
    by code_simp
  then have kinds: "map rg_kind (header_region sample_pe # map (section_region 0x1000) (filter loaded (section_order sample_pe)))
      = [RkHeaders, RkSection 1 ''.text'' 0x60000020 0x800, RkSection 0 ''.data'' 0xC0000040 0x10]"
    by (simp add: header_region_def section_region_def sample_pe_def section_loaded_size_def)
  have fields: "unat (pe_size_of_image sample_pe) = 0x4000" "unat (pe_section_alignment sample_pe) = 0x1000"
    by (simp_all add: sample_pe_def)
  note exact = pe_partition_exact [OF sample_pe_accepted, unfolded fields]
  have "unat (0x2fff :: u64) < 0x4000" "\<not> unat (0x4000 :: u64) < 0x4000"
    by simp_all
  then have "region_at 0x2fff sample_pe_space \<noteq> None" "region_at 0x4000 sample_pe_space = None"
    using exact by blast+
  then show ?thesis
    using exact kinds by metis
qed

lemma declared_region:
  assumes "from_validated_pe pe = Inr s" and "g \<in> set (sp_regions s)" and "declared g"
  shows "g = header_region pe
    \<or> (\<exists>i x. (i, x) \<in> set (enumerate 0 (pe_sections pe)) \<and> g = section_region (unat (pe_section_alignment pe)) (i, x))"
proof -
  have "g \<in> set (filter declared (sp_regions s))"
    using assms by simp
  then show ?thesis
    unfolding from_validated_pe_shape(2) [OF assms(1)] by (auto simp: section_order_def)
qed

lemma section_backing:
  assumes "rg_file_backing (section_region a (i, x)) = Some b"
  shows "unat (fb_offset b) = unat (ps_raw_data_offset x)" "unat (fb_size b) \<le> unat (ps_raw_data_size x)"
    "unat (fb_size b) \<le> unat (section_loaded_size x)"
  using assms
  by (auto simp: section_region_def section_file_backed_size_def Let_def unat_widen word_le_nat_alt
      word_less_nat_alt split: if_splits)

lemma offset_sum:
  assumes "unat (o' :: u64) < 2 ^ 32" and "unat (d :: u64) < 2 ^ 32"
  shows "unat (o' + d) = unat o' + unat d"
  using assms by (simp add: unat_word_ariths)

text \<open>
  C27. A file offset that an accepted PE image gives to an address is either the address itself, inside the
  headers, or belongs to a section of the table: the address is within the bytes the section loads, and the
  offset is as far into the section's raw data as the address is into the section, and within that raw data.
  Loader padding, zero fill and gaps have no file offset.
\<close>

theorem pe_file_offset_in_raw_data:
  assumes "from_validated_pe pe = Inr s" and "file_offset_at a s = Some off"
  shows "off = a \<and> unat a < unat (pe_size_of_headers pe)
    \<or> (\<exists>x \<in> set (pe_sections pe). unat (ps_virtual_address x) \<le> unat a
        \<and> unat a - unat (ps_virtual_address x) < unat (section_loaded_size x)
        \<and> unat off = unat (ps_raw_data_offset x) + (unat a - unat (ps_virtual_address x))
        \<and> unat off < unat (ps_raw_data_offset x) + unat (ps_raw_data_size x))"
proof -
  have sp: "spaced 0 (sp_regions s) (unat (pe_size_of_image pe))"
    using from_validated_pe_shape(1) [OF assms(1)] by (rule tiled_spaced)
  obtain g b where g: "region_at a s = Some g" "rg_file_backing g = Some b" "region_first g \<le> unat a"
    "unat a - region_first g < unat (fb_size b)" "off = fb_offset b + (a - ar_start (rg_range g))"
    using file_offset_within [OF sp assms(2)] by blast
  have mem: "g \<in> set (sp_regions s)"
    using g(1) region_at_exact [OF sp] by blast
  have delta: "unat (a - ar_start (rg_range g)) = unat a - region_first g"
    using g(3) by (simp add: region_first_def unat_sub word_le_nat_alt)
  have "declared g"
    using from_validated_pe_shape(3) [OF assms(1)] mem g(2) by (auto simp: list_all_iff gap_inert_def)
  from declared_region [OF assms(1) mem this] show ?thesis
  proof (elim disjE exE conjE)
    assume h: "g = header_region pe"
    then show ?thesis
      using g(2-5) by (simp add: header_region_def region_first_def unat_widen) (metis file_backing.select_convs unat_widen)
  next
    fix i x
    assume x: "(i, x) \<in> set (enumerate 0 (pe_sections pe))"
      and gx: "g = section_region (unat (pe_section_alignment pe)) (i, x)"
    note b = section_backing [OF g(2) [unfolded gx]]
    have first: "region_first g = unat (ps_virtual_address x)"
      by (simp add: gx section_region_def region_first_def unat_widen)
    have "unat off = unat (fb_offset b) + (unat a - region_first g)"
      using offset_sum [of "fb_offset b" "a - ar_start (rg_range g)"] g(4,5) delta b
        unat_bound [of "ps_raw_data_offset x"] unat_bound [of "ps_raw_data_size x"] by simp
    moreover have "x \<in> set (pe_sections pe)"
      using x by (auto simp: in_set_enumerate_eq)
    moreover have "unat a - region_first g < unat (section_loaded_size x)" "unat a - region_first g < unat (ps_raw_data_size x)"
      using g(4) b(2,3) by linarith+
    ultimately show ?thesis
      using g(3) b(1) unfolding first by auto
  qed
qed

theorem pe_file_offset_in_raw_data_witness:
  "\<exists>x \<in> set (pe_sections sample_pe). ps_virtual_address x = 0x1000 \<and> file_offset_at 0x1010 sample_pe_space = Some 0x410
    \<and> unat (0x410 :: u64) < unat (ps_raw_data_offset x) + unat (ps_raw_data_size x)"
proof -
  have off: "file_offset_at 0x1010 sample_pe_space = Some 0x410"
    by code_simp
  show ?thesis
    using off pe_file_offset_in_raw_data [OF sample_pe_accepted off] by (auto simp: sample_pe_def)
qed

section \<open>The ELF segments\<close>

text \<open>
  C21. When \<open>from_elf\<close> accepts an image, its regions are exactly the load segments in table order, relative
  to the image base and never below it; they are in address order, disjoint and inside the image.  \<open>region_at\<close>
  returns the region that contains the address, so the space between segments has none, and a file offset is
  always below the size of the binary.
\<close>

theorem elf_segments_exact:
  assumes "from_validated_elf elf = Inr s"
  shows "sp_regions s = map (segment_region (ea_image_base elf)) (ea_load_segments elf)
    \<and> (\<forall>x \<in> set (ea_load_segments elf). ea_image_base elf \<le> es_virtual_address x)
    \<and> spaced 0 (sp_regions s) (unat (ea_image_size elf))
    \<and> (\<forall>a g. region_at a s = Some g \<longleftrightarrow> g \<in> set (sp_regions s) \<and> range_contains (rg_range g) a)
    \<and> (\<forall>a off. file_offset_at a s = Some off \<longrightarrow> off < ea_binary_size elf)"
proof -
  note shape = from_validated_elf_shape [OF assms]
  have "off < ea_binary_size elf" if off: "file_offset_at a s = Some off" for a off
  proof -
    obtain g b where g: "region_at a s = Some g" "rg_file_backing g = Some b" "region_first g \<le> unat a"
      "unat a - region_first g < unat (fb_size b)" "off = fb_offset b + (a - ar_start (rg_range g))"
      using file_offset_within [OF shape(2) off] by blast
    have delta: "unat (a - ar_start (rg_range g)) = unat a - region_first g"
      using g(3) by (simp add: region_first_def unat_sub word_le_nat_alt)
    have "backed_within (ea_binary_size elf) g"
      using shape(4) g(1) region_at_exact [OF shape(2)] by blast
    then have le: "unat (fb_offset b) + unat (fb_size b) \<le> unat (ea_binary_size elf)"
      by (simp add: backed_within_def g(2))
    then have "unat off = unat (fb_offset b) + (unat a - region_first g)"
      using g(4,5) delta unat_bound [of "ea_binary_size elf"] by (simp add: unat_word_ariths)
    then show ?thesis
      using g(4) le by (simp add: word_less_nat_alt)
  qed
  then show ?thesis
    using shape region_at_exact [OF shape(2)] by blast
qed

theorem elf_segments_exact_witness:
  "length (sp_regions sample_elf_space) = 2 \<and> file_offset_at 0x8010 sample_elf_space = Some 0x810
    \<and> (0x810 :: u64) < 0x900 \<and> file_offset_at 0x8100 sample_elf_space = None \<and> region_at 0x1000 sample_elf_space = None"
proof -
  have "file_offset_at 0x8010 sample_elf_space = Some 0x810" "file_offset_at 0x8100 sample_elf_space = None"
    "region_at 0x1000 sample_elf_space = None"
    by code_simp+
  moreover have "length (ea_load_segments sample_elf) = 2" "ea_binary_size sample_elf = 0x900"
    by (simp_all add: sample_elf_def)
  ultimately show ?thesis
    using elf_segments_exact [OF sample_elf_accepted] by (metis length_map)
qed

section \<open>Preferred addresses\<close>

text \<open>
  C28. In every address space the two constructors build, the conversions between image-relative and preferred
  virtual addresses are inverse: each undoes the other wherever it answers, and every address of the image, and no
  other, has a preferred virtual address.  The addition never overflows.
\<close>

theorem preferred_address_round_trip:
  assumes "from_validated_pe pe = Inr s \<or> from_validated_elf elf = Inr s"
  shows "(preferred_virtual_address a s = Some va \<longleftrightarrow> relative_address va s = Some a)
    \<and> (preferred_virtual_address a s = (if a < sp_image_size s then Some (sp_preferred_image_base s + a) else None))"
proof -
  have fits: "unat (sp_preferred_image_base s) + unat (sp_image_size s) < 2 ^ 64"
    using assms from_validated_pe_frame(3) from_validated_elf_shape(7) by blast
  show ?thesis
    using address_inverse [OF fits, of a] by (auto simp: preferred_virtual_address_def checked_add_def)
qed

theorem preferred_address_round_trip_witness:
  "preferred_virtual_address 0x1010 sample_pe_space = Some 0x140001010
    \<and> relative_address 0x140001010 sample_pe_space = Some 0x1010"
proof -
  have "relative_address 0x140001010 sample_pe_space = Some 0x1010"
    by code_simp
  then show ?thesis
    using preferred_address_round_trip [of sample_pe sample_pe_space sample_elf "0x1010" "0x140001010"]
      sample_pe_accepted by blast
qed

end
