(* ===== verification/Msf_Container.thy ===== *)
theory Msf_Container
  imports Prelude
begin

text \<open>
  The writer of the multi-stream container of PDB files (\<open>resymbol-export/src/pdb/msf.rs\<close>): the block
  allocator, the layout plan, the superblock, the free page maps, the stream directory and its block map.
  Sizes and block numbers are natural numbers with the checks of their machine widths written out (a
  \<open>usize\<close> has 64 bits, so its conversions from \<open>u32\<close> and to \<open>u64\<close> succeed); contents are bytes.
  Reserving memory succeeds.  A slice index out of range is the error \<open>MsPanic\<close>.
\<close>

unbundle bit_operations_syntax

section \<open>Constants and errors\<close>

definition BLOCK_SIZE :: nat where "BLOCK_SIZE = 4096"
definition MAX_BLOCKS :: nat where "MAX_BLOCKS = BLOCK_SIZE * 8"
definition MAX_STREAMS :: nat where "MAX_STREAMS = 65535"
definition MAX_DIRECTORY_BLOCKS :: nat where "MAX_DIRECTORY_BLOCKS = BLOCK_SIZE div 4"
definition NIL_STREAM_SIZE :: nat where "NIL_STREAM_SIZE = 2 ^ 32 - 1"
definition SUPER_BLOCK :: nat where "SUPER_BLOCK = 0"
definition ALTERNATE_FPM_BLOCK :: nat where "ALTERNATE_FPM_BLOCK = 1"
definition ACTIVE_FPM_BLOCK :: nat where "ACTIVE_FPM_BLOCK = 2"
definition DIRECTORY_BLOCK_MAP :: nat where "DIRECTORY_BLOCK_MAP = 3"
definition FIRST_ALLOCATABLE_BLOCK :: nat where "FIRST_ALLOCATABLE_BLOCK = 4"

definition MSF_700_MAGIC :: "u8 list" where
  "MSF_700_MAGIC = map (\<lambda>c. of_nat (of_char c)) ''Microsoft C/C++ MSF 7.00'' @ [13, 10, 26] @ [68, 83, 0, 0, 0]"

datatype (plugins only: code size) msf_error =
    MsTooManyStreams nat nat
  | MsInvalidStreamZero
  | MsStreamTooLarge nat nat nat
  | MsStreamUsesNilSize nat
  | MsDirectoryTooLarge nat nat
  | MsFileTooLarge nat nat
  | MsIntegerOverflow string
  | MsAllocationFailed string
  | MsInvalidLayout string
  | MsPanic

record planned_stream =
  pl_size :: nat
  pl_blocks :: "nat list"

record msf_layout =
  ml_streams :: "planned_stream list"
  ml_directory_size :: nat
  ml_directory_blocks :: "nat list"
  ml_num_blocks :: nat

section \<open>Machine arithmetic\<close>

definition add_u32 :: "nat \<Rightarrow> nat \<Rightarrow> nat option" where
  "add_u32 a b = (if a + b < 2 ^ 32 then Some (a + b) else None)"

definition add_u64 :: "nat \<Rightarrow> nat \<Rightarrow> nat option" where
  "add_u64 a b = (if a + b < 2 ^ 64 then Some (a + b) else None)"

definition mul_u64 :: "nat \<Rightarrow> nat \<Rightarrow> nat option" where
  "mul_u64 a b = (if a * b < 2 ^ 64 then Some (a * b) else None)"

definition div_ceil :: "nat \<Rightarrow> nat \<Rightarrow> nat" where
  "div_ceil a b = (let q = a div b in if a mod b = 0 then q else q + 1)"

definition to_le_bytes :: "nat \<Rightarrow> u8 list" where
  "to_le_bytes v = [of_nat v, of_nat (v div 2 ^ 8), of_nat (v div 2 ^ 16), of_nat (v div 2 ^ 24)]"

section \<open>The block allocator\<close>

definition is_fpm_block :: "nat \<Rightarrow> bool" where
  "is_fpm_block block \<longleftrightarrow> (let phase = block mod BLOCK_SIZE in phase = ALTERNATE_FPM_BLOCK \<or> phase = ACTIVE_FPM_BLOCK)"

text \<open>The allocator is the number of its next block.\<close>

type_synonym block_allocator = nat

definition block_allocator_new :: block_allocator where
  "block_allocator_new = FIRST_ALLOCATABLE_BLOCK"

text \<open>The inner loop of \<open>allocate\<close>, which steps over the blocks of the free page maps.\<close>

function skip_fpm :: "nat \<Rightarrow> msf_error + nat" where
  "skip_fpm n = (if is_fpm_block n then
     (if n + 1 < 2 ^ 32 then skip_fpm (n + 1) else Inl (MsIntegerOverflow ''MSF reserved FPM block''))
   else Inr n)"
  by pat_completeness auto
termination
  by (relation "measure (\<lambda>n. 2 ^ 32 - n)") auto

declare skip_fpm.simps [simp del]

primrec allocate_loop :: "nat \<Rightarrow> nat list \<Rightarrow> nat \<Rightarrow> msf_error + nat list \<times> nat" where
  "allocate_loop 0 blocks n = Inr (blocks, n)"
| "allocate_loop (Suc count) blocks n =
     rbind (skip_fpm n) (\<lambda>n.
     rbind (guard (\<not> MAX_BLOCKS \<le> n) (MsFileTooLarge (n + 1) MAX_BLOCKS)) (\<lambda>_.
     rbind (ok_or (add_u32 n 1) (MsIntegerOverflow ''MSF block allocation'')) (\<lambda>n'.
     allocate_loop count (blocks @ [n]) n')))"

definition allocate :: "nat \<Rightarrow> block_allocator \<Rightarrow> msf_error + nat list \<times> block_allocator" where
  "allocate count n = allocate_loop count [] n"

section \<open>The layout plan\<close>

definition stream_shape :: "nat \<Rightarrow> nat option \<Rightarrow> msf_error + nat \<times> nat" where
  "stream_shape stream sz = (case sz of
     None \<Rightarrow> Inr (NIL_STREAM_SIZE, 0)
   | Some bytes \<Rightarrow>
       rbind (guard (\<not> 2 ^ 32 - 1 < bytes) (MsStreamTooLarge stream bytes (2 ^ 32 - 1 - 1))) (\<lambda>_.
       rbind (guard (bytes \<noteq> NIL_STREAM_SIZE) (MsStreamUsesNilSize stream)) (\<lambda>_.
       (let blocks = div_ceil bytes BLOCK_SIZE in
       rbind (guard (blocks < 2 ^ 32) (MsIntegerOverflow ''MSF stream block count'')) (\<lambda>_.
       Inr (bytes mod 2 ^ 32, blocks))))))"

primrec stream_shapes ::
    "(nat \<times> nat option) list \<Rightarrow> nat \<Rightarrow> (nat \<times> nat) list \<Rightarrow> msf_error + (nat \<times> nat) list \<times> nat" where
  "stream_shapes [] blocks shapes = Inr (shapes, blocks)"
| "stream_shapes (x # xs) blocks shapes =
     rbind (stream_shape (fst x) (snd x)) (\<lambda>(encoded_size, block_count).
     rbind (ok_or (add_u64 blocks block_count) (MsIntegerOverflow ''MSF aggregate stream blocks'')) (\<lambda>blocks'.
     stream_shapes xs blocks' (shapes @ [(encoded_size, block_count)])))"

primrec plan_streams ::
    "(nat \<times> nat) list \<Rightarrow> planned_stream list \<Rightarrow> nat \<Rightarrow> msf_error + planned_stream list \<times> nat" where
  "plan_streams [] planned n = Inr (planned, n)"
| "plan_streams (x # xs) planned n =
     rbind (allocate (snd x) n) (\<lambda>(blocks, n').
     plan_streams xs (planned @ [\<lparr>pl_size = fst x, pl_blocks = blocks\<rparr>]) n')"

definition plan_layout :: "nat option list \<Rightarrow> msf_error + msf_layout" where
  "plan_layout sizes =
     rbind (guard (\<not> MAX_STREAMS < length sizes) (MsTooManyStreams (length sizes) MAX_STREAMS)) (\<lambda>_.
     rbind (stream_shapes (enumerate 0 sizes) 0 []) (\<lambda>(shapes, total_stream_blocks).
     rbind (ok_or (mul_u64 (length sizes) 4) (MsIntegerOverflow ''MSF stream-size table'')) (\<lambda>table.
     rbind (ok_or (case add_u64 4 table of
         None \<Rightarrow> None
       | Some sz \<Rightarrow> (case mul_u64 total_stream_blocks 4 of None \<Rightarrow> None | Some t \<Rightarrow> add_u64 sz t))
       (MsIntegerOverflow ''MSF stream directory size'')) (\<lambda>directory_size.
     rbind (guard (directory_size < 2 ^ 32) (MsIntegerOverflow ''MSF stream directory u32 size'')) (\<lambda>_.
     (let directory_block_count = div_ceil directory_size BLOCK_SIZE in
     rbind (guard (\<not> MAX_DIRECTORY_BLOCKS < directory_block_count)
       (MsDirectoryTooLarge directory_block_count MAX_DIRECTORY_BLOCKS)) (\<lambda>_.
     rbind (guard (directory_block_count < 2 ^ 32) (MsIntegerOverflow ''MSF directory block count'')) (\<lambda>_.
     rbind (ok_or (case add_u64 FIRST_ALLOCATABLE_BLOCK total_stream_blocks of
         None \<Rightarrow> None | Some blocks \<Rightarrow> add_u64 blocks directory_block_count)
       (MsIntegerOverflow ''MSF minimum file block count'')) (\<lambda>minimum_blocks.
     rbind (guard (\<not> MAX_BLOCKS < minimum_blocks) (MsFileTooLarge minimum_blocks MAX_BLOCKS)) (\<lambda>_.
     rbind (plan_streams shapes [] block_allocator_new) (\<lambda>(planned_streams, n).
     rbind (allocate directory_block_count n) (\<lambda>(directory_blocks, n').
     rbind (guard (\<not> (n' = 0 \<or> MAX_BLOCKS < n')) (MsFileTooLarge n' MAX_BLOCKS)) (\<lambda>_.
     Inr \<lparr>ml_streams = planned_streams, ml_directory_size = directory_size,
          ml_directory_blocks = directory_blocks, ml_num_blocks = n'\<rparr>)))))))))))))"

section \<open>Writing blocks\<close>

text \<open>\<open>block_mut\<close> lends one block to its caller; here the caller is a function on the block.\<close>

definition block_mut :: "nat \<Rightarrow> (u8 list \<Rightarrow> msf_error + u8 list) \<Rightarrow> u8 list \<Rightarrow> msf_error + u8 list" where
  "block_mut block f output =
     rbind (ok_or (mul_u64 block BLOCK_SIZE) (MsIntegerOverflow ''MSF block byte offset'')) (\<lambda>start.
     rbind (ok_or (add_u64 start BLOCK_SIZE) (MsIntegerOverflow ''MSF block byte range'')) (\<lambda>limit.
     rbind (guard (limit \<le> length output) (MsInvalidLayout ''block falls outside the output buffer'')) (\<lambda>_.
     rbind (f (take BLOCK_SIZE (drop start output))) (\<lambda>slice.
     Inr (take start output @ slice @ drop limit output)))))"

definition copy_prefix :: "u8 list \<Rightarrow> u8 list \<Rightarrow> msf_error + u8 list" where
  "copy_prefix source destination =
     (if length source \<le> length destination then Inr (source @ drop (length source) destination) else Inl MsPanic)"

definition copy_from_slice :: "u8 list \<Rightarrow> u8 list \<Rightarrow> msf_error + u8 list" where
  "copy_from_slice source destination = (if length source = length destination then Inr source else Inl MsPanic)"

definition put_u32 :: "nat \<Rightarrow> nat \<Rightarrow> u8 list \<Rightarrow> msf_error + u8 list" where
  "put_u32 offset v output =
     rbind (ok_or (add_u64 offset 4) (MsIntegerOverflow ''MSF u32 byte range'')) (\<lambda>limit.
     rbind (guard (limit \<le> length output) (MsInvalidLayout ''u32 field falls outside its destination'')) (\<lambda>_.
     Inr (take offset output @ to_le_bytes v @ drop limit output)))"

definition push_u32 :: "u8 list \<Rightarrow> nat \<Rightarrow> u8 list" where
  "push_u32 output v = output @ to_le_bytes v"

definition write_superblock :: "msf_layout \<Rightarrow> u8 list \<Rightarrow> msf_error + u8 list" where
  "write_superblock layout = block_mut SUPER_BLOCK (\<lambda>superblock.
     rbind (copy_prefix MSF_700_MAGIC superblock) (\<lambda>superblock.
     rbind (put_u32 32 BLOCK_SIZE superblock) (\<lambda>superblock.
     rbind (put_u32 36 ACTIVE_FPM_BLOCK superblock) (\<lambda>superblock.
     rbind (put_u32 40 (ml_num_blocks layout) superblock) (\<lambda>superblock.
     rbind (put_u32 44 (ml_directory_size layout) superblock) (\<lambda>superblock.
     rbind (put_u32 48 0 superblock) (\<lambda>superblock.
     put_u32 52 DIRECTORY_BLOCK_MAP superblock)))))))"

section \<open>The free page maps\<close>

primrec clear_bits :: "nat \<Rightarrow> u8 list \<Rightarrow> msf_error + u8 list" where
  "clear_bits 0 bitmap = Inr bitmap"
| "clear_bits (Suc block) bitmap =
     rbind (clear_bits block bitmap) (\<lambda>bitmap.
     (let byte = block div 8 in
      if byte < length bitmap then Inr (bitmap[byte := bitmap ! byte AND NOT (push_bit (block mod 8) 1)])
      else Inl MsPanic))"

primrec fill_phases :: "nat list \<Rightarrow> nat \<Rightarrow> nat \<Rightarrow> u8 list \<Rightarrow> msf_error + u8 list" where
  "fill_phases [] interval_start num_blocks output = Inr output"
| "fill_phases (phase # phases) interval_start num_blocks output =
     rbind (ok_or (add_u32 interval_start phase) (MsIntegerOverflow ''MSF trailing FPM block'')) (\<lambda>block.
     rbind (if block < num_blocks then block_mut block (\<lambda>s. Inr (replicate (length s) 0xff)) output else Inr output) (\<lambda>output.
     fill_phases phases interval_start num_blocks output))"

function fill_intervals :: "nat \<Rightarrow> nat \<Rightarrow> u8 list \<Rightarrow> msf_error + u8 list" where
  "fill_intervals interval_start num_blocks output =
     (if interval_start < num_blocks then
        rbind (fill_phases [ALTERNATE_FPM_BLOCK, ACTIVE_FPM_BLOCK] interval_start num_blocks output) (\<lambda>output.
        if interval_start + BLOCK_SIZE < 2 ^ 32 then fill_intervals (interval_start + BLOCK_SIZE) num_blocks output
        else Inl (MsIntegerOverflow ''MSF FPM interval''))
      else Inr output)"
  by pat_completeness auto
termination
  by (relation "measure (\<lambda>(start, num, _). num - start)") (auto simp: BLOCK_SIZE_def)

declare fill_intervals.simps [simp del]

definition write_free_page_maps :: "nat \<Rightarrow> u8 list \<Rightarrow> msf_error + u8 list" where
  "write_free_page_maps num_blocks output =
     rbind (guard (\<not> (num_blocks = 0 \<or> MAX_BLOCKS < num_blocks))
       (MsInvalidLayout ''FPM block count is outside the supported range'')) (\<lambda>_.
     rbind (clear_bits num_blocks (replicate BLOCK_SIZE 0xff)) (\<lambda>bitmap.
     rbind (block_mut ALTERNATE_FPM_BLOCK (copy_from_slice bitmap) output) (\<lambda>output.
     rbind (block_mut ACTIVE_FPM_BLOCK (copy_from_slice bitmap) output) (\<lambda>output.
     fill_intervals BLOCK_SIZE num_blocks output))))"

section \<open>The directory and the streams\<close>

definition serialize_directory :: "msf_layout \<Rightarrow> msf_error + u8 list" where
  "serialize_directory layout =
     rbind (guard (length (ml_streams layout) < 2 ^ 32) (MsIntegerOverflow ''MSF encoded stream count'')) (\<lambda>_.
     (let directory = push_u32 [] (length (ml_streams layout));
          directory = foldl (\<lambda>d s. push_u32 d (pl_size s)) directory (ml_streams layout);
          directory = foldl (\<lambda>d s. foldl push_u32 d (pl_blocks s)) directory (ml_streams layout) in
     rbind (guard (length directory = ml_directory_size layout)
       (MsInvalidLayout ''serialized directory length disagrees with its plan'')) (\<lambda>_.
     Inr directory)))"

primrec put_block_map :: "(nat \<times> nat) list \<Rightarrow> u8 list \<Rightarrow> msf_error + u8 list" where
  "put_block_map [] block_map = Inr block_map"
| "put_block_map (x # xs) block_map =
     rbind (ok_or (mul_u64 (fst x) 4) (MsIntegerOverflow ''MSF directory block-map offset'')) (\<lambda>offset.
     rbind (put_u32 offset (snd x) block_map) (\<lambda>block_map.
     put_block_map xs block_map))"

definition write_directory_block_map :: "nat list \<Rightarrow> u8 list \<Rightarrow> msf_error + u8 list" where
  "write_directory_block_map blocks output =
     rbind (guard (\<not> MAX_DIRECTORY_BLOCKS < length blocks) (MsInvalidLayout ''directory block map exceeds one block'')) (\<lambda>_.
     block_mut DIRECTORY_BLOCK_MAP (put_block_map (enumerate 0 blocks)) output)"

function chunks :: "nat \<Rightarrow> 'a list \<Rightarrow> 'a list list" where
  "chunks n xs = (if xs = [] \<or> n = 0 then [] else take n xs # chunks n (drop n xs))"
  by pat_completeness auto
termination
  by (relation "measure (\<lambda>(_, xs). length xs)") auto

declare chunks.simps [simp del]

primrec scatter :: "(nat \<times> u8 list) list \<Rightarrow> u8 list \<Rightarrow> msf_error + u8 list" where
  "scatter [] output = Inr output"
| "scatter (x # xs) output =
     rbind (block_mut (fst x) (copy_prefix (snd x)) output) (\<lambda>output.
     scatter xs output)"

definition write_scattered :: "nat list \<Rightarrow> u8 list \<Rightarrow> u8 list \<Rightarrow> msf_error + u8 list" where
  "write_scattered blocks data output =
     rbind (guard (div_ceil (length data) BLOCK_SIZE = length blocks)
       (MsInvalidLayout ''scatter block count does not match data length'')) (\<lambda>_.
     scatter (zip blocks (chunks BLOCK_SIZE data)) output)"

primrec write_streams :: "(u8 list option \<times> planned_stream) list \<Rightarrow> u8 list \<Rightarrow> msf_error + u8 list" where
  "write_streams [] output = Inr output"
| "write_streams (x # xs) output =
     rbind (case fst x of
         None \<Rightarrow> if pl_size (snd x) = NIL_STREAM_SIZE then Inr output
           else Inl (MsInvalidLayout ''planned stream no longer matches its input'')
       | Some bytes \<Rightarrow> if length bytes = pl_size (snd x) then write_scattered (pl_blocks (snd x)) bytes output
           else Inl (MsInvalidLayout ''planned stream no longer matches its input'')) (\<lambda>output.
     write_streams xs output)"

definition write_msf :: "u8 list option list \<Rightarrow> msf_error + u8 list" where
  "write_msf streams =
     rbind (guard (\<not> MAX_STREAMS < length streams) (MsTooManyStreams (length streams) MAX_STREAMS)) (\<lambda>_.
     rbind (guard (case streams of Some bytes # _ \<Rightarrow> bytes = [] | _ \<Rightarrow> False) MsInvalidStreamZero) (\<lambda>_.
     rbind (plan_layout (map (map_option length) streams)) (\<lambda>layout.
     rbind (ok_or (mul_u64 (ml_num_blocks layout) BLOCK_SIZE) (MsIntegerOverflow ''MSF output byte size'')) (\<lambda>file_size.
     rbind (write_superblock layout (replicate file_size 0)) (\<lambda>output.
     rbind (write_free_page_maps (ml_num_blocks layout) output) (\<lambda>output.
     rbind (write_streams (zip streams (ml_streams layout)) output) (\<lambda>output.
     rbind (serialize_directory layout) (\<lambda>directory.
     rbind (write_scattered (ml_directory_blocks layout) directory output) (\<lambda>output.
     write_directory_block_map (ml_directory_blocks layout) output)))))))))"

end
