(* ===== verification/Msf_Allocator.thy ===== *)
theory Msf_Allocator
  imports Msf_Container
begin

text \<open>
  The block allocator and the layout plan.  The allocator hands out, in order, the blocks below the
  limit that no free page map occupies; the plan gives every stream its blocks from that one list and
  the directory the blocks after them.
\<close>

section \<open>The free blocks\<close>

definition free_blocks :: "nat \<Rightarrow> nat list" where
  "free_blocks n = filter (\<lambda>b. \<not> is_fpm_block b) [n..<MAX_BLOCKS]"

lemma free_blocks_step:
  "free_blocks n = (if n < MAX_BLOCKS then if is_fpm_block n then free_blocks (n + 1) else n # free_blocks (n + 1) else [])"
  by (simp add: free_blocks_def upt_conv_Cons)

lemma free_blocks_distinct: "distinct (free_blocks n)"
  by (simp add: free_blocks_def)

lemma free_blocks_mem: "b \<in> set (free_blocks n) \<longleftrightarrow> n \<le> b \<and> b < MAX_BLOCKS \<and> \<not> is_fpm_block b"
  by (auto simp: free_blocks_def)

lemma max_blocks [simp]: "MAX_BLOCKS = 32768"
  by (simp add: MAX_BLOCKS_def BLOCK_SIZE_def)

lemma fpm_run: "is_fpm_block n \<Longrightarrow> is_fpm_block (Suc n) \<Longrightarrow> \<not> is_fpm_block (Suc (Suc n))"
  by (auto simp: is_fpm_block_def BLOCK_SIZE_def ALTERNATE_FPM_BLOCK_def ACTIVE_FPM_BLOCK_def mod_Suc split: if_splits)

text \<open>The inner loop steps over at most the two blocks of one pair of maps.\<close>

lemma skip_fpm_pair:
  assumes "n + 2 < 2 ^ 32"
  shows "skip_fpm n = Inr (if \<not> is_fpm_block n then n else if \<not> is_fpm_block (n + 1) then n + 1 else n + 2)"
proof -
  have b: "n + 1 < 2 ^ 32" "n + 1 + 1 < 2 ^ 32"
    using assms by simp_all
  have two: "skip_fpm (n + 1) = (if is_fpm_block (n + 1) then skip_fpm (n + 1 + 1) else Inr (n + 1))"
    using b(2) by (subst skip_fpm.simps) simp
  have three: "skip_fpm (n + 1 + 1) = Inr (n + 1 + 1)" if "is_fpm_block n" "is_fpm_block (n + 1)"
    using fpm_run [of n] that by (subst skip_fpm.simps) simp
  show ?thesis
    using b two three by (subst skip_fpm.simps) auto
qed

lemma skip_fpm_free:
  assumes "n \<le> MAX_BLOCKS"
  shows "\<exists>m. skip_fpm n = Inr m \<and> n \<le> m \<and> m \<le> n + 2
    \<and> free_blocks n = (if m < MAX_BLOCKS then m # free_blocks (m + 1) else [])"
proof -
  have "n + 2 < 2 ^ 32"
    using assms by simp
  then show ?thesis
    using free_blocks_step [of n] free_blocks_step [of "n + 1"] free_blocks_step [of "n + 2"] fpm_run [of n]
    by (auto simp: skip_fpm_pair)
qed

section \<open>Allocation\<close>

primrec after_blocks :: "nat \<Rightarrow> nat \<Rightarrow> nat" where
  "after_blocks 0 n = n"
| "after_blocks (Suc k) n = (case free_blocks n of [] \<Rightarrow> n | b # _ \<Rightarrow> after_blocks k (b + 1))"

lemma allocate_loop_exact:
  assumes "n \<le> MAX_BLOCKS"
  shows "if k \<le> length (free_blocks n)
    then allocate_loop k acc n = Inr (acc @ take k (free_blocks n), after_blocks k n)
      \<and> free_blocks (after_blocks k n) = drop k (free_blocks n)
      \<and> n \<le> after_blocks k n \<and> after_blocks k n \<le> MAX_BLOCKS
      \<and> (\<forall>b \<in> set (take k (free_blocks n)). b < after_blocks k n)
    else \<exists>m. MAX_BLOCKS < m \<and> allocate_loop k acc n = Inl (MsFileTooLarge m MAX_BLOCKS)"
  using assms
proof (induction k arbitrary: n acc)
  case (Suc k)
  obtain m where m: "skip_fpm n = Inr m" "n \<le> m" "m \<le> n + 2"
    "free_blocks n = (if m < MAX_BLOCKS then m # free_blocks (m + 1) else [])"
    using skip_fpm_free [OF Suc.prems] by blast
  show ?case
  proof (cases "m < MAX_BLOCKS")
    case True
    then have "add_u32 m 1 = Some (m + 1)"
      by (simp add: add_u32_def)
    then have step: "allocate_loop (Suc k) acc n = allocate_loop k (acc @ [m]) (m + 1)"
      using m True by simp
    have "m + 1 \<le> MAX_BLOCKS"
      using True by simp
    from Suc.IH [OF this, of "acc @ [m]"] show ?thesis
      unfolding step using m True by (auto split: if_splits)
  next
    case False
    then show ?thesis
      using m by auto
  qed
qed simp

lemma allocate_exact:
  assumes "n \<le> MAX_BLOCKS"
  shows "k \<le> length (free_blocks n) \<Longrightarrow> allocate k n = Inr (take k (free_blocks n), after_blocks k n)"
    "k \<le> length (free_blocks n) \<Longrightarrow> free_blocks (after_blocks k n) = drop k (free_blocks n)
      \<and> n \<le> after_blocks k n \<and> after_blocks k n \<le> MAX_BLOCKS \<and> (\<forall>b \<in> set (take k (free_blocks n)). b < after_blocks k n)"
    "\<not> k \<le> length (free_blocks n) \<Longrightarrow> \<exists>m. allocate k n = Inl (MsFileTooLarge m MAX_BLOCKS)"
  using allocate_loop_exact [OF assms, of k "[]"] by (auto simp: allocate_def)

lemma free_length_le: "length (free_blocks n) \<le> MAX_BLOCKS - n"
  unfolding free_blocks_def by (rule order.trans [OF length_filter_le]) simp

section \<open>The plan\<close>

lemma plan_streams_exact:
  assumes "n \<le> MAX_BLOCKS"
  defines "blocks xs \<equiv> sum_list (map snd xs)"
  shows "if blocks xs \<le> length (free_blocks n)
    then \<exists>ps n'. plan_streams xs acc n = Inr (acc @ ps, n') \<and> map pl_size ps = map fst xs
      \<and> map (\<lambda>p. length (pl_blocks p)) ps = map snd xs
      \<and> concat (map pl_blocks ps) = take (blocks xs) (free_blocks n)
      \<and> free_blocks n' = drop (blocks xs) (free_blocks n) \<and> n \<le> n' \<and> n' \<le> MAX_BLOCKS
      \<and> (\<forall>b \<in> set (take (blocks xs) (free_blocks n)). b < n')
    else \<exists>m. plan_streams xs acc n = Inl (MsFileTooLarge m MAX_BLOCKS)"
  using assms(1)
proof (induction xs arbitrary: n acc)
  case Nil
  then show ?case by (simp add: blocks_def)
next
  case (Cons x xs)
  have sum: "blocks (x # xs) = snd x + blocks xs"
    by (simp add: blocks_def)
  show ?case
  proof (cases "snd x \<le> length (free_blocks n)")
    case True
    let ?n = "after_blocks (snd x) n" and ?p = "\<lparr>pl_size = fst x, pl_blocks = take (snd x) (free_blocks n)\<rparr>"
    note alloc = allocate_exact(1,2) [OF Cons.prems True]
    have step: "plan_streams (x # xs) acc n = plan_streams xs (acc @ [?p]) ?n"
      by (simp add: alloc(1))
    have len: "length (free_blocks ?n) = length (free_blocks n) - snd x"
      using alloc(2) by simp
    have n: "?n \<le> MAX_BLOCKS" "n \<le> ?n"
      using alloc(2) by simp_all
    note IH = Cons.IH [OF n(1), of "acc @ [?p]"]
    show ?thesis
    proof (cases "blocks xs \<le> length (free_blocks ?n)")
      case fits: True
      obtain ps n' where ps: "plan_streams xs (acc @ [?p]) ?n = Inr ((acc @ [?p]) @ ps, n')" "map pl_size ps = map fst xs"
        "map (\<lambda>p. length (pl_blocks p)) ps = map snd xs" "concat (map pl_blocks ps) = take (blocks xs) (free_blocks ?n)"
        "free_blocks n' = drop (blocks xs) (free_blocks ?n)" "?n \<le> n'" "n' \<le> MAX_BLOCKS"
        "\<forall>b \<in> set (take (blocks xs) (free_blocks ?n)). b < n'"
        using IH fits by (auto split: if_splits)
      have split: "take (blocks (x # xs)) (free_blocks n) = take (snd x) (free_blocks n) @ take (blocks xs) (free_blocks ?n)"
        using alloc(2) by (simp add: sum take_add)
      have "concat (map pl_blocks (?p # ps)) = take (blocks (x # xs)) (free_blocks n)"
        unfolding split by (simp add: ps(4))
      moreover have "free_blocks n' = drop (blocks (x # xs)) (free_blocks n)"
        using ps(5) alloc(2) by (simp add: sum add.commute)
      moreover have "\<forall>b \<in> set (take (blocks (x # xs)) (free_blocks n)). b < n'"
        unfolding split using ps(6,8) alloc(2) by (auto intro: order.strict_trans2)
      moreover have "map pl_size (?p # ps) = map fst (x # xs)" "map (\<lambda>p. length (pl_blocks p)) (?p # ps) = map snd (x # xs)"
        using ps(2,3) True by simp_all
      moreover have "blocks (x # xs) \<le> length (free_blocks n)"
        using fits len True by (simp add: sum)
      ultimately show ?thesis
        using step ps(1,7) order.trans [OF n(2) ps(6)] by (simp only: if_True append.assoc append_Cons append_Nil) blast
    next
      case False
      then show ?thesis
        using IH step len by (auto simp: sum)
    qed
  next
    case False
    then show ?thesis
      using allocate_exact(3) [OF Cons.prems False] by (auto simp: sum)
  qed
qed

section \<open>Stream sizes\<close>

lemma div_ceil_block: "div_ceil a BLOCK_SIZE = (a + 4095) div 4096"
proof -
  define q r where "q = a div 4096" and "r = a mod 4096"
  then have a: "a = 4096 * q + r" and r: "r < 4096"
    by simp_all
  have "(a + 4095) div 4096 = (4096 * q + (r + 4095)) div 4096"
    by (simp add: a)
  also have "\<dots> = q + (r + 4095) div 4096"
    by simp
  also have "(r + 4095) div 4096 = (if r = 0 then 0 else 1)"
    using r by (cases r) simp_all
  finally show ?thesis
    by (simp add: div_ceil_def BLOCK_SIZE_def Let_def flip: q_def r_def)
qed

definition shape_of :: "nat option \<Rightarrow> nat \<times> nat" where
  "shape_of sz = (case sz of None \<Rightarrow> (NIL_STREAM_SIZE, 0) | Some bytes \<Rightarrow> (bytes, div_ceil bytes BLOCK_SIZE))"

definition encodable :: "nat option \<Rightarrow> bool" where
  "encodable sz \<longleftrightarrow> (case sz of None \<Rightarrow> True | Some bytes \<Rightarrow> bytes < NIL_STREAM_SIZE)"

text \<open>The errors that say what is wrong with the input.\<close>

definition input_error :: "msf_error \<Rightarrow> bool" where
  "input_error e \<longleftrightarrow> (case e of
     MsTooManyStreams _ _ \<Rightarrow> True
   | MsInvalidStreamZero \<Rightarrow> True
   | MsStreamTooLarge _ _ _ \<Rightarrow> True
   | MsStreamUsesNilSize _ \<Rightarrow> True
   | MsDirectoryTooLarge _ _ \<Rightarrow> True
   | MsFileTooLarge _ _ \<Rightarrow> True
   | MsIntegerOverflow context \<Rightarrow> context = ''MSF stream directory u32 size''
   | _ \<Rightarrow> False)"

lemma stream_shape_exact:
  "encodable sz \<Longrightarrow> stream_shape i sz = Inr (shape_of sz)" "\<not> encodable sz \<Longrightarrow> \<exists>e. stream_shape i sz = Inl e \<and> input_error e"
  by (auto simp: stream_shape_def shape_of_def encodable_def NIL_STREAM_SIZE_def div_ceil_block guard_def Let_def input_error_def
      split: option.splits)

definition stream_blocks :: "nat option list \<Rightarrow> nat" where
  "stream_blocks sizes = sum_list (map (\<lambda>sz. snd (shape_of sz)) sizes)"

lemma shape_blocks_le: "encodable sz \<Longrightarrow> snd (shape_of sz) \<le> 2 ^ 20"
  by (auto simp: encodable_def shape_of_def NIL_STREAM_SIZE_def div_ceil_block split: option.splits)

lemma stream_blocks_le: "list_all encodable sizes \<Longrightarrow> stream_blocks sizes \<le> length sizes * 2 ^ 20"
  by (induction sizes) (auto simp: stream_blocks_def dest!: shape_blocks_le)

lemma stream_shapes_ok:
  assumes "list_all encodable sizes" "b + stream_blocks sizes < 2 ^ 64"
  shows "stream_shapes (enumerate k sizes) b acc = Inr (acc @ map shape_of sizes, b + stream_blocks sizes)"
  using assms
proof (induction sizes arbitrary: k b acc)
  case (Cons x xs)
  have sum: "stream_blocks (x # xs) = snd (shape_of x) + stream_blocks xs"
    by (simp add: stream_blocks_def)
  have "add_u64 b (snd (shape_of x)) = Some (b + snd (shape_of x))"
    using Cons.prems(2) by (simp add: add_u64_def sum)
  then show ?case
    using Cons.prems Cons.IH [of "b + snd (shape_of x)" "Suc k" "acc @ [shape_of x]"] stream_shape_exact(1) [of x k]
    by (cases "shape_of x") (simp add: sum add.assoc)
qed (simp add: stream_blocks_def)

lemma stream_shapes_bad:
  assumes "\<not> list_all encodable sizes" "b + length sizes * 2 ^ 20 < 2 ^ 64"
  shows "\<exists>e. stream_shapes (enumerate k sizes) b acc = Inl e \<and> input_error e"
  using assms
proof (induction sizes arbitrary: k b acc)
  case (Cons x xs)
  show ?case
  proof (cases "encodable x")
    case True
    then have bad: "\<not> list_all encodable xs"
      using Cons.prems by simp
    have room: "b + snd (shape_of x) + length xs * 2 ^ 20 < 2 ^ 64"
      using Cons.prems(2) shape_blocks_le [OF True] by simp
    then have "add_u64 b (snd (shape_of x)) = Some (b + snd (shape_of x))"
      by (simp add: add_u64_def)
    with Cons.IH [OF bad room] show ?thesis
      using stream_shape_exact(1) [OF True, of k] by (cases "shape_of x") simp
  next
    case False
    then show ?thesis
      using stream_shape_exact(2) [OF False, of k] by auto
  qed
qed simp

section \<open>The layout\<close>

definition directory_bytes :: "nat option list \<Rightarrow> nat" where
  "directory_bytes sizes = 4 + length sizes * 4 + stream_blocks sizes * 4"

definition directory_count :: "nat option list \<Rightarrow> nat" where
  "directory_count sizes = div_ceil (directory_bytes sizes) BLOCK_SIZE"

text \<open>What the container can hold.\<close>

definition fits :: "nat option list \<Rightarrow> bool" where
  "fits sizes \<longleftrightarrow> length sizes \<le> MAX_STREAMS \<and> list_all encodable sizes
     \<and> directory_count sizes \<le> MAX_DIRECTORY_BLOCKS
     \<and> stream_blocks sizes + directory_count sizes \<le> length (free_blocks FIRST_ALLOCATABLE_BLOCK)"

text \<open>A layout whose blocks are the first free ones, streams in order and then the directory.\<close>

definition layout_of :: "nat option list \<Rightarrow> msf_layout \<Rightarrow> bool" where
  "layout_of sizes l \<longleftrightarrow>
     map pl_size (ml_streams l) = map (\<lambda>sz. fst (shape_of sz)) sizes
     \<and> map (\<lambda>p. length (pl_blocks p)) (ml_streams l) = map (\<lambda>sz. snd (shape_of sz)) sizes
     \<and> ml_directory_size l = directory_bytes sizes \<and> length (ml_directory_blocks l) = directory_count sizes
     \<and> concat (map pl_blocks (ml_streams l)) @ ml_directory_blocks l
       = take (stream_blocks sizes + directory_count sizes) (free_blocks FIRST_ALLOCATABLE_BLOCK)
     \<and> free_blocks (ml_num_blocks l) = drop (stream_blocks sizes + directory_count sizes) (free_blocks FIRST_ALLOCATABLE_BLOCK)
     \<and> (\<forall>b \<in> set (concat (map pl_blocks (ml_streams l)) @ ml_directory_blocks l). b < ml_num_blocks l)
     \<and> FIRST_ALLOCATABLE_BLOCK \<le> ml_num_blocks l \<and> ml_num_blocks l \<le> MAX_BLOCKS"

lemma first_block [simp]: "FIRST_ALLOCATABLE_BLOCK = 4"
  by (simp add: FIRST_ALLOCATABLE_BLOCK_def)

text \<open>With encodable sizes, none of the 64-bit computations overflows.\<close>

lemma plan_arithmetic:
  assumes "length sizes \<le> MAX_STREAMS" "list_all encodable sizes"
  shows "stream_blocks sizes < 2 ^ 36" "directory_bytes sizes < 2 ^ 39" "directory_count sizes < 2 ^ 28"
proof -
  have len: "length sizes \<le> 65535"
    using assms(1) by (simp add: MAX_STREAMS_def)
  have "stream_blocks sizes \<le> length sizes * 2 ^ 20"
    by (rule stream_blocks_le [OF assms(2)])
  also have "\<dots> \<le> 65535 * 2 ^ 20"
    using len by (rule mult_right_mono) simp
  finally show s: "stream_blocks sizes < 2 ^ 36"
    by simp
  then show d: "directory_bytes sizes < 2 ^ 39"
    using len by (simp add: directory_bytes_def)
  show "directory_count sizes < 2 ^ 28"
    using d by (simp add: directory_count_def div_ceil_block)
qed

lemma plan_layout_run:
  assumes "length sizes \<le> MAX_STREAMS" "list_all encodable sizes"
  shows "plan_layout sizes =
    rbind (guard (directory_bytes sizes < 2 ^ 32) (MsIntegerOverflow ''MSF stream directory u32 size'')) (\<lambda>_.
    rbind (guard (directory_count sizes \<le> MAX_DIRECTORY_BLOCKS)
      (MsDirectoryTooLarge (directory_count sizes) MAX_DIRECTORY_BLOCKS)) (\<lambda>_.
    rbind (guard (4 + stream_blocks sizes + directory_count sizes \<le> MAX_BLOCKS)
      (MsFileTooLarge (4 + stream_blocks sizes + directory_count sizes) MAX_BLOCKS)) (\<lambda>_.
    rbind (plan_streams (map shape_of sizes) [] 4) (\<lambda>(ps, n).
    rbind (allocate (directory_count sizes) n) (\<lambda>(bs, n').
    rbind (guard (\<not> (n' = 0 \<or> MAX_BLOCKS < n')) (MsFileTooLarge n' MAX_BLOCKS)) (\<lambda>_.
    Inr \<lparr>ml_streams = ps, ml_directory_size = directory_bytes sizes, ml_directory_blocks = bs, ml_num_blocks = n'\<rparr>))))))"
proof -
  note small = plan_arithmetic [OF assms]
  have shapes: "stream_shapes (enumerate 0 sizes) 0 [] = Inr (map shape_of sizes, stream_blocks sizes)"
    using stream_shapes_ok [OF assms(2), of 0 0 "[]"] small(1) by simp
  have len: "length sizes < 2 ^ 16"
    using assms(1) by (simp add: MAX_STREAMS_def)
  have sums: "mul_u64 (length sizes) 4 = Some (length sizes * 4)" "add_u64 4 (length sizes * 4) = Some (4 + length sizes * 4)"
    "mul_u64 (stream_blocks sizes) 4 = Some (stream_blocks sizes * 4)"
    "add_u64 (4 + length sizes * 4) (stream_blocks sizes * 4) = Some (directory_bytes sizes)"
    "add_u64 4 (stream_blocks sizes) = Some (4 + stream_blocks sizes)"
    "add_u64 (4 + stream_blocks sizes) (directory_count sizes) = Some (4 + stream_blocks sizes + directory_count sizes)"
    using small len by (simp_all add: mul_u64_def add_u64_def directory_bytes_def)
  have c: "div_ceil (directory_bytes sizes) BLOCK_SIZE = directory_count sizes" "directory_count sizes < 4294967296"
    using small(3) by (simp_all add: directory_count_def)
  show ?thesis
    unfolding plan_layout_def using assms(1)
    by (simp add: shapes sums c not_less block_allocator_new_def Let_def del: max_blocks)
qed

lemma plan_layout_ok:
  assumes "fits sizes"
  shows "\<exists>l. plan_layout sizes = Inr l \<and> layout_of sizes l"
proof -
  let ?t = "stream_blocks sizes" and ?d = "directory_count sizes" and ?f = "free_blocks 4"
  have fit: "length sizes \<le> MAX_STREAMS" "list_all encodable sizes" "?d \<le> MAX_DIRECTORY_BLOCKS" "?t + ?d \<le> length ?f"
    using assms by (simp_all add: fits_def)
  have d32: "directory_bytes sizes < 4294967296"
  proof -
    have "?d \<le> 1024"
      using fit(3) by (simp add: MAX_DIRECTORY_BLOCKS_def BLOCK_SIZE_def)
    then show ?thesis
      by (simp add: directory_count_def div_ceil_block)
  qed
  have max: "4 + ?t + ?d \<le> MAX_BLOCKS"
    using fit(4) free_length_le [of 4] by simp
  have sum: "sum_list (map snd (map shape_of sizes)) = ?t"
    by (simp add: stream_blocks_def comp_def)
  obtain ps n where ps: "plan_streams (map shape_of sizes) [] 4 = Inr (ps, n)" "map pl_size ps = map fst (map shape_of sizes)"
    "map (\<lambda>p. length (pl_blocks p)) ps = map snd (map shape_of sizes)" "concat (map pl_blocks ps) = take ?t ?f"
    "free_blocks n = drop ?t ?f" "4 \<le> n" "n \<le> MAX_BLOCKS" "\<forall>b \<in> set (take ?t ?f). b < n"
    using plan_streams_exact [of 4 "map shape_of sizes" "[]"] fit(4) unfolding sum by auto
  have "?d \<le> length (free_blocks n)"
    using fit(4) ps(5) by simp
  note al = allocate_exact(1,2) [OF ps(7) this]
  let ?l = "\<lparr>ml_streams = ps, ml_directory_size = directory_bytes sizes, ml_directory_blocks = take ?d (free_blocks n),
    ml_num_blocks = after_blocks ?d n\<rparr>"
  have split: "concat (map pl_blocks ps) @ take ?d (free_blocks n) = take (?t + ?d) ?f"
    by (simp add: ps(4,5) take_add)
  have "plan_layout sizes = Inr ?l"
    using fit d32 max al ps(1,6) by (simp add: plan_layout_run)
  moreover have "\<forall>b \<in> set (concat (map pl_blocks ps) @ take ?d (free_blocks n)). b < after_blocks ?d n"
    unfolding ps(4) using ps(8) al(2) by (auto intro: order.strict_trans2)
  then have "layout_of sizes ?l"
    unfolding layout_of_def using ps(2,3,6) al(2) split fit(4) ps(5)
    by (simp add: comp_def add.commute del: set_append)
  ultimately show ?thesis by blast
qed

lemma plan_layout_bad:
  assumes "\<not> fits sizes"
  shows "\<exists>e. plan_layout sizes = Inl e \<and> input_error e"
proof (cases "length sizes \<le> MAX_STREAMS \<and> list_all encodable sizes")
  case True
  let ?t = "stream_blocks sizes" and ?d = "directory_count sizes"
  have sum: "sum_list (map snd (map shape_of sizes)) = ?t"
    by (simp add: stream_blocks_def comp_def)
  have full: "?d \<le> MAX_DIRECTORY_BLOCKS \<Longrightarrow> length (free_blocks 4) < ?t + ?d"
    using assms True by (simp add: fits_def)
  show ?thesis
  proof (cases "directory_bytes sizes < 2 ^ 32 \<and> ?d \<le> MAX_DIRECTORY_BLOCKS \<and> 4 + ?t + ?d \<le> MAX_BLOCKS")
    case ok: True
    show ?thesis
    proof (cases "?t \<le> length (free_blocks 4)")
      case enough: True
      obtain ps n where ps: "plan_streams (map shape_of sizes) [] 4 = Inr (ps, n)" "free_blocks n = drop ?t (free_blocks 4)" "n \<le> MAX_BLOCKS"
        using plan_streams_exact [of 4 "map shape_of sizes" "[]"] enough unfolding sum by auto
      have "\<not> ?d \<le> length (free_blocks n)"
        using full ok enough ps(2) by simp
      from allocate_exact(3) [OF ps(3) this] show ?thesis
        using True ok ps(1) by (auto simp: plan_layout_run input_error_def)
    next
      case False
      then show ?thesis
        using plan_streams_exact [of 4 "map shape_of sizes" "[]"] True ok unfolding sum
        by (auto simp: plan_layout_run input_error_def)
    qed
  next
    case False
    then show ?thesis
      using True by (auto simp: plan_layout_run input_error_def guard_def)
  qed
next
  case False
  then show ?thesis
    using stream_shapes_bad [of sizes 0 0 "[]"]
    by (auto simp: plan_layout_def input_error_def guard_def MAX_STREAMS_def)
qed

text \<open>The plan succeeds exactly on what the container can hold.\<close>

lemma plan_layout_exact:
  "plan_layout sizes = Inr l \<Longrightarrow> fits sizes \<and> layout_of sizes l"
  using plan_layout_ok [of sizes] plan_layout_bad [of sizes] by fastforce

section \<open>Capacity\<close>

text \<open>Eight intervals of 4096 blocks, each without its pair of maps; the first also holds four fixed blocks.\<close>

lemma fpm_shift: "is_fpm_block (BLOCK_SIZE * k + i) = is_fpm_block i"
  by (simp add: is_fpm_block_def)

lemma fpm_first: "is_fpm_block i \<longleftrightarrow> i = 1 \<or> i = 2" if "i < BLOCK_SIZE" for i
  using that by (simp add: is_fpm_block_def ALTERNATE_FPM_BLOCK_def ACTIVE_FPM_BLOCK_def)

lemma free_prefix:
  assumes "3 + j \<le> BLOCK_SIZE"
  shows "length (filter (\<lambda>b. \<not> is_fpm_block b) [0..<3 + j]) = 1 + j"
proof -
  have "[0..<3 + j] = [0..<3] @ [3..<3 + j]"
    by (rule upt_add_eq_append) simp
  moreover have "filter (\<lambda>b. \<not> is_fpm_block b) [3..<3 + j] = [3..<3 + j]"
    using assms by (intro filter_True) (auto simp: fpm_first)
  moreover have "filter (\<lambda>b. \<not> is_fpm_block b) [0..<3] = [0]"
    using assms by (simp add: upt_rec fpm_first)
  ultimately show ?thesis
    by (simp del: upt_rec_numeral)
qed

lemma interval_free: "length (filter (\<lambda>b. \<not> is_fpm_block b) [0..<BLOCK_SIZE * k]) = 4094 * k"
proof (induction k)
  case (Suc k)
  have "[0..<BLOCK_SIZE * Suc k] = [0..<BLOCK_SIZE * k] @ [BLOCK_SIZE * k..<BLOCK_SIZE * k + BLOCK_SIZE]"
    using upt_add_eq_append [of 0 "BLOCK_SIZE * k" BLOCK_SIZE] by (simp add: add.commute)
  moreover have "[BLOCK_SIZE * k..<BLOCK_SIZE * k + BLOCK_SIZE] = map (\<lambda>i. i + BLOCK_SIZE * k) [0..<BLOCK_SIZE]"
    using map_add_upt [of "BLOCK_SIZE * k" BLOCK_SIZE] by (simp add: add.commute)
  moreover have size: "3 + 4093 = BLOCK_SIZE"
    by (simp add: BLOCK_SIZE_def)
  then have "length (filter (\<lambda>b. \<not> is_fpm_block b) [0..<BLOCK_SIZE]) = 4094"
    using free_prefix [of 4093] unfolding size by simp
  moreover have "filter (\<lambda>b. \<not> is_fpm_block b) (map (\<lambda>i. i + BLOCK_SIZE * k) [0..<BLOCK_SIZE])
      = map (\<lambda>i. i + BLOCK_SIZE * k) (filter (\<lambda>b. \<not> is_fpm_block b) [0..<BLOCK_SIZE])"
    using fpm_shift [of k] by (simp add: filter_map comp_def add.commute)
  ultimately show ?case
    using Suc.IH by simp
qed simp

lemma free_capacity: "length (free_blocks FIRST_ALLOCATABLE_BLOCK) = 32750"
proof -
  let ?free = "\<lambda>xs. length (filter (\<lambda>b. \<not> is_fpm_block b) xs)"
  have all: "4 + (MAX_BLOCKS - 4) = MAX_BLOCKS"
    by simp
  have "[0..<4 + (MAX_BLOCKS - 4)] = [0..<4] @ [4..<4 + (MAX_BLOCKS - 4)]"
    by (rule upt_add_eq_append) (rule le0)
  then have "?free [0..<MAX_BLOCKS] = ?free [0..<4] + ?free [4..<MAX_BLOCKS]"
    unfolding all by (simp only: filter_append length_append)
  moreover have "?free [0..<4] = 2"
    by (simp add: upt_rec fpm_first BLOCK_SIZE_def)
  moreover have "?free [0..<MAX_BLOCKS] = 32752"
    using interval_free [of 8] unfolding MAX_BLOCKS_def by linarith
  ultimately show ?thesis
    unfolding free_blocks_def first_block by linarith
qed

end
