(* ===== verification/Msf_Blocks.thy ===== *)
theory Msf_Blocks
  imports Msf_Allocator
begin

text \<open>
  The file as a store of blocks.  Every writer of the container replaces whole blocks by functions of
  their old contents; the effect of a list of such updates on different blocks is read off block by
  block.
\<close>

section \<open>Stores of blocks\<close>

primrec update_blocks :: "('s \<Rightarrow> nat \<Rightarrow> 'b) \<Rightarrow> (nat \<Rightarrow> 'b \<Rightarrow> 's \<Rightarrow> 's) \<Rightarrow> (nat \<times> ('b \<Rightarrow> 'b)) list \<Rightarrow> 's \<Rightarrow> 's" where
  "update_blocks get put [] s = s"
| "update_blocks get put (x # xs) s = update_blocks get put xs (put (fst x) (snd x (get s (fst x))) s)"

locale block_store =
  fixes get :: "'s \<Rightarrow> nat \<Rightarrow> 'b" and put :: "nat \<Rightarrow> 'b \<Rightarrow> 's \<Rightarrow> 's"
    and holds :: "nat \<Rightarrow> 's \<Rightarrow> bool" and block :: "'b \<Rightarrow> bool"
  assumes get_block: "holds n s \<Longrightarrow> b < n \<Longrightarrow> block (get s b)"
    and holds_put: "holds n s \<Longrightarrow> b < n \<Longrightarrow> block x \<Longrightarrow> holds n (put b x s)"
    and get_put_same: "holds n s \<Longrightarrow> b < n \<Longrightarrow> block x \<Longrightarrow> get (put b x s) b = x"
    and get_put_other: "holds n s \<Longrightarrow> b < n \<Longrightarrow> c < n \<Longrightarrow> c \<noteq> b \<Longrightarrow> block x \<Longrightarrow> get (put b x s) c = get s c"
begin

definition safe_updates :: "nat \<Rightarrow> (nat \<times> ('b \<Rightarrow> 'b)) list \<Rightarrow> bool" where
  "safe_updates n xs \<longleftrightarrow> (\<forall>x \<in> set xs. fst x < n \<and> (\<forall>y. block y \<longrightarrow> block (snd x y)))"

lemma holds_updates: "holds n s \<Longrightarrow> safe_updates n xs \<Longrightarrow> holds n (update_blocks get put xs s)"
  by (induction xs arbitrary: s) (auto simp: safe_updates_def intro!: holds_put get_block)

lemma get_updates:
  assumes "holds n s" "safe_updates n xs" "distinct (map fst xs)" "c < n"
  shows "get (update_blocks get put xs s) c = (case map_of xs c of None \<Rightarrow> get s c | Some f \<Rightarrow> f (get s c))"
  using assms
proof (induction xs arbitrary: s)
  case (Cons x xs)
  let ?s = "put (fst x) (snd x (get s (fst x))) s"
  have x: "fst x < n" "block (snd x (get s (fst x)))"
    using Cons.prems(1,2) get_block by (auto simp: safe_updates_def)
  have rest: "holds n ?s" "safe_updates n xs" "distinct (map fst xs)"
    using Cons.prems holds_put x by (auto simp: safe_updates_def)
  note IH = Cons.IH [OF rest Cons.prems(4)]
  show ?case
  proof (cases "c = fst x")
    case True
    then have "map_of xs c = None"
      using Cons.prems(3) by (simp add: map_of_eq_None_iff)
    then show ?thesis
      using IH True get_put_same [OF Cons.prems(1) x] by (cases x) simp
  next
    case False
    then have "get ?s c = get s c" "map_of (x # xs) c = map_of xs c"
      using get_put_other [OF Cons.prems(1) x(1) Cons.prems(4) _ x(2)] by (blast, cases x, simp)
    then show ?thesis
      using IH by (simp only: update_blocks.simps)
  qed
qed simp

end

section \<open>The file\<close>

definition block_of :: "u8 list \<Rightarrow> nat \<Rightarrow> u8 list" where
  "block_of out b = take BLOCK_SIZE (drop (b * BLOCK_SIZE) out)"

definition put_block :: "nat \<Rightarrow> u8 list \<Rightarrow> u8 list \<Rightarrow> u8 list" where
  "put_block b x out = take (b * BLOCK_SIZE) out @ x @ drop (b * BLOCK_SIZE + BLOCK_SIZE) out"

definition whole :: "nat \<Rightarrow> u8 list \<Rightarrow> bool" where
  "whole n out \<longleftrightarrow> length out = n * BLOCK_SIZE"

abbreviation is_block :: "u8 list \<Rightarrow> bool" where
  "is_block x \<equiv> length x = BLOCK_SIZE"

abbreviation write_blocks :: "(nat \<times> (u8 list \<Rightarrow> u8 list)) list \<Rightarrow> u8 list \<Rightarrow> u8 list" where
  "write_blocks \<equiv> update_blocks block_of put_block"

lemma block_room:
  assumes "b < n"
  shows "b * BLOCK_SIZE + BLOCK_SIZE \<le> n * BLOCK_SIZE"
proof -
  have "(b + 1) * BLOCK_SIZE \<le> n * BLOCK_SIZE"
    using assms by (intro mult_right_mono) simp_all
  then show ?thesis by simp
qed

lemma slice_before: "j + m \<le> k \<Longrightarrow> k \<le> length xs \<Longrightarrow> take m (drop j (take k xs @ ys)) = take m (drop j xs)"
  by (simp add: drop_take)

lemma slice_after:
  "length p = k \<Longrightarrow> length x = m \<Longrightarrow> k + m \<le> j \<Longrightarrow> drop j (p @ x @ drop (k + m) xs) = drop j xs"
  by simp

lemma block_of_put_other:
  assumes "whole n out" "b < n" "c < n" "c \<noteq> b" "is_block x"
  shows "block_of (put_block b x out) c = block_of out c"
proof -
  have b: "b * BLOCK_SIZE + BLOCK_SIZE \<le> length out"
    using assms(1) block_room [OF assms(2)] by (simp add: whole_def)
  show ?thesis
  proof (cases "c < b")
    case True
    show ?thesis
      unfolding block_of_def put_block_def using block_room [OF True] b by (intro slice_before) simp_all
  next
    case False
    then have "b * BLOCK_SIZE + BLOCK_SIZE \<le> c * BLOCK_SIZE"
      using assms(4) by (intro block_room) simp
    moreover have "length (take (b * BLOCK_SIZE) out) = b * BLOCK_SIZE"
      using b by simp
    ultimately show ?thesis
      using slice_after [of "take (b * BLOCK_SIZE) out" "b * BLOCK_SIZE" x BLOCK_SIZE "c * BLOCK_SIZE" out] assms(5)
      by (simp only: block_of_def put_block_def)
  qed
qed

lemma block_of_put_same:
  assumes "whole n out" "b < n" "is_block x"
  shows "block_of (put_block b x out) b = x"
proof -
  have "length (take (b * BLOCK_SIZE) out) = b * BLOCK_SIZE"
    using assms(1) block_room [OF assms(2)] by (simp add: whole_def)
  then show ?thesis
    using assms(3) unfolding block_of_def put_block_def by (simp del: length_take)
qed

interpretation msf: block_store block_of put_block whole is_block
proof
  fix n out b x
  assume w: "whole n out" and b: "b < n"
  note room = block_room [OF b]
  show "is_block (block_of out b)"
    using w room by (simp add: block_of_def whole_def)
  assume x: "is_block x"
  show "whole n (put_block b x out)"
    using w room x by (simp add: put_block_def whole_def)
qed (rule block_of_put_same, assumption+, rule block_of_put_other)

lemma block_of_zeros: "b < n \<Longrightarrow> block_of (replicate (n * BLOCK_SIZE) 0) b = replicate BLOCK_SIZE 0"
  using block_room [of b n] by (simp add: block_of_def)

lemma block_mut_ok:
  assumes "whole n out" "b < n" "n \<le> MAX_BLOCKS" "f (block_of out b) = Inr (g (block_of out b))"
  shows "block_mut b f out = Inr (put_block b (g (block_of out b)) out)"
proof -
  have "b * BLOCK_SIZE + BLOCK_SIZE \<le> length out"
    using block_room [OF assms(2)] assms(1) by (simp add: whole_def)
  moreover have "b * BLOCK_SIZE + BLOCK_SIZE < 2 ^ 64"
    using assms(2,3) by (simp add: BLOCK_SIZE_def)
  ultimately show ?thesis
    using assms(4) by (simp add: block_mut_def mul_u64_def add_u64_def put_block_def block_of_def)
qed

end
