(* ===== verification/Msf_Writers.thy ===== *)
theory Msf_Writers
  imports Msf_Blocks
begin

text \<open>
  Every writer of the container as a list of block updates: the superblock, the free page maps with
  their bitmap, the scattered streams, the directory and its block map.  On a file that is large
  enough none of them fails.
\<close>

lemma write_blocks_append: "write_blocks (xs @ ys) out = write_blocks ys (write_blocks xs out)"
  by (induction xs arbitrary: out) simp_all

text \<open>A file of at most the maximal number of blocks, and a writer that makes a list of updates on it.\<close>

definition room :: "nat \<Rightarrow> u8 list \<Rightarrow> bool" where
  "room n out \<longleftrightarrow> whole n out \<and> n \<le> MAX_BLOCKS"

definition writes :: "nat \<Rightarrow> (nat \<times> (u8 list \<Rightarrow> u8 list)) list \<Rightarrow> (u8 list \<Rightarrow> msf_error + u8 list) \<Rightarrow> bool" where
  "writes n us f \<longleftrightarrow> msf.safe_updates n us \<and> (\<forall>out. room n out \<longrightarrow> f out = Inr (write_blocks us out))"

lemma room_updates: "room n out \<Longrightarrow> msf.safe_updates n us \<Longrightarrow> room n (write_blocks us out)"
  by (simp add: room_def msf.holds_updates)

lemma writes_none: "writes n [] Inr"
  by (simp add: writes_def msf.safe_updates_def)

lemma writes_then:
  "writes n us f \<Longrightarrow> writes n vs g \<Longrightarrow> writes n (us @ vs) (\<lambda>out. rbind (f out) g)"
  by (auto simp: writes_def write_blocks_append room_updates) (auto simp: msf.safe_updates_def)

lemma writes_block:
  assumes "b < n" "\<And>x. is_block x \<Longrightarrow> f x = Inr (g x) \<and> is_block (g x)"
  shows "writes n [(b, g)] (block_mut b f)"
  unfolding writes_def
proof (intro conjI allI impI)
  show "msf.safe_updates n [(b, g)]"
    using assms by (simp add: msf.safe_updates_def)
  fix out assume "room n out"
  then have w: "whole n out" "n \<le> MAX_BLOCKS"
    by (simp_all add: room_def)
  show "block_mut b f out = Inr (write_blocks [(b, g)] out)"
    using block_mut_ok [OF w(1) assms(1) w(2)] assms(2) [OF msf.get_block [OF w(1) assms(1)]] by simp
qed

section \<open>The superblock\<close>

lemma length_to_le_bytes [simp]: "length (to_le_bytes v) = 4"
  by (simp add: to_le_bytes_def)

lemma length_magic [simp]: "length MSF_700_MAGIC = 32"
  by (simp add: MSF_700_MAGIC_def)

lemma put_u32_append:
  "length p = offset \<Longrightarrow> 4 \<le> length q \<Longrightarrow> offset + 4 < 2 ^ 64 \<Longrightarrow>
     put_u32 offset v (p @ q) = Inr (p @ to_le_bytes v @ drop 4 q)"
  by (simp add: put_u32_def add_u64_def)

definition superblock_fields :: "msf_layout \<Rightarrow> u8 list" where
  "superblock_fields l = MSF_700_MAGIC @ to_le_bytes BLOCK_SIZE @ to_le_bytes ACTIVE_FPM_BLOCK
     @ to_le_bytes (ml_num_blocks l) @ to_le_bytes (ml_directory_size l) @ to_le_bytes 0 @ to_le_bytes DIRECTORY_BLOCK_MAP"

definition overlay :: "u8 list \<Rightarrow> u8 list \<Rightarrow> u8 list" where
  "overlay c x = c @ drop (length c) x"

lemma length_overlay: "length c \<le> length x \<Longrightarrow> length (overlay c x) = length x"
  by (simp add: overlay_def)

lemma length_superblock [simp]: "length (superblock_fields l) = 56"
  by (simp add: superblock_fields_def)

lemma superblock_chain:
  assumes "is_block x"
  shows "rbind (copy_prefix MSF_700_MAGIC x) (\<lambda>superblock.
     rbind (put_u32 32 BLOCK_SIZE superblock) (\<lambda>superblock.
     rbind (put_u32 36 ACTIVE_FPM_BLOCK superblock) (\<lambda>superblock.
     rbind (put_u32 40 (ml_num_blocks l) superblock) (\<lambda>superblock.
     rbind (put_u32 44 (ml_directory_size l) superblock) (\<lambda>superblock.
     rbind (put_u32 48 0 superblock) (\<lambda>superblock.
     put_u32 52 DIRECTORY_BLOCK_MAP superblock)))))) = Inr (overlay (superblock_fields l) x)"
proof -
  have len: "4096 = length x"
    using assms by (simp add: BLOCK_SIZE_def)
  let ?m = "MSF_700_MAGIC"
  have start: "copy_prefix ?m x = Inr (?m @ drop 32 x)"
    using len by (simp add: copy_prefix_def)
  have step: "put_u32 n v (p @ drop n x) = Inr ((p @ to_le_bytes v) @ drop (n + 4) x)" if "length p = n" "n < 100" for n v p
    using that len by (simp add: put_u32_append add.commute)
  show ?thesis
    using step [of ?m 32] step [of "?m @ to_le_bytes BLOCK_SIZE" 36]
      step [of "(?m @ to_le_bytes BLOCK_SIZE) @ to_le_bytes ACTIVE_FPM_BLOCK" 40]
      step [of "((?m @ to_le_bytes BLOCK_SIZE) @ to_le_bytes ACTIVE_FPM_BLOCK) @ to_le_bytes (ml_num_blocks l)" 44]
      step [of "(((?m @ to_le_bytes BLOCK_SIZE) @ to_le_bytes ACTIVE_FPM_BLOCK) @ to_le_bytes (ml_num_blocks l))
        @ to_le_bytes (ml_directory_size l)" 48]
      step [of "((((?m @ to_le_bytes BLOCK_SIZE) @ to_le_bytes ACTIVE_FPM_BLOCK) @ to_le_bytes (ml_num_blocks l))
        @ to_le_bytes (ml_directory_size l)) @ to_le_bytes 0" 52]
    by (simp add: start overlay_def superblock_fields_def)
qed

lemma write_superblock_writes:
  assumes "0 < n"
  shows "writes n [(SUPER_BLOCK, overlay (superblock_fields l))] (write_superblock l)"
  unfolding write_superblock_def
proof (rule writes_block, goal_cases)
  case (2 x)
  then have "is_block (overlay (superblock_fields l) x)"
    by (simp add: length_overlay BLOCK_SIZE_def)
  then show ?case
    using superblock_chain [OF 2, of l] by (rule conjI [rotated])
qed (use assms in \<open>simp add: SUPER_BLOCK_def\<close>)

section \<open>The bitmap\<close>

lemma clear_bits_ok:
  assumes "n \<le> 8 * length bm"
  shows "\<exists>bm'. clear_bits n bm = Inr bm' \<and> length bm' = length bm
    \<and> (\<forall>i < 8 * length bm. bit (bm' ! (i div 8)) (i mod 8) \<longleftrightarrow> \<not> i < n \<and> bit (bm ! (i div 8)) (i mod 8))"
  using assms
proof (induction n)
  case (Suc n)
  then obtain bm1 where bm1: "clear_bits n bm = Inr bm1" "length bm1 = length bm"
    "\<forall>i < 8 * length bm. bit (bm1 ! (i div 8)) (i mod 8) \<longleftrightarrow> \<not> i < n \<and> bit (bm ! (i div 8)) (i mod 8)"
    by auto
  let ?bm = "bm1[n div 8 := bm1 ! (n div 8) AND NOT (push_bit (n mod 8) 1)]"
  have idx: "n div 8 < length bm1"
    using Suc.prems bm1(2) by (simp add: div_less_iff_less_mult)
  have "bit (?bm ! (i div 8)) (i mod 8) \<longleftrightarrow> \<not> i < Suc n \<and> bit (bm ! (i div 8)) (i mod 8)"
    if i: "i < 8 * length bm" for i
  proof (cases "i div 8 = n div 8")
    case True
    have "bit (?bm ! (i div 8)) (i mod 8) \<longleftrightarrow> bit (bm1 ! (i div 8)) (i mod 8) \<and> i mod 8 \<noteq> n mod 8"
      using True idx by (auto simp: bit_and_iff bit_not_iff bit_exp_iff possible_bit_word)
    moreover have "i mod 8 = n mod 8 \<longleftrightarrow> i = n"
      using True by (metis div_mult_mod_eq)
    ultimately show ?thesis
      using bm1(3) i by (auto simp: less_Suc_eq)
  next
    case False
    then have "i \<noteq> n"
      by auto
    then show ?thesis
      using bm1(3) i False by (auto simp: less_Suc_eq nth_list_update)
  qed
  then show ?case
    using bm1(1,2) idx by (auto simp: Let_def)
qed simp

definition page_bitmap :: "nat \<Rightarrow> u8 list" where
  "page_bitmap n = projr (clear_bits n (replicate BLOCK_SIZE 0xff))"

lemma bit_ff: "bit (0xff :: u8) i \<longleftrightarrow> i < 8"
proof -
  have "(0xff :: u8) = mask 8"
    by (simp add: mask_eq_decr_exp)
  then show ?thesis
    by (simp only: bit_mask_iff possible_bit_word) simp
qed

lemma page_bitmap:
  assumes "n \<le> MAX_BLOCKS"
  shows "clear_bits n (replicate BLOCK_SIZE 0xff) = Inr (page_bitmap n)" "is_block (page_bitmap n)"
    "i < MAX_BLOCKS \<Longrightarrow> bit (page_bitmap n ! (i div 8)) (i mod 8) \<longleftrightarrow> n \<le> i"
proof -
  let ?b = "replicate BLOCK_SIZE 0xff :: u8 list"
  have m: "8 * length ?b = MAX_BLOCKS"
    by (simp only: MAX_BLOCKS_def length_replicate mult.commute)
  obtain bm where bm: "clear_bits n ?b = Inr bm" "length bm = length ?b"
    "\<forall>i < 8 * length ?b. bit (bm ! (i div 8)) (i mod 8) \<longleftrightarrow> \<not> i < n \<and> bit (?b ! (i div 8)) (i mod 8)"
    using clear_bits_ok [of n ?b] assms m by auto
  have p: "page_bitmap n = bm"
    by (simp add: page_bitmap_def bm(1))
  show "clear_bits n ?b = Inr (page_bitmap n)" "is_block (page_bitmap n)"
    using bm(1,2) by (simp_all add: p)
  assume i: "i < MAX_BLOCKS"
  then have "i div 8 < BLOCK_SIZE"
    unfolding MAX_BLOCKS_def by (simp add: div_less_iff_less_mult)
  moreover have "bit (0xff :: u8) (i mod 8)"
    unfolding bit_ff by simp
  ultimately show "bit (page_bitmap n ! (i div 8)) (i mod 8) \<longleftrightarrow> n \<le> i"
    using bm(3) i m by (simp add: p not_less)
qed

section \<open>The maps of later intervals\<close>

abbreviation all_free :: "nat \<Rightarrow> nat \<times> (u8 list \<Rightarrow> u8 list)" where
  "all_free b \<equiv> (b, \<lambda>s. replicate (length s) 0xff)"

lemma interval_maps:
  assumes "start mod BLOCK_SIZE = 0"
  shows "filter is_fpm_block [start..<n] = filter (\<lambda>b. b < n) [start + 1, start + 2] @ filter is_fpm_block [start + BLOCK_SIZE..<n]"
    (is "?l = ?h @ ?t")
proof (rule sorted_distinct_set_unique)
  have fpm: "is_fpm_block (start + i) \<longleftrightarrow> i = 1 \<or> i = 2" if "i < BLOCK_SIZE" for i
    using fpm_shift [of "start div BLOCK_SIZE" i] fpm_first [OF that] assms by (metis add.right_neutral mult_div_mod_eq)
  have two: "b \<in> set ?h \<longleftrightarrow> b < n \<and> (b = start + 1 \<or> b = start + 2)" for b
    by auto
  have head: "b \<in> set ?h \<longleftrightarrow> start \<le> b \<and> b < n \<and> b < start + BLOCK_SIZE \<and> is_fpm_block b" for b
    unfolding two
  proof (cases "start \<le> b \<and> b < start + BLOCK_SIZE")
    case True
    define i where "i = b - start"
    have "b = start + i" "i < BLOCK_SIZE"
      using True by (simp_all add: i_def less_diff_conv2)
    then show "b < n \<and> (b = start + 1 \<or> b = start + 2) \<longleftrightarrow> start \<le> b \<and> b < n \<and> b < start + BLOCK_SIZE \<and> is_fpm_block b"
      using fpm [of i] True by simp
  next
    case False
    then show "b < n \<and> (b = start + 1 \<or> b = start + 2) \<longleftrightarrow> start \<le> b \<and> b < n \<and> b < start + BLOCK_SIZE \<and> is_fpm_block b"
      by (auto simp: BLOCK_SIZE_def)
  qed
  then show "set ?l = set (?h @ ?t)"
    unfolding set_eq_iff set_append Un_iff set_filter set_upt mem_Collect_eq atLeastLessThan_iff
    by (metis le_trans le_add1 not_less)
  have "x < y" if "x \<in> set ?h" "y \<in> set ?t" for x y
    using that(1) [unfolded head] that(2) by simp
  moreover have "sorted ?h" "distinct ?h" "sorted ?t" "distinct ?t"
    by (simp, simp, simp_all only: sorted_wrt_filter sorted_upt distinct_filter distinct_upt)
  ultimately show "sorted (?h @ ?t)" "distinct (?h @ ?t)"
    unfolding sorted_append distinct_append by (blast intro: less_imp_le, blast)
  show "sorted ?l" "distinct ?l"
    by (simp_all only: sorted_wrt_filter sorted_upt distinct_filter distinct_upt)
qed

end
