(* ===== verification/Msf_Stages.thy ===== *)
theory Msf_Stages
  imports Msf_Writers
begin

text \<open>
  The remaining stages of \<open>write_msf\<close> as block updates: both free page maps, the scattered streams, the
  directory and its block map.
\<close>

section \<open>The free page maps\<close>

lemma rbind_Inr: "rbind m Inr = m"
  by (cases m) simp_all

lemma writes_all_free: "b < n \<Longrightarrow> writes n [all_free b] (block_mut b (\<lambda>s. Inr (replicate (length s) 0xff)))"
  by (rule writes_block) simp_all

lemma writes_optional:
  "writes n (map all_free (filter (\<lambda>b. b < n) [b]))
     (\<lambda>out. if b < n then block_mut b (\<lambda>s. Inr (replicate (length s) 0xff)) out else Inr out)"
  using writes_all_free [of b n] writes_none [of n] by (cases "b < n") simp_all

lemma fill_phases_writes:
  assumes "start < n" "n \<le> MAX_BLOCKS"
  shows "writes n (map all_free (filter (\<lambda>b. b < n) [start + 1, start + 2]))
    (fill_phases [ALTERNATE_FPM_BLOCK, ACTIVE_FPM_BLOCK] start n)"
proof -
  have add: "add_u32 start 1 = Some (start + 1)" "add_u32 start 2 = Some (start + 2)"
    using assms by (simp_all add: add_u32_def)
  let ?fill = "\<lambda>b out. if b < n then block_mut b (\<lambda>s. Inr (replicate (length s) 0xff)) out else Inr out"
  have "fill_phases [1, 2] start n = (\<lambda>out. rbind (?fill (start + 1) out) (?fill (start + 2)))"
    by (rule ext) (simp only: fill_phases.simps add ok_or_simps rbind.simps rbind_Inr)
  moreover have "map all_free (filter (\<lambda>b. b < n) [start + 1, start + 2])
      = map all_free (filter (\<lambda>b. b < n) [start + 1]) @ map all_free (filter (\<lambda>b. b < n) [start + 2])"
    by simp
  ultimately show ?thesis
    using writes_then [OF writes_optional writes_optional, of n "start + 1" "start + 2"]
    by (simp only: ALTERNATE_FPM_BLOCK_def ACTIVE_FPM_BLOCK_def)
qed

lemma fill_intervals_writes:
  assumes "n \<le> MAX_BLOCKS" "start mod BLOCK_SIZE = 0"
  shows "writes n (map all_free (filter is_fpm_block [start..<n])) (fill_intervals start n)"
  using assms(2)
proof (induction "n - start" arbitrary: start rule: less_induct)
  case less
  show ?case
  proof (cases "start < n")
    case True
    have "start + BLOCK_SIZE < 2 ^ 32"
      using True assms(1) by (simp add: BLOCK_SIZE_def)
    then have run: "fill_intervals start n = (\<lambda>out. rbind (fill_phases [ALTERNATE_FPM_BLOCK, ACTIVE_FPM_BLOCK] start n out)
        (fill_intervals (start + BLOCK_SIZE) n))"
      using True by (intro ext, subst fill_intervals.simps) simp
    have "n - (start + BLOCK_SIZE) < n - start"
      using True by (simp add: BLOCK_SIZE_def)
    then have "writes n (map all_free (filter is_fpm_block [start + BLOCK_SIZE..<n])) (fill_intervals (start + BLOCK_SIZE) n)"
      using less by (intro less.hyps) simp_all
    then show ?thesis
      unfolding interval_maps [OF less.prems] run map_append
      by (rule writes_then [OF fill_phases_writes [OF True assms(1)]])
  next
    case False
    then have "fill_intervals start n = Inr"
      by (intro ext, subst fill_intervals.simps) simp
    moreover have "map all_free (filter is_fpm_block [start..<n]) = []"
      using False by simp
    ultimately show ?thesis
      by (simp only: writes_none)
  qed
qed

definition map_updates :: "nat \<Rightarrow> (nat \<times> (u8 list \<Rightarrow> u8 list)) list" where
  "map_updates n = [(ALTERNATE_FPM_BLOCK, \<lambda>_. page_bitmap n), (ACTIVE_FPM_BLOCK, \<lambda>_. page_bitmap n)]
     @ map all_free (filter is_fpm_block [BLOCK_SIZE..<n])"

lemma write_free_page_maps_writes:
  assumes "FIRST_ALLOCATABLE_BLOCK \<le> n" "n \<le> MAX_BLOCKS"
  shows "writes n (map_updates n) (write_free_page_maps n)"
proof -
  note bm = page_bitmap [OF assms(2)]
  have copy: "writes n [(b, \<lambda>_. page_bitmap n)] (block_mut b (copy_from_slice (page_bitmap n)))" if "b < n" for b
    using that bm(2) by (intro writes_block) (simp_all add: copy_from_slice_def)
  have run: "write_free_page_maps n = (\<lambda>out. rbind (block_mut ALTERNATE_FPM_BLOCK (copy_from_slice (page_bitmap n)) out)
      (\<lambda>out. rbind (block_mut ACTIVE_FPM_BLOCK (copy_from_slice (page_bitmap n)) out) (fill_intervals BLOCK_SIZE n)))"
    using assms bm(1) by (intro ext) (simp add: write_free_page_maps_def)
  have "ALTERNATE_FPM_BLOCK < n" "ACTIVE_FPM_BLOCK < n" "BLOCK_SIZE mod BLOCK_SIZE = 0"
    using assms(1) by (simp_all add: ALTERNATE_FPM_BLOCK_def ACTIVE_FPM_BLOCK_def)
  from writes_then [OF copy [OF this(1)] writes_then [OF copy [OF this(2)] fill_intervals_writes [OF assms(2) this(3)]]]
  show ?thesis
    by (simp add: run map_updates_def)
qed

section \<open>Scattered data\<close>

lemma chunks_Nil [simp]: "chunks k [] = []"
  by (subst chunks.simps) simp

lemma chunks_small: "\<forall>c \<in> set (chunks k xs). length c \<le> k"
  by (induction k xs rule: chunks.induct) (subst chunks.simps, auto)

lemma chunks_concat: "0 < k \<Longrightarrow> concat (chunks k xs) = xs"
  by (induction k xs rule: chunks.induct) (subst chunks.simps, auto)

lemma chunks_length: "length (chunks BLOCK_SIZE xs) = div_ceil (length xs) BLOCK_SIZE"
proof (induction "length xs" arbitrary: xs rule: less_induct)
  case less
  show ?case
  proof (cases "xs = []")
    case False
    then have "length (drop BLOCK_SIZE xs) < length xs"
      by (simp add: BLOCK_SIZE_def)
    from less.hyps [OF this] have "length (chunks BLOCK_SIZE (drop BLOCK_SIZE xs)) = (length xs - 4096 + 4095) div 4096"
      unfolding div_ceil_block by (simp add: BLOCK_SIZE_def)
    moreover have "(length xs + 4095) div 4096 = Suc ((length xs - 4096 + 4095) div 4096)"
    proof (cases "length xs \<le> 4096")
      case True
      then have "(length xs - 1) div 4096 = 0" "length xs + 4095 = length xs - 1 + 4096"
        using False by (simp_all add: Suc_le_eq)
      then show ?thesis
        using True by (simp only: div_add_self2)
    qed (use False in \<open>simp add: div_if [of "length xs + 4095"]\<close>)
    moreover have "chunks BLOCK_SIZE xs = take BLOCK_SIZE xs # chunks BLOCK_SIZE (drop BLOCK_SIZE xs)"
      using False by (subst chunks.simps) (simp add: BLOCK_SIZE_def)
    ultimately show ?thesis
      by (simp add: div_ceil_block)
  qed (simp add: div_ceil_def)
qed

definition data_updates :: "nat list \<Rightarrow> u8 list \<Rightarrow> (nat \<times> (u8 list \<Rightarrow> u8 list)) list" where
  "data_updates blocks data = zip blocks (map overlay (chunks BLOCK_SIZE data))"

lemma scatter_writes:
  "\<forall>x \<in> set xs. fst x < n \<and> length (snd x) \<le> BLOCK_SIZE \<Longrightarrow>
     writes n (map (\<lambda>x. (fst x, overlay (snd x))) xs) (scatter xs)"
proof (induction xs)
  case (Cons x xs)
  have "writes n [(fst x, overlay (snd x))] (block_mut (fst x) (copy_prefix (snd x)))"
    using Cons.prems by (intro writes_block) (simp_all add: copy_prefix_def overlay_def)
  from writes_then [OF this Cons.IH] show ?case
    using Cons.prems by simp
next
  case Nil
  have "scatter [] = Inr"
    by (rule ext) simp
  then show ?case
    using writes_none by simp
qed

lemma write_scattered_writes:
  assumes "length blocks = div_ceil (length data) BLOCK_SIZE" "\<forall>b \<in> set blocks. b < n"
  shows "writes n (data_updates blocks data) (write_scattered blocks data)"
proof -
  have "write_scattered blocks data = scatter (zip blocks (chunks BLOCK_SIZE data))"
    using assms(1) by (intro ext) (simp add: write_scattered_def)
  moreover have "data_updates blocks data = map (\<lambda>x. (fst x, overlay (snd x))) (zip blocks (chunks BLOCK_SIZE data))"
    by (simp add: data_updates_def zip_map2 case_prod_unfold)
  moreover have "\<forall>x \<in> set (zip blocks (chunks BLOCK_SIZE data)). fst x < n \<and> length (snd x) \<le> BLOCK_SIZE"
    using assms(2) chunks_small [of BLOCK_SIZE data] by (auto dest: set_zip_leftD set_zip_rightD)
  ultimately show ?thesis
    using scatter_writes by simp
qed

section \<open>The streams\<close>

text \<open>A planned stream belongs to its input.\<close>

definition planned_for :: "u8 list option \<times> planned_stream \<Rightarrow> bool" where
  "planned_for x \<longleftrightarrow> (pl_size (snd x), length (pl_blocks (snd x))) = shape_of (map_option length (fst x))"

definition stream_updates :: "u8 list option \<times> planned_stream \<Rightarrow> (nat \<times> (u8 list \<Rightarrow> u8 list)) list" where
  "stream_updates x = (case fst x of None \<Rightarrow> [] | Some bytes \<Rightarrow> data_updates (pl_blocks (snd x)) bytes)"

lemma write_streams_writes:
  "\<forall>x \<in> set xs. planned_for x \<and> (\<forall>b \<in> set (pl_blocks (snd x)). b < n) \<Longrightarrow>
     writes n (concat (map stream_updates xs)) (write_streams xs)"
proof (induction xs)
  case (Cons x xs)
  have x: "planned_for x" "\<forall>b \<in> set (pl_blocks (snd x)). b < n"
    using Cons.prems by simp_all
  have "writes n (stream_updates x) (\<lambda>output. case fst x of
         None \<Rightarrow> if pl_size (snd x) = NIL_STREAM_SIZE then Inr output
           else Inl (MsInvalidLayout ''planned stream no longer matches its input'')
       | Some bytes \<Rightarrow> if length bytes = pl_size (snd x) then write_scattered (pl_blocks (snd x)) bytes output
           else Inl (MsInvalidLayout ''planned stream no longer matches its input''))"
    using x writes_none [of n] write_scattered_writes [of "pl_blocks (snd x)" _ n]
    by (cases "fst x") (simp_all add: planned_for_def shape_of_def stream_updates_def)
  from writes_then [OF this Cons.IH] show ?case
    using Cons.prems by simp
next
  case Nil
  have "write_streams [] = Inr"
    by (rule ext) simp
  then show ?case
    using writes_none by simp
qed

section \<open>The directory\<close>

definition directory_words :: "msf_layout \<Rightarrow> nat list" where
  "directory_words l = length (ml_streams l) # map pl_size (ml_streams l) @ concat (map pl_blocks (ml_streams l))"

definition le_words :: "nat list \<Rightarrow> u8 list" where
  "le_words ws = concat (map to_le_bytes ws)"

lemma length_le_words: "length (le_words ws) = 4 * length ws"
  by (induction ws) (simp_all add: le_words_def)

lemma push_words: "foldl push_u32 d ws = d @ le_words ws"
  by (induction ws arbitrary: d) (simp_all add: push_u32_def le_words_def)

lemma push_sizes: "foldl (\<lambda>d s. push_u32 d (pl_size s)) d ss = d @ le_words (map pl_size ss)"
  by (induction ss arbitrary: d) (simp_all add: push_u32_def le_words_def)

lemma push_streams: "foldl (\<lambda>d s. foldl push_u32 d (pl_blocks s)) d ss = d @ le_words (concat (map pl_blocks ss))"
  by (induction ss arbitrary: d) (simp_all add: push_words le_words_def)

lemma serialize_directory_ok:
  assumes "length (ml_streams l) < 2 ^ 32" "ml_directory_size l = 4 * length (directory_words l)"
  shows "serialize_directory l = Inr (le_words (directory_words l))"
proof -
  have "push_u32 [] (length (ml_streams l)) @ le_words (map pl_size (ml_streams l)) @ le_words (concat (map pl_blocks (ml_streams l)))
      = le_words (directory_words l)"
    by (simp add: push_u32_def le_words_def directory_words_def)
  then show ?thesis
    using assms by (simp add: serialize_directory_def push_sizes push_streams length_le_words Let_def del: length_append)
qed

lemma put_block_map_ok:
  assumes "4 * (k + length bs) \<le> BLOCK_SIZE" "is_block (p @ q)" "length p = 4 * k"
  shows "put_block_map (enumerate k bs) (p @ q) = Inr (p @ overlay (le_words bs) q)"
  using assms
proof (induction bs arbitrary: k p q)
  case (Cons b bs)
  have "mul_u64 k 4 = Some (4 * k)"
    using Cons.prems(1) by (simp add: mul_u64_def BLOCK_SIZE_def)
  moreover have "put_u32 (4 * k) b (p @ q) = Inr ((p @ to_le_bytes b) @ drop 4 q)"
    using put_u32_append [of p "4 * k" q b] Cons.prems by (simp add: BLOCK_SIZE_def)
  moreover have "put_block_map (enumerate (Suc k) bs) ((p @ to_le_bytes b) @ drop 4 q)
      = Inr ((p @ to_le_bytes b) @ overlay (le_words bs) (drop 4 q))"
    using Cons.prems by (intro Cons.IH) (simp_all add: BLOCK_SIZE_def)
  ultimately show ?case
    by (simp add: overlay_def le_words_def add.commute)
qed (simp add: overlay_def le_words_def)

lemma write_directory_block_map_writes:
  assumes "length bs \<le> MAX_DIRECTORY_BLOCKS" "DIRECTORY_BLOCK_MAP < n"
  shows "writes n [(DIRECTORY_BLOCK_MAP, overlay (le_words bs))] (write_directory_block_map bs)"
proof -
  have fit: "4 * length bs \<le> BLOCK_SIZE"
    using assms(1) by (simp add: MAX_DIRECTORY_BLOCKS_def BLOCK_SIZE_def)
  have "write_directory_block_map bs = block_mut DIRECTORY_BLOCK_MAP (put_block_map (enumerate 0 bs))"
    using assms(1) by (intro ext) (simp add: write_directory_block_map_def)
  moreover have "writes n [(DIRECTORY_BLOCK_MAP, overlay (le_words bs))] (block_mut DIRECTORY_BLOCK_MAP (put_block_map (enumerate 0 bs)))"
    using put_block_map_ok [of 0 bs "[]"] fit by (intro writes_block assms(2)) (simp add: length_overlay length_le_words)
  ultimately show ?thesis by simp
qed

end
