(* ===== verification/Msf_File.thy ===== *)
theory Msf_File
  imports Msf_Stages
begin

text \<open>
  The whole file: \<open>write_msf\<close> as one list of updates on different blocks of an empty file, and what every
  block of the result holds.
\<close>

definition msf_updates :: "u8 list option list \<Rightarrow> msf_layout \<Rightarrow> (nat \<times> (u8 list \<Rightarrow> u8 list)) list" where
  "msf_updates streams l = [(SUPER_BLOCK, overlay (superblock_fields l))] @ map_updates (ml_num_blocks l)
     @ concat (map stream_updates (zip streams (ml_streams l)))
     @ data_updates (ml_directory_blocks l) (le_words (directory_words l))
     @ [(DIRECTORY_BLOCK_MAP, overlay (le_words (ml_directory_blocks l)))]"

abbreviation sizes_of :: "u8 list option list \<Rightarrow> nat option list" where
  "sizes_of streams \<equiv> map (map_option length) streams"

definition starts_empty :: "u8 list option list \<Rightarrow> bool" where
  "starts_empty streams \<longleftrightarrow> streams \<noteq> [] \<and> hd streams = Some []"

lemma planned_all:
  assumes "layout_of (sizes_of streams) l"
  shows "length (ml_streams l) = length streams" "list_all planned_for (zip streams (ml_streams l))"
proof -
  have m: "map pl_size (ml_streams l) = map (\<lambda>sz. fst (shape_of sz)) (sizes_of streams)"
    "map (\<lambda>p. length (pl_blocks p)) (ml_streams l) = map (\<lambda>sz. snd (shape_of sz)) (sizes_of streams)"
    using assms by (simp_all add: layout_of_def)
  show len: "length (ml_streams l) = length streams"
    using arg_cong [OF m(1), of length] by simp
  have "planned_for (streams ! i, ml_streams l ! i)" if "i < length streams" for i
    using arg_cong [OF m(1), of "\<lambda>xs. xs ! i"] arg_cong [OF m(2), of "\<lambda>xs. xs ! i"] that len
    by (simp add: planned_for_def)
  then show "list_all planned_for (zip streams (ml_streams l))"
    using len by (auto simp: list_all_iff set_zip)
qed

lemma directory_length:
  assumes "layout_of (sizes_of streams) l"
  shows "ml_directory_size l = 4 * length (directory_words l)"
    "length (ml_directory_blocks l) = div_ceil (length (le_words (directory_words l))) BLOCK_SIZE"
proof -
  have "length (concat (map pl_blocks (ml_streams l))) = stream_blocks (sizes_of streams)"
    using assms by (simp add: layout_of_def stream_blocks_def length_concat comp_def)
  then show s: "ml_directory_size l = 4 * length (directory_words l)"
    using assms planned_all(1) [OF assms] by (simp add: layout_of_def directory_words_def directory_bytes_def)
  then show "length (ml_directory_blocks l) = div_ceil (length (le_words (directory_words l))) BLOCK_SIZE"
    using assms by (simp add: layout_of_def length_le_words directory_count_def)
qed

lemma write_msf_writes:
  assumes "starts_empty streams" "fits (sizes_of streams)" "plan_layout (sizes_of streams) = Inr l" "layout_of (sizes_of streams) l"
  defines "zeros \<equiv> replicate (ml_num_blocks l * BLOCK_SIZE) 0"
  shows "msf.safe_updates (ml_num_blocks l) (msf_updates streams l)" "room (ml_num_blocks l) zeros"
    "write_msf streams = Inr (write_blocks (msf_updates streams l) zeros)"
proof -
  let ?n = "ml_num_blocks l"
  have n: "FIRST_ALLOCATABLE_BLOCK \<le> ?n" "?n \<le> MAX_BLOCKS" "0 < ?n" "DIRECTORY_BLOCK_MAP < ?n"
    using assms(4) by (simp_all add: layout_of_def DIRECTORY_BLOCK_MAP_def)
  have below: "\<forall>b \<in> set (concat (map pl_blocks (ml_streams l)) @ ml_directory_blocks l). b < ?n"
    using assms(4) unfolding layout_of_def by blast
  note planned = planned_all [OF assms(4)] and dir = directory_length [OF assms(4)]
  have small: "length streams \<le> MAX_STREAMS" "length (ml_directory_blocks l) \<le> MAX_DIRECTORY_BLOCKS"
    using assms(2,4) by (simp_all add: fits_def layout_of_def)
  let ?stages = "\<lambda>out. rbind (write_superblock l out) (\<lambda>out. rbind (write_free_page_maps ?n out) (\<lambda>out.
    rbind (write_streams (zip streams (ml_streams l)) out) (\<lambda>out.
    rbind (write_scattered (ml_directory_blocks l) (le_words (directory_words l)) out) (write_directory_block_map (ml_directory_blocks l)))))"
  have "b < ?n" if "p \<in> set (ml_streams l)" "b \<in> set (pl_blocks p)" for p b
    using below that by auto
  then have "\<forall>x \<in> set (zip streams (ml_streams l)). planned_for x \<and> (\<forall>b \<in> set (pl_blocks (snd x)). b < ?n)"
    using planned(2) by (auto simp: list_all_iff dest: set_zip_rightD)
  then have w: "writes ?n (msf_updates streams l) ?stages"
    unfolding msf_updates_def using n small(2) below dir(2)
    by (intro writes_then write_superblock_writes write_free_page_maps_writes write_streams_writes write_scattered_writes
        write_directory_block_map_writes) simp_all
  then show "msf.safe_updates ?n (msf_updates streams l)"
    by (simp add: writes_def)
  show r: "room ?n zeros"
    using n(2) by (simp add: room_def whole_def zeros_def)
  have "serialize_directory l = Inr (le_words (directory_words l))"
    using dir(1) small(1) planned(1) by (intro serialize_directory_ok) (simp_all add: MAX_STREAMS_def)
  moreover have "mul_u64 ?n BLOCK_SIZE = Some (?n * BLOCK_SIZE)"
    using n(2) by (simp add: mul_u64_def BLOCK_SIZE_def)
  moreover have "(case streams of Some bytes # _ \<Rightarrow> bytes = [] | _ \<Rightarrow> False)"
    using assms(1) by (cases streams) (auto simp: starts_empty_def)
  ultimately have "write_msf streams = ?stages zeros"
    using assms(3) small(1) by (simp add: write_msf_def zeros_def del: rbind_Inr_iff)
  then show "write_msf streams = Inr (write_blocks (msf_updates streams l) zeros)"
    using w r by (simp only: writes_def)
qed

section \<open>Every block is written once\<close>

lemma data_updates_blocks:
  "length blocks = div_ceil (length data) BLOCK_SIZE \<Longrightarrow> map fst (data_updates blocks data) = blocks"
  by (simp add: data_updates_def chunks_length)

lemma stream_updates_blocks: "planned_for x \<Longrightarrow> map fst (stream_updates x) = pl_blocks (snd x)"
  by (cases "fst x") (simp_all add: stream_updates_def planned_for_def shape_of_def data_updates_blocks)

lemma streams_updates_blocks:
  "list_all planned_for xs \<Longrightarrow> map fst (concat (map stream_updates xs)) = concat (map (\<lambda>x. pl_blocks (snd x)) xs)"
  by (induction xs) (simp_all add: stream_updates_blocks)

lemma updated_blocks:
  assumes "layout_of (sizes_of streams) l"
  shows "map fst (msf_updates streams l) = 0 # 1 # 2 # filter is_fpm_block [BLOCK_SIZE..<ml_num_blocks l]
    @ (concat (map pl_blocks (ml_streams l)) @ ml_directory_blocks l) @ [3]"
proof -
  note planned = planned_all [OF assms]
  have "map (\<lambda>x. pl_blocks (snd x)) (zip streams (ml_streams l)) = map pl_blocks (ml_streams l)"
    using map_snd_zip [of streams "ml_streams l"] planned(1) by (simp flip: map_map [unfolded comp_def])
  then show ?thesis
    using streams_updates_blocks [OF planned(2)] data_updates_blocks [OF directory_length(2) [OF assms]]
    by (simp add: msf_updates_def map_updates_def comp_def SUPER_BLOCK_def DIRECTORY_BLOCK_MAP_def
        ALTERNATE_FPM_BLOCK_def ACTIVE_FPM_BLOCK_def)
qed

lemma layout_blocks:
  assumes "layout_of sizes l"
  shows "distinct (concat (map pl_blocks (ml_streams l)) @ ml_directory_blocks l)"
    "b \<in> set (concat (map pl_blocks (ml_streams l)) @ ml_directory_blocks l) \<longleftrightarrow> 4 \<le> b \<and> b < ml_num_blocks l \<and> \<not> is_fpm_block b"
proof -
  let ?k = "stream_blocks sizes + directory_count sizes" and ?bs = "concat (map pl_blocks (ml_streams l)) @ ml_directory_blocks l"
  have bs: "?bs = take ?k (free_blocks 4)" "free_blocks (ml_num_blocks l) = drop ?k (free_blocks 4)"
    "\<forall>b \<in> set ?bs. b < ml_num_blocks l" "ml_num_blocks l \<le> MAX_BLOCKS"
    using assms unfolding layout_of_def first_block by blast+
  show "distinct ?bs"
    unfolding bs(1) by (rule distinct_take [OF free_blocks_distinct])
  have "set (free_blocks 4) = set ?bs \<union> set (free_blocks (ml_num_blocks l))"
    unfolding bs(1,2) by (metis append_take_drop_id set_append)
  then show "b \<in> set ?bs \<longleftrightarrow> 4 \<le> b \<and> b < ml_num_blocks l \<and> \<not> is_fpm_block b"
    using bs(3,4) free_blocks_mem [of b 4] free_blocks_mem [of b "ml_num_blocks l"]
    by (metis Un_iff linorder_not_le order.strict_trans2)
qed

lemma distinct_fixed:
  assumes "distinct xs" "\<And>b. b \<in> set xs \<Longrightarrow> (4 :: nat) \<le> b"
  shows "distinct ([0, 1, 2] @ xs @ [3])"
  using assms(1) assms(2) [of 0] assms(2) [of 1] assms(2) [of 2] assms(2) [of 3] by auto

lemma updated_distinct:
  assumes "layout_of (sizes_of streams) l"
  shows "distinct (map fst (msf_updates streams l))"
proof -
  let ?bs = "concat (map pl_blocks (ml_streams l)) @ ml_directory_blocks l"
    and ?ms = "filter is_fpm_block [BLOCK_SIZE..<ml_num_blocks l]"
  have m: "b \<in> set ?ms \<Longrightarrow> 4 \<le> b \<and> is_fpm_block b" for b
    by (simp add: BLOCK_SIZE_def)
  note bs = layout_blocks [OF assms]
  have d: "distinct (?ms @ ?bs)"
    unfolding distinct_append [of ?ms] using bs m by (blast intro: distinct_filter distinct_upt)
  have "4 \<le> b" if "b \<in> set (?ms @ ?bs)" for b
    using that m bs(2) unfolding set_append [of ?ms] by blast
  then have "distinct ([0, 1, 2] @ (?ms @ ?bs) @ [3])"
    by (rule distinct_fixed [OF d])
  then show ?thesis
    unfolding updated_blocks [OF assms] by (simp only: append.simps append_assoc)
qed

section \<open>Reading scattered data back\<close>

definition read_blocks :: "u8 list \<Rightarrow> nat list \<Rightarrow> u8 list" where
  "read_blocks out bs = concat (map (block_of out) bs)"

lemma overlaid_chunks:
  "0 < k \<Longrightarrow> length z = k \<Longrightarrow> take (length data) (concat (map (\<lambda>c. overlay c z) (chunks k data))) = data"
proof (induction k data rule: chunks.induct)
  case (1 k xs)
  show ?case
  proof (cases "xs = []")
    case False
    then have c: "chunks k xs = take k xs # chunks k (drop k xs)"
      using "1.prems" by (subst chunks.simps) simp
    show ?thesis
    proof (cases "length xs \<le> k")
      case True
      then show ?thesis
        by (simp add: c overlay_def)
    next
      case long: False
      have "take (length xs - k) (concat (map (\<lambda>c. overlay c z) (chunks k (drop k xs)))) = drop k xs"
        using "1.IH" "1.prems" False by simp
      then show ?thesis
        using long "1.prems" by (simp add: c overlay_def)
    qed
  qed simp
qed

end
