(* ===== verification/Msf_Reader.thy ===== *)
theory Msf_Reader
  imports Msf_File
begin

text \<open>
  A reader of the container as its format documents it: the superblock names the block map, the block
  map the blocks of the directory, and the directory the sizes and the blocks of the streams.  It is the
  reference against which the writer is verified, and it finds in a written file what the writer planned.
\<close>

section \<open>The reader\<close>

fun le_word :: "u8 list \<Rightarrow> nat" where
  "le_word [a, b, c, d] = unat a + 2 ^ 8 * unat b + 2 ^ 16 * unat c + 2 ^ 24 * unat d"
| "le_word _ = 0"

definition words :: "u8 list \<Rightarrow> nat list" where
  "words bs = map le_word (chunks 4 bs)"

text \<open>The active free page map, the block map, the blocks of the directory and its words.\<close>

definition read_index :: "u8 list \<Rightarrow> (nat \<times> nat \<times> nat list \<times> nat list) option" where
  "read_index out = (let super = block_of out 0 in
     case words (take 24 (drop 32 super)) of
       [sz, fpm, n, dsize, unknown, block_map] \<Rightarrow>
         if take 32 super = MSF_700_MAGIC \<and> sz = BLOCK_SIZE \<and> length out = n * sz then
           (let dblocks = take (div_ceil dsize sz) (words (block_of out block_map)) in
            Some (fpm, block_map, dblocks, words (take dsize (read_blocks out dblocks))))
         else None
     | _ \<Rightarrow> None)"

primrec read_streams :: "u8 list \<Rightarrow> nat list \<Rightarrow> nat list \<Rightarrow> u8 list option list" where
  "read_streams out [] bs = []"
| "read_streams out (sz # szs) bs =
     (if sz = NIL_STREAM_SIZE then None # read_streams out szs bs
      else (let k = div_ceil sz BLOCK_SIZE in
        Some (take sz (read_blocks out (take k bs))) # read_streams out szs (drop k bs)))"

definition read_msf :: "u8 list \<Rightarrow> u8 list option list option" where
  "read_msf out = (case read_index out of
     Some (_, _, _, count # rest) \<Rightarrow> Some (read_streams out (take count rest) (drop count rest))
   | _ \<Rightarrow> None)"

text \<open>The blocks that the superblock, the block map, the directory and the streams occupy.\<close>

definition used_blocks :: "u8 list \<Rightarrow> nat list" where
  "used_blocks out = (case read_index out of
     Some (_, block_map, dblocks, count # rest) \<Rightarrow> 0 # block_map # dblocks @ drop count rest
   | _ \<Rightarrow> [])"

definition marked_free :: "u8 list \<Rightarrow> nat \<Rightarrow> bool" where
  "marked_free out b \<longleftrightarrow> (case read_index out of
     Some (fpm, _) \<Rightarrow> bit (block_of out fpm ! (b div 8)) (b mod 8)
   | None \<Rightarrow> False)"

section \<open>Words\<close>

lemma le_word_to_le_bytes:
  assumes "v < 2 ^ 32"
  shows "le_word (to_le_bytes v) = v"
proof -
  define a b c where "a = v div 256" and "b = a div 256" and "c = b div 256"
  have "v = 256 * a + v mod 256" "a = 256 * b + a mod 256" "b = 256 * c + b mod 256"
    by (simp_all add: a_def b_def c_def)
  moreover have "v div 2 ^ 8 = a" "v div 2 ^ 16 = b" "v div 2 ^ 24 = c"
    by (simp_all add: a_def b_def c_def flip: div_mult2_eq)
  moreover have "c < 256"
    using assms by (simp add: a_def b_def c_def flip: div_mult2_eq)
  ultimately show ?thesis
    by (simp add: to_le_bytes_def unat_of_nat)
qed

lemma words_append: "\<forall>w \<in> set ws. w < 2 ^ 32 \<Longrightarrow> words (le_words ws @ bs) = ws @ words bs"
proof (induction ws)
  case (Cons w ws)
  have "chunks 4 (to_le_bytes w @ le_words ws @ bs) = to_le_bytes w # chunks 4 (le_words ws @ bs)"
    by (subst chunks.simps) (simp add: to_le_bytes_def)
  then show ?case
    using Cons le_word_to_le_bytes [of w] by (simp add: words_def le_words_def)
qed (simp add: le_words_def)

lemma words_le_words: "\<forall>w \<in> set ws. w < 2 ^ 32 \<Longrightarrow> words (le_words ws) = ws"
  using words_append [of ws "[]"] by (simp add: words_def)

section \<open>What a written file holds\<close>

definition written :: "u8 list option list \<Rightarrow> msf_layout \<Rightarrow> u8 list \<Rightarrow> bool" where
  "written streams l out \<longleftrightarrow> starts_empty streams \<and> fits (sizes_of streams) \<and> layout_of (sizes_of streams) l
     \<and> whole (ml_num_blocks l) out \<and> (\<forall>x \<in> set (msf_updates streams l). block_of out (fst x) = snd x (replicate BLOCK_SIZE 0))"

lemma write_msf_ok:
  assumes "starts_empty streams" "fits (sizes_of streams)"
  shows "\<exists>l out. write_msf streams = Inr out \<and> written streams l out"
proof -
  obtain l where l: "plan_layout (sizes_of streams) = Inr l" "layout_of (sizes_of streams) l"
    using plan_layout_ok [OF assms(2)] by blast
  let ?z = "replicate (ml_num_blocks l * BLOCK_SIZE) 0" and ?us = "msf_updates streams l"
  note w = write_msf_writes [OF assms l]
  have whole: "whole (ml_num_blocks l) ?z"
    using w(2) by (simp add: room_def)
  have "block_of (write_blocks ?us ?z) (fst x) = snd x (replicate BLOCK_SIZE 0)" if x: "x \<in> set ?us" for x
  proof -
    have lt: "fst x < ml_num_blocks l"
      using w(1) x by (simp add: msf.safe_updates_def)
    have "map_of ?us (fst x) = Some (snd x)"
      using map_of_is_SomeI [OF updated_distinct [OF l(2)], of "fst x" "snd x"] x by simp
    then show ?thesis
      using msf.get_updates [OF whole w(1) updated_distinct [OF l(2)] lt] block_of_zeros [OF lt] by simp
  qed
  then have "written streams l (write_blocks ?us ?z)"
    using assms l(2) msf.holds_updates [OF whole w(1)] by (simp add: written_def)
  then show ?thesis
    using w(3) by blast
qed

lemma write_msf_bad:
  assumes "\<not> (starts_empty streams \<and> fits (sizes_of streams))"
  shows "\<exists>e. write_msf streams = Inl e \<and> input_error e"
proof (cases "length streams \<le> MAX_STREAMS \<and> starts_empty streams")
  case True
  then have "(case streams of Some bytes # _ \<Rightarrow> bytes = [] | _ \<Rightarrow> False)"
    by (cases streams) (auto simp: starts_empty_def)
  then show ?thesis
    using True assms plan_layout_bad [of "sizes_of streams"] by (auto simp: write_msf_def)
next
  case False
  then show ?thesis
    by (auto simp: write_msf_def guard_def input_error_def starts_empty_def split: list.splits option.splits)
qed

lemma write_msf_written: "write_msf streams = Inr out \<Longrightarrow> \<exists>l. written streams l out"
  using write_msf_ok [of streams] write_msf_bad [of streams] by fastforce

lemma written_data:
  assumes "written streams l out" "set (data_updates bs data) \<subseteq> set (msf_updates streams l)"
    and "length bs = div_ceil (length data) BLOCK_SIZE"
  shows "take (length data) (read_blocks out bs) = data"
proof -
  let ?z = "replicate BLOCK_SIZE 0" and ?cs = "chunks BLOCK_SIZE data"
  have "map (block_of out) bs = map (\<lambda>c. overlay c ?z) ?cs"
  proof (rule nth_equalityI)
    fix i assume i: "i < length (map (block_of out) bs)"
    then have "(bs ! i, overlay (?cs ! i)) \<in> set (data_updates bs data)"
      using assms(3) by (auto simp: data_updates_def set_zip chunks_length)
    then have "block_of out (bs ! i) = overlay (?cs ! i) ?z"
      using assms(1,2) unfolding written_def by fastforce
    then show "map (block_of out) bs ! i = map (\<lambda>c. overlay c ?z) ?cs ! i"
      using i assms(3) by (simp add: chunks_length)
  qed (simp add: assms(3) chunks_length)
  then show ?thesis
    using overlaid_chunks [of BLOCK_SIZE ?z data] by (simp add: read_blocks_def BLOCK_SIZE_def)
qed

end
