(* ===== verification/Msf_Properties.thy ===== *)
theory Msf_Properties
  imports Msf_Reader
begin

text \<open>
  What the container writer promises: it accepts exactly what the format can hold, a file that it wrote
  reads back as the streams it was given, and the free page map describes that file exactly.
\<close>

section \<open>The index of a written file\<close>

lemma layout_small:
  assumes "fits (sizes_of streams)" "layout_of (sizes_of streams) l"
  shows "ml_num_blocks l < 2 ^ 32" "ml_directory_size l < 2 ^ 32"
    "\<forall>w \<in> set (ml_directory_blocks l). w < 2 ^ 32" "\<forall>w \<in> set (directory_words l). w < 2 ^ 32"
proof -
  show n: "ml_num_blocks l < 2 ^ 32"
    using assms(2) by (simp add: layout_of_def)
  have "directory_count (sizes_of streams) \<le> 1024"
    using assms(1) by (simp add: fits_def MAX_DIRECTORY_BLOCKS_def BLOCK_SIZE_def)
  then show "ml_directory_size l < 2 ^ 32"
    using assms(2) by (simp add: layout_of_def directory_count_def div_ceil_block)
  have bs: "b < 2 ^ 32" if "b \<in> set (concat (map pl_blocks (ml_streams l)) @ ml_directory_blocks l)" for b
    using that n unfolding layout_blocks(2) [OF assms(2)] by linarith
  then show "\<forall>w \<in> set (ml_directory_blocks l). w < 2 ^ 32"
    by simp
  have "fst (shape_of (map_option length s)) < 2 ^ 32" if "s \<in> set streams" for s
    using assms(1) that
    by (cases s) (auto simp: fits_def list_all_iff encodable_def shape_of_def NIL_STREAM_SIZE_def dest!: bspec)
  moreover have "map pl_size (ml_streams l) = map (\<lambda>s. fst (shape_of (map_option length s))) streams"
    using assms(2) by (simp add: layout_of_def comp_def)
  ultimately have "\<forall>w \<in> set (map pl_size (ml_streams l)). w < 2 ^ 32"
    by simp
  moreover have "length (ml_streams l) < 2 ^ 32"
    using assms(1) planned_all(1) [OF assms(2)] by (simp add: fits_def MAX_STREAMS_def)
  moreover have "\<forall>w \<in> set (concat (map pl_blocks (ml_streams l))). w < 2 ^ 32"
    using bs by simp
  ultimately show "\<forall>w \<in> set (directory_words l). w < 2 ^ 32"
    by (simp only: directory_words_def list.set set_append ball_simps ball_Un simp_thms)
qed

lemma written_index:
  assumes "written streams l out"
  shows "read_index out = Some (2, 3, ml_directory_blocks l, directory_words l)"
proof -
  let ?z = "replicate BLOCK_SIZE 0 :: u8 list"
  have w: "fits (sizes_of streams)" "layout_of (sizes_of streams) l" "whole (ml_num_blocks l) out"
    and at: "\<And>x. x \<in> set (msf_updates streams l) \<Longrightarrow> block_of out (fst x) = snd x ?z"
    using assms by (simp_all add: written_def)
  note small = layout_small [OF w(1,2)] and dir = directory_length [OF w(2)]
  have super: "block_of out 0 = superblock_fields l @ drop 56 ?z"
    using at [of "(SUPER_BLOCK, overlay (superblock_fields l))"]
    by (simp add: msf_updates_def overlay_def SUPER_BLOCK_def)
  have "take 24 (drop 32 (block_of out 0)) = le_words [BLOCK_SIZE, 2, ml_num_blocks l, ml_directory_size l, 0, 3]"
    unfolding super superblock_fields_def
    by (simp add: le_words_def ACTIVE_FPM_BLOCK_def DIRECTORY_BLOCK_MAP_def)
  moreover have "words (le_words [BLOCK_SIZE, 2, ml_num_blocks l, ml_directory_size l, 0, 3])
      = [BLOCK_SIZE, 2, ml_num_blocks l, ml_directory_size l, 0, 3]"
    using small(1,2) by (intro words_le_words) (simp add: BLOCK_SIZE_def)
  moreover have "take 32 (block_of out 0) = MSF_700_MAGIC"
    unfolding super superblock_fields_def by simp
  moreover have "length out = ml_num_blocks l * BLOCK_SIZE"
    using w(3) by (simp add: whole_def)
  moreover have "block_of out 3 = le_words (ml_directory_blocks l) @ drop (length (le_words (ml_directory_blocks l))) ?z"
    using at [of "(DIRECTORY_BLOCK_MAP, overlay (le_words (ml_directory_blocks l)))"]
    by (simp add: msf_updates_def overlay_def DIRECTORY_BLOCK_MAP_def)
  then have "take (div_ceil (ml_directory_size l) BLOCK_SIZE) (words (block_of out 3)) = ml_directory_blocks l"
    using words_append [OF small(3)] dir by (simp add: length_le_words)
  moreover have "set (data_updates (ml_directory_blocks l) (le_words (directory_words l))) \<subseteq> set (msf_updates streams l)"
    unfolding msf_updates_def by auto
  then have "take (ml_directory_size l) (read_blocks out (ml_directory_blocks l)) = le_words (directory_words l)"
    using written_data [OF assms _ dir(2)] dir(1) by (simp add: length_le_words)
  ultimately show ?thesis
    using words_le_words [OF small(4)] by (simp add: read_index_def Let_def)
qed

lemma written_streams:
  assumes "written streams l out"
  shows "set xs \<subseteq> set (zip streams (ml_streams l)) \<Longrightarrow>
    read_streams out (map (\<lambda>x. pl_size (snd x)) xs) (concat (map (\<lambda>x. pl_blocks (snd x)) xs)) = map fst xs"
proof (induction xs)
  case (Cons x xs)
  have layout: "layout_of (sizes_of streams) l" and fit: "fits (sizes_of streams)"
    using assms by (simp_all add: written_def)
  have x: "x \<in> set (zip streams (ml_streams l))"
    using Cons.prems by simp
  then have p: "planned_for x"
    using planned_all(2) [OF layout] by (simp add: list_all_iff)
  show ?case
  proof (cases "fst x")
    case None
    then show ?thesis
      using p Cons by (simp add: planned_for_def shape_of_def)
  next
    case (Some bytes)
    then have "Some bytes \<in> set streams"
      using x by (metis prod.collapse set_zip_leftD)
    then have nil: "length bytes \<noteq> NIL_STREAM_SIZE"
      using fit by (auto simp: fits_def list_all_iff encodable_def dest!: bspec)
    have shape: "pl_size (snd x) = length bytes" "length (pl_blocks (snd x)) = div_ceil (length bytes) BLOCK_SIZE"
      using p Some by (simp_all add: planned_for_def shape_of_def)
    have "stream_updates x = data_updates (pl_blocks (snd x)) bytes"
      by (simp add: stream_updates_def Some)
    then have "set (data_updates (pl_blocks (snd x)) bytes) \<subseteq> set (msf_updates streams l)"
      using x unfolding msf_updates_def by force
    from written_data [OF assms this shape(2)] show ?thesis
      using Cons nil shape Some by (simp add: Let_def)
  qed
qed simp

section \<open>What a container can hold\<close>

definition blocks_for :: "nat \<Rightarrow> nat" where
  "blocks_for bytes = (bytes + 4095) div 4096"

definition container_holds :: "u8 list option list \<Rightarrow> bool" where
  "container_holds streams \<longleftrightarrow> streams \<noteq> [] \<and> hd streams = Some [] \<and> length streams \<le> 65535
     \<and> list_all (\<lambda>s. case s of None \<Rightarrow> True | Some bytes \<Rightarrow> length bytes < 2 ^ 32 - 1) streams
     \<and> (let blocks = sum_list (map (\<lambda>s. case s of None \<Rightarrow> 0 | Some bytes \<Rightarrow> blocks_for (length bytes)) streams);
            directory = blocks_for (4 * (1 + length streams + blocks)) in
        directory \<le> 1024 \<and> blocks + directory \<le> 32750)"

lemma container_holds_exact: "container_holds streams \<longleftrightarrow> starts_empty streams \<and> fits (sizes_of streams)"
proof -
  have "snd (shape_of (map_option length s)) = (case s of None \<Rightarrow> 0 | Some bytes \<Rightarrow> blocks_for (length bytes))"
    for s :: "u8 list option"
    by (simp add: shape_of_def blocks_for_def div_ceil_block split: option.split)
  then have blocks: "stream_blocks (sizes_of streams)
      = sum_list (map (\<lambda>s. case s of None \<Rightarrow> 0 | Some bytes \<Rightarrow> blocks_for (length bytes)) streams)"
    by (simp add: stream_blocks_def comp_def)
  have count: "directory_count (sizes_of streams) = blocks_for (4 * (1 + length streams + stream_blocks (sizes_of streams)))"
    by (simp add: directory_count_def directory_bytes_def blocks_for_def div_ceil_block algebra_simps)
  have "list_all encodable (sizes_of streams)
      \<longleftrightarrow> list_all (\<lambda>s. case s of None \<Rightarrow> True | Some bytes \<Rightarrow> length bytes < 2 ^ 32 - 1) streams"
    unfolding list_all_length encodable_def NIL_STREAM_SIZE_def by (auto split: option.splits)
  moreover have "MAX_DIRECTORY_BLOCKS = 1024"
    by (simp add: MAX_DIRECTORY_BLOCKS_def BLOCK_SIZE_def)
  ultimately show ?thesis
    unfolding container_holds_def fits_def starts_empty_def count free_capacity blocks MAX_STREAMS_def Let_def
    by (simp only: length_map conj_assoc)
qed

section \<open>Properties\<close>

text \<open>
  C22. A container that was written reads back as exactly the streams it was given, absent ones
  included, in their order and with every byte, and the file is a whole number of blocks.
\<close>

theorem write_msf_round_trip:
  assumes "write_msf streams = Inr out"
  shows "read_msf out = Some streams \<and> length out mod BLOCK_SIZE = 0"
proof -
  obtain l where w: "written streams l out"
    using write_msf_written [OF assms] by blast
  then have layout: "layout_of (sizes_of streams) l" and whole: "whole (ml_num_blocks l) out"
    by (simp_all add: written_def)
  note len = planned_all(1) [OF layout]
  let ?xs = "zip streams (ml_streams l)"
  have "map (\<lambda>x. pl_size (snd x)) ?xs = map pl_size (ml_streams l)" "map (\<lambda>x. pl_blocks (snd x)) ?xs = map pl_blocks (ml_streams l)"
    "map fst ?xs = streams"
    using map_snd_zip [of streams "ml_streams l"] len by (simp_all flip: map_map [unfolded comp_def])
  then have "read_streams out (map pl_size (ml_streams l)) (concat (map pl_blocks (ml_streams l))) = streams"
    using written_streams [OF w, of ?xs] by simp
  then show ?thesis
    using written_index [OF w] whole by (simp add: read_msf_def directory_words_def whole_def)
qed

text \<open>
  C24. The writer accepts exactly what the format can hold: an empty first stream, at most 65535 streams
  whose sizes are below the marker of absent streams, a directory whose block numbers fit in one block,
  and no more blocks than the 32750 that remain beside the reserved ones.  It refuses everything else with
  an error that describes the input (a directory size beyond 32 bits is one of them), never by an
  internal inconsistency, another overflow or a panic.
\<close>

theorem write_msf_accepts_exactly:
  "case write_msf streams of
     Inr _ \<Rightarrow> container_holds streams
   | Inl e \<Rightarrow> input_error e \<and> \<not> container_holds streams"
  using write_msf_ok [of streams] write_msf_bad [of streams]
  by (cases "container_holds streams") (auto simp: container_holds_exact)

text \<open>
  C23. The blocks of a written file have one owner each.  The superblock, the block map, the directory
  and the streams use different blocks, none of them a free page map; together with those maps they
  are all blocks of the file; the active map marks free exactly the blocks beyond its end, and the
  maps of later intervals mark everything free.
\<close>

theorem write_msf_blocks_exact:
  assumes "write_msf streams = Inr out"
  defines "n \<equiv> length out div BLOCK_SIZE"
  shows "distinct (used_blocks out)
    \<and> (\<forall>b. b \<in> set (used_blocks out) \<longleftrightarrow> b < n \<and> \<not> is_fpm_block b)
    \<and> (\<forall>b < MAX_BLOCKS. marked_free out b \<longleftrightarrow> n \<le> b)
    \<and> (\<forall>b < n. is_fpm_block b \<and> BLOCK_SIZE \<le> b \<longrightarrow> block_of out b = replicate BLOCK_SIZE 0xff)"
proof -
  obtain l where w: "written streams l out"
    using write_msf_written [OF assms(1)] by blast
  then have layout: "layout_of (sizes_of streams) l" and whole: "whole (ml_num_blocks l) out"
    and at: "\<And>x. x \<in> set (msf_updates streams l) \<Longrightarrow> block_of out (fst x) = snd x (replicate BLOCK_SIZE 0)"
    by (simp_all add: written_def)
  have n: "n = ml_num_blocks l" "n \<le> MAX_BLOCKS" "4 \<le> n"
    using whole layout by (simp_all add: n_def whole_def BLOCK_SIZE_def layout_of_def)
  let ?ss = "concat (map pl_blocks (ml_streams l))" and ?d = "ml_directory_blocks l"
  have used: "used_blocks out = 0 # 3 # ?d @ ?ss"
    using written_index [OF w] by (simp add: used_blocks_def directory_words_def)
  note bs = layout_blocks [OF layout]
  have low: "b < 4 \<Longrightarrow> is_fpm_block b \<longleftrightarrow> b = 1 \<or> b = 2" for b
    by (rule fpm_first) (simp add: BLOCK_SIZE_def)
  have mem: "b \<in> set (used_blocks out) \<longleftrightarrow> b < n \<and> \<not> is_fpm_block b" for b
  proof (cases "b < 4")
    case True
    then have "b \<notin> set (?ss @ ?d)" "b = 0 \<or> b = 1 \<or> b = 2 \<or> b = 3"
      unfolding bs(2) by auto
    then show ?thesis
      using low [OF True] n(3) by (auto simp: used)
  next
    case False
    then show ?thesis
      using bs(2) [of b] n(1) by (auto simp: used)
  qed
  have "distinct (used_blocks out)"
    using bs(1) bs(2) [of 0] bs(2) [of 3] by (auto simp: used)
  moreover have "block_of out 2 = page_bitmap n"
    using at [of "(ACTIVE_FPM_BLOCK, \<lambda>_. page_bitmap (ml_num_blocks l))"]
    by (simp add: msf_updates_def map_updates_def n(1) ACTIVE_FPM_BLOCK_def)
  then have "marked_free out b \<longleftrightarrow> n \<le> b" if "b < MAX_BLOCKS" for b
    using page_bitmap(3) [OF n(2) that] written_index [OF w] by (simp add: marked_free_def)
  moreover have "block_of out b = replicate BLOCK_SIZE 0xff" if "b < n" "is_fpm_block b" "BLOCK_SIZE \<le> b" for b
    using at [of "all_free b"] that by (simp add: msf_updates_def map_updates_def n(1))
  ultimately show ?thesis
    using mem by blast
qed

text \<open>A container with an absent stream and a stream of two blocks.\<close>

definition sample_streams :: "u8 list option list" where
  "sample_streams = [Some [], Some (replicate 5000 7), None, Some [1, 2, 3]]"

lemma sample_fits: "container_holds sample_streams"
  by (simp add: sample_streams_def container_holds_def blocks_for_def Let_def)

lemma sample_written: "\<exists>out. write_msf sample_streams = Inr out"
  using sample_fits write_msf_ok [of sample_streams] by (auto simp: container_holds_exact)

theorem write_msf_round_trip_witness:
  "\<exists>out. write_msf sample_streams = Inr out \<and> read_msf out = Some sample_streams"
  using sample_written write_msf_round_trip [of sample_streams] by blast

theorem write_msf_blocks_exact_witness:
  "\<exists>out. write_msf sample_streams = Inr out \<and> distinct (used_blocks out) \<and> marked_free out 32767 = (length out div BLOCK_SIZE \<le> 32767)"
  using sample_written write_msf_blocks_exact [of sample_streams] by auto

end
