(* ===== verification/Spec2Isabelle.thy ===== *)
theory Spec2Isabelle
  imports Sandbox_Examples Lease_Identifiers Session_Examples Breakpoint_Properties Patch_Session
    Gdb_Properties Address_Properties Msf_Properties
begin

text \<open>
  A verification of the debugger core of ReSymbol.  ReSymbol recovers symbols from binaries and
  debugs them through isolated hosts.  All decisions of its debugger are taken by pure reducers in
  \<open>src/crates/resymbol-debugger\<close>: a host performs the effects and reports them back, and the reducers
  decide which call is admitted and what it changes.  Those reducers are modelled here operation by
  operation, together with the packet framing of the GDB client
  (\<open>src/crates/resymbol-gdb-remote\<close>) and the container writer of the PDB exporter
  (\<open>src/crates/resymbol-export\<close>).

  \<^bold>\<open>How code becomes definitions.\<close>  A struct is a \<^theory_text>\<open>record\<close>, an enum a \<^theory_text>\<open>datatype\<close>, a machine integer
  a word of its width with checked and saturating arithmetic written out, a \<open>BTreeMap\<close> a key-sorted
  association list, \<open>Result\<close> a sum with the error on the left, and a method on \<open>&mut self\<close> a state
  transformer that also returns the state it leaves behind an error.  A panic is a further error
  constructor, so that its absence can be proved.  SHA-256 and the random secrets come from
  packages outside the repository and are arguments.

  \<^bold>\<open>Foundations.\<close>  \<open>Prelude\<close> holds words, results, the state-and-error monad and the interfaces that
  the component proofs share: \<open>reducer\<close> (an invariant kept by every call), \<open>watermark\<close> and \<open>trap\<close> (an
  identifier that only grows, a state that is never left).  \<open>Ordered_Map\<close> and
  \<open>Removable_Map\<close> give the standard library's map against the abstract map it implements.

  \<^bold>\<open>Identities and leases\<close> (\<open>identity.rs\<close>, \<open>authorization.rs\<close>, \<open>BinaryId\<close> of the core crate).  \<open>Identity\<close>,
  \<open>Authorization\<close>: checked constructors, lease sequences, both issuers and the verifiers they
  return.  \<open>Lease_Identifiers\<close>: one issuer of each kind, served in any order, repeats an identifier
  only where the hash collides.

  \<^bold>\<open>Sandbox contracts\<close> (\<open>sandbox.rs\<close>).  \<open>Sandbox_Policy\<close> has policies, descriptors, attestations and
  their validation; \<open>Policy_Digest\<close> decodes the canonical byte encoding, which is therefore injective;
  \<open>Sandbox_Machine\<close> is the lifecycle reducer and shows that a target runs only with the
  attestation that its policy expects.  \<open>Sandbox_Examples\<close> is a concrete sandbox.

  \<^bold>\<open>Protocol\<close> (\<open>protocol.rs\<close>).  \<open>Protocol\<close> has tokens, targets, capabilities, commands, states, events
  and their validation; \<open>Protocol_Laws\<close> what a validated value guarantees; \<open>Protocol_Examples\<close>
  concrete values.

  \<^bold>\<open>Session reducer\<close> (\<open>session_machine.rs\<close>).  \<open>Session_Machine\<close> has the state and every method.
  \<open>Session_World\<close> drives it as its callers can: \<open>sw_exec\<close> is one call of a public method, \<open>sw_run\<close> a
  sequence of them, and the tickets that only the reducer can mint are named by their position.
  \<open>Session_Operations\<close> and \<open>Session_Frames\<close> say what each call changes and leaves alone,
  \<open>Session_Invariant\<close> that state, authority and sandbox always agree.  The results about all
  sequences of calls are in \<open>Session_Properties\<close> (refinement of the protocol's successor relation,
  authorised execution, no replay, exact resolution of commands), \<open>Session_Closing\<close> (atomic batches,
  the evidence that closes a session, when closing is possible), \<open>Session_Tokens\<close> (stop and run
  identifiers only grow) and \<open>Session_Leases\<close> (leases are spent once, issued launches open,
  registries are bounded).  \<open>Session_Examples\<close> holds concrete sessions.

  \<^bold>\<open>Software breakpoints\<close> (\<open>software_breakpoint.rs\<close>).  \<open>Software_Breakpoint\<close> is the planner,
  \<open>Breakpoint_Laws\<close> the planner next to the memory of a debuggee whose backend reports only what it
  performed, \<open>Breakpoint_Properties\<close> that the memory is then predictable from the table and that the
  cleanup evidence is complete.

  \<^bold>\<open>Live patches\<close> (\<open>live_patch_history.rs\<close>).  \<open>Live_Patch_History\<close> is the undo history.  \<open>Patch_Laws\<close>
  and \<open>Patch_Receipts\<close> have its operations and the one shape of receipt that commits, \<open>Patch_World\<close>
  the history next to a memory that performs dispatched writes at any moment, \<open>Patch_Properties\<close>
  that the memory is the replay of the stack, and \<open>Patch_Session\<close> its composition with the session
  reducer, including the stop-number gap after a write refused without effect.

  \<^bold>\<open>GDB framing\<close> (\<open>gdb-remote/src/protocol.rs\<close>).  \<open>Gdb_Protocol\<close> has the encoder and the incremental
  reader, \<open>Gdb_Laws\<close> and \<open>Gdb_Properties\<close> the round trip of packet streams, detection of a corrupted
  byte, the limits of the reader and its recovery from garbage.

  \<^bold>\<open>Static address space\<close> (\<open>address_space.rs\<close>).  \<open>Address_Space\<close> has both constructors and the lookups,
  \<open>Address_Laws\<close> the shape of region tables and the binary search, \<open>Address_Properties\<close> that the PE
  table partitions the image, the ELF table is the load segments, and file offsets stay in the
  bytes that back them.

  \<^bold>\<open>PDB container\<close> (\<open>export/src/pdb/msf.rs\<close>).  \<open>Msf_Container\<close> is the writer.  \<open>Msf_Allocator\<close> shows that the
  plan takes the first free blocks and which inputs it refuses, \<open>Msf_Blocks\<close> treats the file as a store
  of blocks, \<open>Msf_Writers\<close>, \<open>Msf_Stages\<close> and \<open>Msf_File\<close> turn each stage and then the whole writer into
  updates of different blocks, \<open>Msf_Reader\<close> has the reference reader, and \<open>Msf_Properties\<close> the round
  trip, the exact use of blocks and the exact domain of the writer.

  \<^bold>\<open>Bounds and termination.\<close>  No definition uses fuel: loops over collections are structural
  recursion, and the others have termination proofs.  Capacities are the constants of the source,
  and the theorems hold at those values.  A \<open>usize\<close> is that of a 64-bit target.

  \<^bold>\<open>Not modelled.\<close>  Serde types and JSON framing, the processes, pipes, sockets and system calls of
  the hosts, the parsers and decoders of the analysis crate (the address space starts from their
  results), the other exporters, plugins, packages and the user interface.  Paths are compared byte by byte,
  which refuses more than the component-wise comparison of the standard library.  A panic inside
  an operation is a value of the model, after which the world may still make calls.
\<close>

end
